(* ===== verification/Prelude.thy ===== *)
theory Prelude
  imports Complex_Main "HOL-Library.Word" "HOL-Library.AList" "HOL-Library.Char_ord"
    "HOL-Library.List_Lexorder" "HOL-Library.Product_Lexorder" "HOL-Library.Sublist"
    "HOL-Library.Multiset"
begin

text \<open>
  The vocabulary the components share: Go strings (byte lists with the bytewise order),
  rune iteration, Go maps as association lists, errors as values and the small part of the
  standard library (strings, strconv, sort, errors) that the operator calls.

  A Go map is an association list with distinct keys. The order of the list stands for the
  order in which one \<open>range\<close> loop happens to visit the map: Go leaves it open, and every
  theorem is stated for all lists, hence for all visiting orders.
\<close>

named_theorems go_string "characterisations of the string helpers"
named_theorems map_rules "lookups in maps after the map operations"

type_synonym 'v gomap = "(string \<times> 'v) list"
type_synonym int32 = "32 word"
type_synonym time = int

section \<open>Strings\<close>

text \<open>\<open>strings.HasPrefix\<close>, \<open>strings.HasSuffix\<close>, \<open>strings.TrimPrefix\<close> and \<open>strings.Join\<close>.\<close>

definition hasPrefix :: "string \<Rightarrow> string \<Rightarrow> bool" where
  "hasPrefix s p \<longleftrightarrow> take (length p) s = p"

definition hasSuffix :: "string \<Rightarrow> string \<Rightarrow> bool" where
  "hasSuffix s p \<longleftrightarrow> length p \<le> length s \<and> drop (length s - length p) s = p"

definition trimPrefix :: "string \<Rightarrow> string \<Rightarrow> string" where
  "trimPrefix s p = (if hasPrefix s p then drop (length p) s else s)"

definition trimSuffix :: "string \<Rightarrow> string \<Rightarrow> string" where
  "trimSuffix s p = (if hasSuffix s p then take (length s - length p) s else s)"

fun joinStrings :: "string list \<Rightarrow> string \<Rightarrow> string" where
  "joinStrings [] sep = []"
| "joinStrings [x] sep = x"
| "joinStrings (x # y # xs) sep = x @ sep @ joinStrings (y # xs) sep"

lemma hasPrefix_prefix [go_string]: "hasPrefix s p \<longleftrightarrow> prefix p s"
proof
  assume "hasPrefix s p"
  then have "s = p @ drop (length p) s"
    using append_take_drop_id [of "length p" s] by (simp add: hasPrefix_def)
  then show "prefix p s" by (rule prefixI)
qed (auto simp: hasPrefix_def prefix_def)

lemma hasPrefix_append [simp]: "hasPrefix (p @ s) p"
  by (simp add: hasPrefix_def)

lemma trimPrefix_append [simp]: "trimPrefix (p @ s) p = s"
  by (simp add: trimPrefix_def)

lemma hasSuffix_append [simp]: "hasSuffix (s @ p) p"
  by (simp add: hasSuffix_def)

lemma trimSuffix_append [simp]: "trimSuffix (s @ p) p = s"
  by (simp add: trimSuffix_def)

text \<open>
  Case mapping. Letters outside ASCII never reach \<open>toLower\<close> or \<open>toUpper\<close> in a place where
  their mapped form matters, so they are left alone; \<open>SanitizeLabel\<close>, which receives free
  text, maps runes with \<open>lowerRune\<close> below.
\<close>

definition byte :: "char \<Rightarrow> nat" where
  "byte c = of_char c"

definition lowerByte :: "char \<Rightarrow> char" where
  "lowerByte c = (if 65 \<le> byte c \<and> byte c \<le> 90 then char_of (byte c + 32) else c)"

definition upperByte :: "char \<Rightarrow> char" where
  "upperByte c = (if 97 \<le> byte c \<and> byte c \<le> 122 then char_of (byte c - 32) else c)"

definition toLower :: "string \<Rightarrow> string" where
  "toLower s = map lowerByte s"

definition toUpper :: "string \<Rightarrow> string" where
  "toUpper s = map upperByte s"

text \<open>\<open>strings.EqualFold\<close> on ASCII text.\<close>

definition equalFold :: "string \<Rightarrow> string \<Rightarrow> bool" where
  "equalFold s t \<longleftrightarrow> toLower s = toLower t"

text \<open>\<open>strconv.Itoa\<close>.\<close>

fun natStr :: "nat \<Rightarrow> string" where
  "natStr n = (if n < 10 then [char_of (48 + n)] else natStr (n div 10) @ [char_of (48 + n mod 10)])"

declare natStr.simps [simp del]

definition itoa :: "int \<Rightarrow> string" where
  "itoa i = (if i < 0 then ''-'' @ natStr (nat (- i)) else natStr (nat i))"

definition isDigitByte :: "char \<Rightarrow> bool" where
  "isDigitByte c \<longleftrightarrow> 48 \<le> byte c \<and> byte c \<le> 57"

definition digitVal :: "char \<Rightarrow> nat" where
  "digitVal c = byte c - 48"

text \<open>\<open>strconv.Atoi\<close>: an optional sign and at least one decimal digit, within 64 bits.\<close>

definition atoiDigits :: "string \<Rightarrow> nat option" where
  "atoiDigits s =
     (if s \<noteq> [] \<and> list_all isDigitByte s
      then Some (foldl (\<lambda>n c. 10 * n + digitVal c) 0 s) else None)"

definition atoi :: "string \<Rightarrow> int option" where
  "atoi s =
     (let neg = hasPrefix s ''-'';
          rest = (if neg \<or> hasPrefix s ''+'' then tl s else s)
      in case atoiDigits rest of
           None \<Rightarrow> None
         | Some n \<Rightarrow>
             (let v = (if neg then - int n else int n)
              in if - (2 ^ 63) \<le> v \<and> v < 2 ^ 63 then Some v else None))"

text \<open>The \<open>%q\<close> verb: double quotes around the text, with the escapes of printable ASCII.\<close>

definition quoteByte :: "char \<Rightarrow> string" where
  "quoteByte c =
     (if c = CHR 0x22 then [CHR 0x5C, CHR 0x22]
      else if c = CHR 0x5C then [CHR 0x5C, CHR 0x5C]
      else if c = CHR 0x0A then [CHR 0x5C, CHR ''n'']
      else if c = CHR 0x0D then [CHR 0x5C, CHR ''r'']
      else if c = CHR 0x09 then [CHR 0x5C, CHR ''t'']
      else [c])"

definition quoted :: "string \<Rightarrow> string" where
  "quoted s = [CHR 0x22] @ concat (map quoteByte s) @ [CHR 0x22]"

section \<open>Runes\<close>

text \<open>
  \<open>for _, r := range s\<close> decodes UTF-8; a byte that starts no valid sequence is U+FFFD of
  width one.
\<close>

abbreviation runeError :: nat where
  "runeError \<equiv> 65533"

definition contByte :: "nat \<Rightarrow> bool" where
  "contByte b \<longleftrightarrow> 128 \<le> b \<and> b \<le> 191"

definition decodeRune2 :: "nat \<Rightarrow> nat \<Rightarrow> nat option" where
  "decodeRune2 b0 b1 =
     (if 194 \<le> b0 \<and> b0 \<le> 223 \<and> contByte b1 then Some ((b0 - 192) * 64 + (b1 - 128)) else None)"

definition decodeRune3 :: "nat \<Rightarrow> nat \<Rightarrow> nat \<Rightarrow> nat option" where
  "decodeRune3 b0 b1 b2 =
     (if 224 \<le> b0 \<and> b0 \<le> 239 \<and> contByte b1 \<and> contByte b2 \<and>
         (b0 = 224 \<longrightarrow> 160 \<le> b1) \<and> (b0 = 237 \<longrightarrow> b1 \<le> 159)
      then Some ((b0 - 224) * 4096 + (b1 - 128) * 64 + (b2 - 128)) else None)"

definition decodeRune4 :: "nat \<Rightarrow> nat \<Rightarrow> nat \<Rightarrow> nat \<Rightarrow> nat option" where
  "decodeRune4 b0 b1 b2 b3 =
     (if 240 \<le> b0 \<and> b0 \<le> 244 \<and> contByte b1 \<and> contByte b2 \<and> contByte b3 \<and>
         (b0 = 240 \<longrightarrow> 144 \<le> b1) \<and> (b0 = 244 \<longrightarrow> b1 \<le> 143)
      then Some ((b0 - 240) * 262144 + (b1 - 128) * 4096 + (b2 - 128) * 64 + (b3 - 128))
      else None)"

definition decodeRune :: "nat \<Rightarrow> nat list \<Rightarrow> nat \<times> nat" where
  "decodeRune b0 rest =
     (if b0 < 128 then (b0, 1)
      else case rest of
        [] \<Rightarrow> (runeError, 1)
      | b1 # rest1 \<Rightarrow>
          (case decodeRune2 b0 b1 of
             Some r \<Rightarrow> (r, 2)
           | None \<Rightarrow>
               (case rest1 of
                  [] \<Rightarrow> (runeError, 1)
                | b2 # rest2 \<Rightarrow>
                    (case decodeRune3 b0 b1 b2 of
                       Some r \<Rightarrow> (r, 3)
                     | None \<Rightarrow>
                         (case rest2 of
                            [] \<Rightarrow> (runeError, 1)
                          | b3 # _ \<Rightarrow>
                              (case decodeRune4 b0 b1 b2 b3 of
                                 Some r \<Rightarrow> (r, 4)
                               | None \<Rightarrow> (runeError, 1)))))))"

fun goRunesB :: "nat list \<Rightarrow> nat list" where
  "goRunesB [] = []"
| "goRunesB (b # bs) = (let (r, n) = decodeRune b bs in r # goRunesB (drop (n - 1) bs))"

definition goRunes :: "string \<Rightarrow> nat list" where
  "goRunes s = goRunesB (map byte s)"

lemma goRunesB_ascii: "\<forall>b \<in> set bs. b < 128 \<Longrightarrow> goRunesB bs = bs"
  by (induction bs) (auto simp: decodeRune_def)

text \<open>
  \<open>unicode.ToLower\<close> as far as its callers can tell: the ASCII capitals, and the two letters
  outside ASCII (U+0130 and U+212A) whose lower case is an ASCII letter. Every other rune
  outside ASCII has a lower case outside ASCII.
\<close>

definition lowerRune :: "nat \<Rightarrow> nat" where
  "lowerRune r =
     (if 65 \<le> r \<and> r \<le> 90 then r + 32
      else if r = 304 then 105
      else if r = 8490 then 107
      else r)"

section \<open>Maps\<close>

text \<open>\<open>m[k]\<close> with the zero value for a missing key, and \<open>maps.Copy\<close>.\<close>

definition mgetS :: "string gomap \<Rightarrow> string \<Rightarrow> string" where
  "mgetS m k = (case map_of m k of None \<Rightarrow> [] | Some v \<Rightarrow> v)"

abbreviation mapsCopy :: "'v gomap \<Rightarrow> 'v gomap \<Rightarrow> 'v gomap" where
  "mapsCopy dst src \<equiv> AList.merge dst src"

definition sortedKeys :: "'v gomap \<Rightarrow> string list" where
  "sortedKeys m = sort (map fst m)"

definition wfmap :: "'v gomap \<Rightarrow> bool" where
  "wfmap m \<longleftrightarrow> distinct (map fst m)"

lemma wfmap_Nil [simp]: "wfmap []"
  by (simp add: wfmap_def)

lemma wfmap_Cons [simp]: "wfmap ((k, v) # m) \<longleftrightarrow> k \<notin> fst ` set m \<and> wfmap m"
  by (simp add: wfmap_def)

lemma wfmap_update [simp]: "wfmap m \<Longrightarrow> wfmap (AList.update k v m)"
  by (simp add: wfmap_def distinct_update)

lemma wfmap_delete [simp]: "wfmap m \<Longrightarrow> wfmap (AList.delete k m)"
  by (simp add: wfmap_def distinct_delete)

lemma wfmap_merge [simp]: "wfmap m \<Longrightarrow> wfmap (AList.merge m n)"
  by (simp add: wfmap_def distinct_merge)

lemma map_of_update [map_rules]: "map_of (AList.update k v m) = (map_of m)(k \<mapsto> v)"
  by (rule update_conv')

lemma map_of_delete [map_rules]: "map_of (AList.delete k m) = (map_of m)(k := None)"
  by (rule delete_conv')

lemma map_of_merge [map_rules]: "map_of (AList.merge m n) = map_of m ++ map_of n"
  by (rule merge_conv')

lemma set_sortedKeys [simp]: "set (sortedKeys m) = fst ` set m"
  by (simp add: sortedKeys_def)

lemma sorted_sortedKeys [simp]: "sorted (sortedKeys m)"
  by (simp add: sortedKeys_def)

lemma distinct_sortedKeys [simp]: "distinct (sortedKeys m) \<longleftrightarrow> wfmap m"
  by (simp add: sortedKeys_def wfmap_def)

text \<open>Two lists that hold maps of the same domain have the same sorted keys.\<close>

lemma sortedKeys_dom:
  assumes "wfmap m" "wfmap n" "dom (map_of m) = dom (map_of n)"
  shows "sortedKeys m = sortedKeys n"
proof -
  have "fst ` set m = fst ` set n"
    using assms(3) by (simp add: dom_map_of_conv_image_fst)
  moreover have "distinct (sortedKeys m)" "distinct (sortedKeys n)"
    using assms(1,2) by simp_all
  ultimately show ?thesis
    by (intro sorted_distinct_set_unique) simp_all
qed

section \<open>Sorted lists\<close>

text \<open>A list sorted along a relation splits at every downward closed set.\<close>

lemma sorted_wrt_split:
  assumes "sorted_wrt r xs" "\<And>a b. r a b \<Longrightarrow> P b \<Longrightarrow> P a"
  shows "xs = filter P xs @ filter (\<lambda>x. \<not> P x) xs"
  using assms(1)
proof (induction xs)
  case (Cons x xs)
  show ?case
  proof (cases "P x")
    case True
    then show ?thesis using Cons by simp
  next
    case False
    then have "filter P xs = []"
      using Cons.prems assms(2) by (auto simp: filter_empty_conv)
    then show ?thesis using False Cons by simp
  qed
qed simp

lemma hd_sort_key_le:
  assumes "sort_key f xs = y # ys" "x \<in> set xs"
  shows "y \<in> set xs \<and> f y \<le> f x"
proof -
  have "set xs = set (y # ys)" and "sorted (map f (y # ys))"
    by (simp_all only: assms(1) [symmetric] set_sort sorted_sort_key)
  then show ?thesis using assms(2) by auto
qed

text \<open>The element a stable sort puts first does not depend on the order of a list whose keys differ.\<close>

lemma hd_sort_key_unique:
  assumes "sort_key f xs = x # xs'" "sort_key f ys = y # ys'"
    and "set xs = set ys" "inj_on f (set xs)"
  shows "x = y"
proof -
  have "x \<in> set (sort_key f xs)" "y \<in> set (sort_key f ys)"
    by (simp_all only: assms(1,2) list.set_intros)
  then have "x \<in> set xs" "y \<in> set ys" by (simp_all only: set_sort)
  then have "f x \<le> f y" "f y \<le> f x"
    using hd_sort_key_le [OF assms(1), of y] hd_sort_key_le [OF assms(2), of x] assms(3)
    by simp_all
  then show ?thesis
    using \<open>x \<in> set xs\<close> \<open>y \<in> set ys\<close> assms(3,4) by (auto dest: inj_onD)
qed

section \<open>Errors\<close>

datatype api_reason = NotFound | Conflict | AlreadyExists | OtherReason

text \<open>
  A Go \<open>error\<close>. \<open>ErrWrap p e\<close> is \<open>fmt.Errorf("p%w", e)\<close>; the typed errors are the ones the
  code looks for with \<open>errors.As\<close>: the client's \<open>AuthError\<close>, \<open>RPCError\<close> and \<open>StatusError\<close>, the
  controller's \<open>recheckError\<close> and the API machinery's status errors.
\<close>

datatype go_error =
    ErrText string
  | ErrWrap string go_error
  | AuthError string
  | RPCError int string
  | StatusError string string
  | RecheckError go_error
  | ApiError api_reason string
  | ErrJoin "go_error list"

fun errText :: "go_error \<Rightarrow> string" where
  "errText (ErrText s) = s"
| "errText (ErrWrap p e) = p @ errText e"
| "errText (AuthError h) = ''shelly: authentication failed for '' @ h"
| "errText (RPCError c m) = ''shelly rpc error '' @ itoa c @ '': '' @ m"
| "errText (StatusError s b) = ''status '' @ s @ '': '' @ b"
| "errText (RecheckError e) = errText e"
| "errText (ApiError r m) = m"
| "errText (ErrJoin es) = joinStrings (map errText es) [CHR 0x0A]"

text \<open>\<open>errors.As\<close>: the first error of the chain that satisfies the test.\<close>

fun errAs :: "(go_error \<Rightarrow> bool) \<Rightarrow> go_error \<Rightarrow> go_error option" where
  "errAs p (ErrWrap s e) = (if p (ErrWrap s e) then Some (ErrWrap s e) else errAs p e)"
| "errAs p (RecheckError e) = (if p (RecheckError e) then Some (RecheckError e) else errAs p e)"
| "errAs p (ErrJoin es) =
     (if p (ErrJoin es) then Some (ErrJoin es)
      else List.fold (\<lambda>e acc. case acc of Some x \<Rightarrow> Some x | None \<Rightarrow> errAs p e) es None)"
| "errAs p e = (if p e then Some e else None)"

definition is_AuthError :: "go_error \<Rightarrow> bool" where
  "is_AuthError e \<longleftrightarrow> (case e of AuthError _ \<Rightarrow> True | _ \<Rightarrow> False)"

definition is_RPCError :: "go_error \<Rightarrow> bool" where
  "is_RPCError e \<longleftrightarrow> (case e of RPCError _ _ \<Rightarrow> True | _ \<Rightarrow> False)"

definition is_StatusError :: "go_error \<Rightarrow> bool" where
  "is_StatusError e \<longleftrightarrow> (case e of StatusError _ _ \<Rightarrow> True | _ \<Rightarrow> False)"

definition is_RecheckError :: "go_error \<Rightarrow> bool" where
  "is_RecheckError e \<longleftrightarrow> (case e of RecheckError _ \<Rightarrow> True | _ \<Rightarrow> False)"

definition is_ApiReason :: "api_reason \<Rightarrow> go_error \<Rightarrow> bool" where
  "is_ApiReason r e \<longleftrightarrow> (case e of ApiError r' _ \<Rightarrow> r' = r | _ \<Rightarrow> False)"

definition isNotFound :: "go_error \<Rightarrow> bool" where
  "isNotFound e \<longleftrightarrow> errAs (is_ApiReason NotFound) e \<noteq> None"

definition isConflict :: "go_error \<Rightarrow> bool" where
  "isConflict e \<longleftrightarrow> errAs (is_ApiReason Conflict) e \<noteq> None"

definition isAlreadyExists :: "go_error \<Rightarrow> bool" where
  "isAlreadyExists e \<longleftrightarrow> errAs (is_ApiReason AlreadyExists) e \<noteq> None"

lemmas err_kind_defs = is_AuthError_def is_RPCError_def is_StatusError_def is_RecheckError_def
  is_ApiReason_def

end
