(* ===== verification/Json.thy ===== *)
theory Json
  imports Prelude
begin

text \<open>
  Decoded JSON: the Go type \<open>any\<close> as \<open>encoding/json\<close> fills it, with \<open>float64\<close> numbers, and
  the equality, formatting and tree operations the drift code performs on it.
\<close>

section \<open>Numbers and values\<close>

text \<open>
  A \<open>float64\<close> as far as the operator uses it: it converts 32-bit integers (exactly), parses
  decimals and compares with \<open>==\<close>. A finite value is its rational value, so that the two
  zeros are equal, as \<open>==\<close> has it.
\<close>

datatype float64 = Fin rat | Inf bool | NaN

fun feq :: "float64 \<Rightarrow> float64 \<Rightarrow> bool" where
  "feq (Fin a) (Fin b) \<longleftrightarrow> a = b"
| "feq (Inf s) (Inf t) \<longleftrightarrow> s = t"
| "feq _ _ \<longleftrightarrow> False"

definition floatOfInt32 :: "int32 \<Rightarrow> float64" where
  "floatOfInt32 w = Fin (of_int (sint w))"

datatype json =
    JNull
  | JBool bool
  | JNum float64
  | JStr string
  | JArr "json list"
  | JObj "(string \<times> json) list"

type_synonym jmap = "json gomap"

text \<open>A type assertion \<open>v.(map[string]any)\<close> whose failure leaves the nil (empty) map.\<close>

definition asMap :: "json option \<Rightarrow> jmap" where
  "asMap v = (case v of Some (JObj m) \<Rightarrow> m | _ \<Rightarrow> [])"

definition orNull :: "json option \<Rightarrow> json" where
  "orNull v = (case v of None \<Rightarrow> JNull | Some x \<Rightarrow> x)"

definition is_JObj :: "json \<Rightarrow> bool" where
  "is_JObj v \<longleftrightarrow> (case v of JObj _ \<Rightarrow> True | _ \<Rightarrow> False)"

lemma is_JObj_simps [simp]:
  "is_JObj (JObj m)" "\<not> is_JObj JNull" "\<not> is_JObj (JBool b)" "\<not> is_JObj (JNum f)"
  "\<not> is_JObj (JStr s)" "\<not> is_JObj (JArr xs)"
  by (simp_all add: is_JObj_def)

lemma asMap_simps [simp]:
  "asMap None = []" "asMap (Some (JObj m)) = m"
  "\<not> is_JObj v \<Longrightarrow> asMap (Some v) = []"
  by (simp_all add: asMap_def is_JObj_def split: json.splits)

text \<open>\<open>json.Unmarshal(raw, &m)\<close> into a \<open>map[string]any\<close>: an object, or \<open>null\<close> for the nil map.\<close>

definition unmarshalMap :: "json \<Rightarrow> go_error + jmap" where
  "unmarshalMap v =
     (case v of
        JObj m \<Rightarrow> Inr m
      | JNull \<Rightarrow> Inr []
      | _ \<Rightarrow> Inl (ErrText ''json: cannot unmarshal value into Go value of type map[string]interface {}''))"

section \<open>Well-formed trees\<close>

text \<open>Every object in the tree has distinct keys, as every Go map has.\<close>

fun wfj :: "json \<Rightarrow> bool" where
  "wfj (JObj m) \<longleftrightarrow> wfmap m \<and> list_all (\<lambda>(k, v). wfj v) m"
| "wfj (JArr vs) \<longleftrightarrow> list_all wfj vs"
| "wfj _ \<longleftrightarrow> True"

definition wfjm :: "jmap \<Rightarrow> bool" where
  "wfjm m \<longleftrightarrow> wfj (JObj m)"

lemma wfjm_Nil [simp]: "wfjm []"
  by (simp add: wfjm_def)

lemma wfjm_Cons [simp]: "wfjm ((k, v) # m) \<longleftrightarrow> k \<notin> fst ` set m \<and> wfj v \<and> wfjm m"
  by (auto simp: wfjm_def)

lemma wfjm_wfmap: "wfjm m \<Longrightarrow> wfmap m"
  by (simp add: wfjm_def)

lemma wfj_JObj [simp]: "wfj (JObj m) \<longleftrightarrow> wfjm m"
  by (simp add: wfjm_def)

declare wfj.simps(1) [simp del]

lemma wfjm_lookup: "wfjm m \<Longrightarrow> map_of m k = Some v \<Longrightarrow> wfj v"
  by (induction m) (auto split: if_splits)

lemma wfjm_asMap [simp]: "wfjm m \<Longrightarrow> wfjm (asMap (map_of m k))"
  by (auto simp: asMap_def dest: wfjm_lookup split: option.splits json.splits)

lemma wfjm_update [simp]: "wfjm m \<Longrightarrow> wfj v \<Longrightarrow> wfjm (AList.update k v m)"
  by (induction m) (auto simp: dom_update, metis fst_conv imageI)

lemma wfjm_mem: "wfjm m \<Longrightarrow> (k, v) \<in> set m \<Longrightarrow> map_of m k = Some v"
  by (auto dest!: wfjm_wfmap simp: wfmap_def)

section \<open>Equality\<close>

text \<open>\<open>reflect.DeepEqual\<close> on decoded values: maps are compared as maps, numbers with \<open>==\<close>.\<close>

function (sequential) deepEqual :: "json \<Rightarrow> json \<Rightarrow> bool" where
  "deepEqual JNull JNull \<longleftrightarrow> True"
| "deepEqual (JBool a) (JBool b) \<longleftrightarrow> a = b"
| "deepEqual (JNum a) (JNum b) \<longleftrightarrow> feq a b"
| "deepEqual (JStr a) (JStr b) \<longleftrightarrow> a = b"
| "deepEqual (JArr as) (JArr bs) \<longleftrightarrow>
     length as = length bs \<and> list_all (\<lambda>(a, b). deepEqual a b) (zip as bs)"
| "deepEqual (JObj as) (JObj bs) \<longleftrightarrow>
     length as = length bs \<and>
     list_all (\<lambda>(k, a). case map_of bs k of None \<Rightarrow> False | Some b \<Rightarrow> deepEqual a b) as"
| "deepEqual _ _ \<longleftrightarrow> False"
  by pat_completeness auto

lemma size_in_zip: "(a, b) \<in> set (zip as bs) \<Longrightarrow> size a < Suc (size_list size as)"
  by (auto dest!: set_zip_leftD simp: less_Suc_eq_le intro: size_list_estimation')

lemma size_in_map: "(k, a) \<in> set m \<Longrightarrow> size a < Suc (size_list (size_prod (\<lambda>x. 0) size) m)"
  by (force simp: less_Suc_eq_le intro: size_list_estimation')

termination deepEqual
  by (relation "measure (\<lambda>(a, b). size a)") (auto dest: size_in_zip size_in_map)

text \<open>No number in the tree is NaN: only such a value is equal to itself.\<close>

fun nanFree :: "json \<Rightarrow> bool" where
  "nanFree (JNum f) \<longleftrightarrow> f \<noteq> NaN"
| "nanFree (JArr vs) \<longleftrightarrow> list_all nanFree vs"
| "nanFree (JObj m) \<longleftrightarrow> list_all (\<lambda>(k, v). nanFree v) m"
| "nanFree _ \<longleftrightarrow> True"

lemma feq_refl [simp]: "feq f f \<longleftrightarrow> f \<noteq> NaN"
  by (cases f) auto

lemma deepEqual_refl: "wfj v \<Longrightarrow> nanFree v \<Longrightarrow> deepEqual v v"
proof (induction v)
  case (JArr vs)
  then show ?case by (auto simp: list_all_iff in_set_zip)
next
  case (JObj m)
  have "case map_of m k of None \<Rightarrow> False | Some b \<Rightarrow> deepEqual a b" if "(k, a) \<in> set m" for k a
  proof -
    have "map_of m k = Some a" using JObj.prems that by (simp add: wfjm_mem)
    moreover have "wfj a" using JObj.prems calculation by (simp add: wfjm_lookup)
    moreover have "nanFree a" using JObj.prems(2) that by (force simp: list_all_iff)
    ultimately show ?thesis using JObj.IH [OF that, of a] by simp
  qed
  then show ?case by (simp add: list_all_iff split_beta)
qed auto

section \<open>Formatting\<close>

text \<open>
  The parts of the standard library whose results are only passed through: decimal parsing
  and shortest decimal printing of \<open>float64\<close>, the time-zone database and SHA-256. They are
  parameters of the definitions that use them.
\<close>

record golib =
  parseFloat :: "string \<Rightarrow> float64 option"
  fmtFloat :: "float64 \<Rightarrow> string"
  jsonFloat :: "float64 \<Rightarrow> string"
  loadLocation :: "string \<Rightarrow> (time \<Rightarrow> int) option"
  sha256hex :: "string \<Rightarrow> string"

text \<open>The \<open>%v\<close> verb.\<close>

fun fmtV :: "golib \<Rightarrow> json \<Rightarrow> string" where
  "fmtV G JNull = ''<nil>''"
| "fmtV G (JBool b) = (if b then ''true'' else ''false'')"
| "fmtV G (JNum f) = fmtFloat G f"
| "fmtV G (JStr s) = s"
| "fmtV G (JArr vs) = ''['' @ joinStrings (map (fmtV G) vs) '' '' @ '']''"
| "fmtV G (JObj m) =
     ''map['' @ joinStrings (map snd (sort_key fst (map (\<lambda>(k, v). (k, k @ '':'' @ fmtV G v)) m))) '' ''
       @ '']''"

text \<open>\<open>json.Marshal\<close>: object keys sorted, strings escaped as the encoder does.\<close>

definition hexDigit :: "nat \<Rightarrow> char" where
  "hexDigit n = (if n < 10 then char_of (48 + n) else char_of (87 + n))"

definition jsonEscByte :: "char \<Rightarrow> string" where
  "jsonEscByte c =
     (if c = CHR 0x22 then [CHR 0x5C, CHR 0x22]
      else if c = CHR 0x5C then [CHR 0x5C, CHR 0x5C]
      else if c = CHR 0x08 then [CHR 0x5C, CHR ''b'']
      else if c = CHR 0x0C then [CHR 0x5C, CHR ''f'']
      else if c = CHR 0x0A then [CHR 0x5C, CHR ''n'']
      else if c = CHR 0x0D then [CHR 0x5C, CHR ''r'']
      else if c = CHR 0x09 then [CHR 0x5C, CHR ''t'']
      else if byte c < 32 \<or> c = CHR ''<'' \<or> c = CHR ''>'' \<or> c = CHR ''&''
      then [CHR 0x5C, CHR ''u'', CHR ''0'', CHR ''0'', hexDigit (byte c div 16), hexDigit (byte c mod 16)]
      else [c])"

definition jsonString :: "string \<Rightarrow> string" where
  "jsonString s = [CHR 0x22] @ concat (map jsonEscByte s) @ [CHR 0x22]"

fun jsonMarshal :: "golib \<Rightarrow> json \<Rightarrow> string" where
  "jsonMarshal G JNull = ''null''"
| "jsonMarshal G (JBool b) = (if b then ''true'' else ''false'')"
| "jsonMarshal G (JNum f) = jsonFloat G f"
| "jsonMarshal G (JStr s) = jsonString s"
| "jsonMarshal G (JArr vs) = ''['' @ joinStrings (map (jsonMarshal G) vs) '','' @ '']''"
| "jsonMarshal G (JObj m) =
     ''{'' @ joinStrings (map snd (sort_key fst
        (map (\<lambda>(k, v). (k, jsonString k @ '':'' @ jsonMarshal G v)) m))) '','' @ ''}''"

section \<open>Paths\<close>

text \<open>
  The abstract view of a configuration tree: the value at a path of keys. Reading through
  something that is not an object finds nothing, as the failed type assertion does.
\<close>

fun jget :: "jmap \<Rightarrow> string list \<Rightarrow> json option" where
  "jget m [] = None"
| "jget m [k] = map_of m k"
| "jget m (k # k' # ks) = jget (asMap (map_of m k)) (k' # ks)"

lemma jget_Cons: "ks \<noteq> [] \<Longrightarrow> jget m (k # ks) = jget (asMap (map_of m k)) ks"
  by (cases ks) simp_all

lemma jget_Nil_map [simp]: "jget [] ks = None"
proof (induction ks)
  case (Cons k ks)
  then show ?case by (cases ks) simp_all
qed simp

text \<open>The leaves of a tree: paths to values that are not objects.\<close>

definition leafAt :: "jmap \<Rightarrow> string list \<Rightarrow> json \<Rightarrow> bool" where
  "leafAt m ks v \<longleftrightarrow> jget m ks = Some v \<and> \<not> is_JObj v"

lemma leafAt_Nil [simp]: "\<not> leafAt m [] v"
  by (simp add: leafAt_def)

lemma leafAt_single [simp]: "leafAt m [k] v \<longleftrightarrow> map_of m k = Some v \<and> \<not> is_JObj v"
  by (simp add: leafAt_def)

lemma leafAt_Cons2 [simp]:
  "leafAt m (k # k' # ks) v \<longleftrightarrow> leafAt (asMap (map_of m k)) (k' # ks) v"
  by (simp add: leafAt_def)

lemma leafAt_Nil_map [simp]: "\<not> leafAt [] ks v"
  by (simp add: leafAt_def)

lemma map_of_size: "map_of m k = Some v \<Longrightarrow> size v < size (JObj m)"
  by (auto dest!: map_of_SomeD size_in_map)

end
