(* ===== verification/Api_Types.thy ===== *)
theory Api_Types
  imports Json
begin

text \<open>
  The custom resources of \<open>api/v1alpha1\<close>: the profile and device types with the source's
  fields (a pointer or an omitted struct is an \<open>option\<close>, a 32-bit integer a \<open>32 word\<close>), the
  InSync condition's reasons, and the helpers that name and label device objects.
\<close>

section \<open>Object metadata and conditions\<close>

record ObjectMeta =
  m_name :: string
  m_namespace :: string
  m_generation :: int
  m_labels :: "string gomap"
  m_annotations :: "string gomap"

datatype ConditionStatus = ConditionTrue | ConditionFalse | ConditionUnknown

record Condition =
  c_type :: string
  c_status :: ConditionStatus
  c_reason :: string
  c_message :: string
  c_observedGeneration :: int

abbreviation ConditionInSync :: string where "ConditionInSync \<equiv> ''InSync''"

abbreviation ReasonInSync :: string where "ReasonInSync \<equiv> ''InSync''"
abbreviation ReasonDrifted :: string where "ReasonDrifted \<equiv> ''Drifted''"
abbreviation ReasonNoProfile :: string where "ReasonNoProfile \<equiv> ''NoProfile''"
abbreviation ReasonProfileNotFound :: string where "ReasonProfileNotFound \<equiv> ''ProfileNotFound''"
abbreviation ReasonOffline :: string where "ReasonOffline \<equiv> ''Offline''"
abbreviation ReasonPaused :: string where "ReasonPaused \<equiv> ''Paused''"
abbreviation ReasonConfigFetchFailed :: string where "ReasonConfigFetchFailed \<equiv> ''ConfigFetchFailed''"
abbreviation ReasonAuthRequired :: string where "ReasonAuthRequired \<equiv> ''AuthRequired''"
abbreviation ReasonApplyFailed :: string where "ReasonApplyFailed \<equiv> ''ApplyFailed''"
abbreviation ReasonCredentialsError :: string where "ReasonCredentialsError \<equiv> ''CredentialsError''"
abbreviation ReasonNotConverging :: string where "ReasonNotConverging \<equiv> ''NotConverging''"
abbreviation ReasonWifiApplied :: string where "ReasonWifiApplied \<equiv> ''WifiApplied''"

section \<open>ShellyProfile\<close>

record LabelSelectorRequirement =
  lsr_key :: string
  lsr_operator :: string
  lsr_values :: "string list"

record LabelSelector =
  ls_matchLabels :: "string gomap"
  ls_matchExpressions :: "LabelSelectorRequirement list"

record SecretKeyRef =
  skr_name :: string
  skr_key :: string

record RebootWindow =
  rw_start :: string
  rw_end :: string
  rw_timeZone :: string

record SystemSection =
  sys_ecoMode :: "bool option"
  sys_discoverable :: "bool option"
  sys_timezone :: "string option"
  sys_latitude :: "string option"
  sys_longitude :: "string option"
  sys_sntpServer :: "string option"
  sys_debugLevel :: "int32 option"

record NameSection =
  name_managed :: bool

record MQTTSection =
  mqtt_enable :: "bool option"
  mqtt_server :: string

record CloudSection =
  cloud_enable :: "bool option"

record BLESection =
  ble_enable :: "bool option"

record WSSection =
  ws_enable :: "bool option"

record AuthSection =
  auth_enable :: "bool option"
  auth_passwordSecretRef :: "SecretKeyRef option"

record SwitchSection =
  sw_initialState :: "string option"
  sw_autoOn :: "bool option"
  sw_autoOnDelay :: "int32 option"
  sw_autoOff :: "bool option"
  sw_autoOffDelay :: "int32 option"
  sw_powerLimit :: "int32 option"
  sw_voltageLimit :: "int32 option"
  sw_currentLimit :: "int32 option"
  sw_autorecoverVoltageErrors :: "bool option"

record WifiNetwork =
  wn_enable :: "bool option"
  wn_ssid :: string
  wn_passSecretRef :: "SecretKeyRef option"

record WifiAP =
  ap_enable :: "bool option"
  ap_rangeExtender :: "bool option"

record WifiRoam =
  roam_rssiThreshold :: "int32 option"
  roam_interval :: "int32 option"

record WifiSection =
  wifi_sta :: "WifiNetwork option"
  wifi_sta1 :: "WifiNetwork option"
  wifi_ap :: "WifiAP option"
  wifi_roam :: "WifiRoam option"

record NightMode =
  nm_enable :: "bool option"
  nm_brightness :: "int32 option"
  nm_activeBetween :: "string list"

record UISection =
  ui_ledMode :: "string option"
  ui_nightMode :: "NightMode option"
  ui_buttonInMode :: "string option"

text \<open>\<open>Params\<close> is \<open>*apiextensionsv1.JSON\<close>: raw JSON, here its decoded value.\<close>

record ScheduleCallSpec =
  cs_method :: string
  cs_params :: "json option"

record ScheduleJobSpec =
  js_enable :: "bool option"
  js_timespec :: string
  js_calls :: "ScheduleCallSpec list"

record ScheduleSection =
  ss_jobs :: "ScheduleJobSpec list"

record FirmwareSection =
  fw_autoUpdate :: "bool option"

record ProfileConfig =
  pc_system :: "SystemSection option"
  pc_name :: "NameSection option"
  pc_mqtt :: "MQTTSection option"
  pc_cloud :: "CloudSection option"
  pc_ble :: "BLESection option"
  pc_ws :: "WSSection option"
  pc_auth :: "AuthSection option"
  pc_switch :: "SwitchSection option"
  pc_wifi :: "WifiSection option"
  pc_firmware :: "FirmwareSection option"
  pc_schedules :: "ScheduleSection option"
  pc_ui :: "UISection option"

abbreviation ModeObserve :: string where "ModeObserve \<equiv> ''observe''"
abbreviation ModeEnforce :: string where "ModeEnforce \<equiv> ''enforce''"

record ShellyProfileSpec =
  ps_selector :: "LabelSelector option"
  ps_priority :: int32
  ps_mode :: string
  ps_config :: ProfileConfig
  ps_rebootWhenRequired :: bool
  ps_rebootWindow :: "RebootWindow option"
  ps_updateWhenAvailable :: bool
  ps_updateWindow :: "RebootWindow option"

record ShellyProfile =
  p_meta :: ObjectMeta
  p_spec :: ShellyProfileSpec

definition emptyConfig :: ProfileConfig where
  "emptyConfig = \<lparr>pc_system = None, pc_name = None, pc_mqtt = None, pc_cloud = None,
     pc_ble = None, pc_ws = None, pc_auth = None, pc_switch = None, pc_wifi = None,
     pc_firmware = None, pc_schedules = None, pc_ui = None\<rparr>"

section \<open>ShellyDevice\<close>

record ShellyDeviceSpec =
  ds_paused :: bool
  ds_displayName :: string
  ds_profileRef :: string

record FirmwareUpdateAttempt =
  fa_time :: time
  fa_from :: string
  fa_target :: string
  fa_error :: string
  fa_refused :: bool

record ShellyDeviceStatus =
  st_address :: string
  st_mac :: string
  st_model :: string
  st_app :: string
  st_gen :: int32
  st_firmware :: string
  st_availableFirmware :: string
  st_authEnabled :: bool
  st_restartRequired :: bool
  st_lastFirmwareUpdate :: "FirmwareUpdateAttempt option"
  st_deviceName :: string
  st_online :: bool
  st_lastSeen :: "time option"
  st_matchedProfile :: string
  st_driftedSections :: "string list"
  st_conditions :: "Condition list"

record ShellyDevice =
  d_meta :: ObjectMeta
  d_spec :: ShellyDeviceSpec
  d_status :: ShellyDeviceStatus

text \<open>
  The pieces of the Kubernetes libraries that the code calls as pure functions. Their code
  is not part of the repository, so they are parameters; what the operator relies on is
  stated as a hypothesis where a theorem needs it.
\<close>

record k8slib =
  labelSelectorAsSelector :: "LabelSelector \<Rightarrow> go_error + (string gomap \<Rightarrow> bool)"
  findStatusCondition :: "Condition list \<Rightarrow> string \<Rightarrow> Condition option"
  setStatusCondition :: "Condition list \<Rightarrow> Condition \<Rightarrow> Condition list"
  isQualifiedName :: "string \<Rightarrow> bool"

text \<open>
  What \<open>meta.SetStatusCondition\<close> and \<open>meta.FindStatusCondition\<close> document: the condition of
  the given type is set (its transition time is not modelled), the others are left alone.
\<close>

definition condition_laws :: "k8slib \<Rightarrow> bool" where
  "condition_laws K \<longleftrightarrow>
     (\<forall>cs c. findStatusCondition K (setStatusCondition K cs c) (c_type c) = Some c) \<and>
     (\<forall>cs c t. t \<noteq> c_type c \<longrightarrow>
        findStatusCondition K (setStatusCondition K cs c) t = findStatusCondition K cs t)"

section \<open>Names and labels of device objects\<close>

abbreviation LabelModel :: string where "LabelModel \<equiv> ''shelly.thirdimpact.io/model''"
abbreviation LabelApp :: string where "LabelApp \<equiv> ''shelly.thirdimpact.io/app''"
abbreviation LabelGen :: string where "LabelGen \<equiv> ''shelly.thirdimpact.io/gen''"
abbreviation LabelRoom :: string where "LabelRoom \<equiv> ''shelly.thirdimpact.io/room''"
abbreviation LabelAppliance :: string where "LabelAppliance \<equiv> ''shelly.thirdimpact.io/appliance''"
abbreviation AnnotationNote :: string where "AnnotationNote \<equiv> ''shelly.thirdimpact.io/note''"
abbreviation LabelRegistryPrefix :: string where "LabelRegistryPrefix \<equiv> ''registry.shelly.thirdimpact.io/''"

definition DeviceObjectName :: "string \<Rightarrow> string" where
  "DeviceObjectName mac = toLower (filter (\<lambda>c. c \<noteq> CHR '':'' \<and> c \<noteq> CHR ''-'') mac)"

definition isAlnumAny :: "nat \<Rightarrow> bool" where
  "isAlnumAny r \<longleftrightarrow> (65 \<le> r \<and> r \<le> 90) \<or> (97 \<le> r \<and> r \<le> 122) \<or> (48 \<le> r \<and> r \<le> 57)"

text \<open>\<open>strings.TrimFunc\<close> on text whose runes are all ASCII.\<close>

definition trimFunc :: "(nat \<Rightarrow> bool) \<Rightarrow> string \<Rightarrow> string" where
  "trimFunc p s = rev (dropWhile (\<lambda>c. p (byte c)) (rev (dropWhile (\<lambda>c. p (byte c)) s)))"

definition sanitizeLabelValue :: "string \<Rightarrow> string" where
  "sanitizeLabelValue s =
     (let v = map (\<lambda>r. if isAlnumAny r \<or> r = 46 \<or> r = 95 \<or> r = 45 then char_of r else CHR ''_'')
                (goRunes s);
          v = (if length v > 63 then take 63 v else v)
      in trimFunc (\<lambda>r. \<not> isAlnumAny r) v)"

definition DeviceLabels :: "string \<Rightarrow> string \<Rightarrow> int32 \<Rightarrow> string gomap" where
  "DeviceLabels model app gen =
     [(LabelModel, sanitizeLabelValue model), (LabelApp, sanitizeLabelValue app),
      (LabelGen, itoa (sint gen))]"

section \<open>Concrete objects for the witnesses\<close>

text \<open>
  Simple functions and objects at which the theorems with hypotheses are instantiated. They
  model no code of the repository.
\<close>

definition exampleLib :: golib where
  "exampleLib = \<lparr>parseFloat = (\<lambda>s. None), fmtFloat = (\<lambda>f. ''0''), jsonFloat = (\<lambda>f. ''0''),
     loadLocation = (\<lambda>z. if z = ''UTC'' then Some (\<lambda>t. 0) else None), sha256hex = (\<lambda>s. s)\<rparr>"

definition exampleK8s :: k8slib where
  "exampleK8s = \<lparr>
     labelSelectorAsSelector = (\<lambda>sel. Inr (\<lambda>labels.
        list_all (\<lambda>(k, v). map_of labels k = Some v) (ls_matchLabels sel))),
     findStatusCondition = (\<lambda>cs t. find (\<lambda>c. c_type c = t) cs),
     setStatusCondition = (\<lambda>cs c. c # filter (\<lambda>d. c_type d \<noteq> c_type c) cs),
     isQualifiedName = (\<lambda>s. s \<noteq> [])\<rparr>"

lemma find_filter_other:
  "(\<And>x. P x \<Longrightarrow> Q x) \<Longrightarrow> find P (filter Q xs) = find P xs"
  by (induction xs) auto

lemma condition_laws_example: "condition_laws exampleK8s"
  by (auto simp: condition_laws_def exampleK8s_def find_filter_other)

definition exampleMeta :: "string \<Rightarrow> ObjectMeta" where
  "exampleMeta n = \<lparr>m_name = n, m_namespace = ''home'', m_generation = 1, m_labels = [],
     m_annotations = []\<rparr>"

definition exampleStatus :: ShellyDeviceStatus where
  "exampleStatus = \<lparr>st_address = ''10.0.0.9'', st_mac = ''AABB'', st_model = ''M'', st_app = ''A'',
     st_gen = 2, st_firmware = ''1.0'', st_availableFirmware = [], st_authEnabled = False,
     st_restartRequired = False, st_lastFirmwareUpdate = None, st_deviceName = [],
     st_online = True, st_lastSeen = None, st_matchedProfile = [], st_driftedSections = [],
     st_conditions = []\<rparr>"

definition exampleDevice :: ShellyDevice where
  "exampleDevice = \<lparr>d_meta = exampleMeta ''aabb'',
     d_spec = \<lparr>ds_paused = False, ds_displayName = [], ds_profileRef = []\<rparr>,
     d_status = exampleStatus\<rparr>"

definition exampleProfile :: "string \<Rightarrow> int32 \<Rightarrow> ShellyProfile" where
  "exampleProfile n prio = \<lparr>p_meta = exampleMeta n,
     p_spec = \<lparr>ps_selector = Some \<lparr>ls_matchLabels = [], ls_matchExpressions = []\<rparr>,
       ps_priority = prio, ps_mode = ModeEnforce, ps_config = emptyConfig,
       ps_rebootWhenRequired = False, ps_rebootWindow = None,
       ps_updateWhenAvailable = False, ps_updateWindow = None\<rparr>\<rparr>"

lemmas example_defs = exampleLib_def exampleK8s_def exampleMeta_def exampleStatus_def
  exampleDevice_def exampleProfile_def emptyConfig_def

end
