(* ===== verification/Drift.thy ===== *)
theory Drift
  imports Api_Types
begin

text \<open>
  The pure logic of \<open>internal/drift\<close>: comparing a rendered configuration with the device's
  (\<open>diff.go\<close>), the order in which drifted sections are written (\<open>order.go\<close>) and the choice
  of the profile that governs a device (\<open>match.go\<close>).
\<close>

section \<open>diff.go\<close>

record Finding =
  f_section :: string
  f_path :: string
  f_want :: json
  f_have :: json

abbreviation maxSummarized :: nat where
  "maxSummarized \<equiv> 5"

definition leafEqual :: "json \<Rightarrow> json \<Rightarrow> bool" where
  "leafEqual w h =
     (case w of
        JNum fw \<Rightarrow> (case h of JNum fh \<Rightarrow> feq fw fh | _ \<Rightarrow> False)
      | _ \<Rightarrow> deepEqual w h)"

definition dotPath :: "string \<Rightarrow> string \<Rightarrow> string" where
  "dotPath pre k = (if pre \<noteq> [] then pre @ ''.'' @ k else k)"

function diffMap :: "string \<Rightarrow> string \<Rightarrow> jmap \<Rightarrow> jmap \<Rightarrow> Finding list" where
  "diffMap sec pre want have =
     concat (map (\<lambda>k.
       case map_of want k of
         None \<Rightarrow> []
       | Some (JObj wm) \<Rightarrow> diffMap sec (dotPath pre k) wm (asMap (map_of have k))
       | Some w \<Rightarrow>
           (if map_of have k = None \<or> \<not> leafEqual w (orNull (map_of have k))
            then [\<lparr>f_section = sec, f_path = dotPath pre k, f_want = w,
                   f_have = orNull (map_of have k)\<rparr>]
            else []))
       (sortedKeys want))"
  by pat_completeness auto

termination diffMap
proof (relation "measure (\<lambda>(s, p, want, h). size (JObj want))", goal_cases)
  case (2 sec pre want hv k v wm)
  then show ?case using map_of_size [of want k v] by simp
qed simp

declare diffMap.simps [simp del]

text \<open>\<open>desired[section]\<close>: a missing section is the nil map.\<close>

definition desiredSec :: "jmap gomap \<Rightarrow> string \<Rightarrow> jmap" where
  "desiredSec desired s = (case map_of desired s of None \<Rightarrow> [] | Some m \<Rightarrow> m)"

fun diffLoop :: "string list \<Rightarrow> jmap gomap \<Rightarrow> json gomap \<Rightarrow> Finding list \<Rightarrow> go_error + Finding list" where
  "diffLoop [] desired actual findings = Inr findings"
| "diffLoop (s # ss) desired actual findings =
     (let want = desiredSec desired s
      in if want = [] then diffLoop ss desired actual findings
         else case map_of actual s of
           None \<Rightarrow>
             diffLoop ss desired actual
               (findings @ [\<lparr>f_section = s, f_path = [], f_want = JStr ''section present'',
                              f_have = JNull\<rparr>])
         | Some raw \<Rightarrow>
             (case unmarshalMap raw of
                Inl e \<Rightarrow> Inl (ErrWrap (''drift: decode section '' @ s @ '': '') e)
              | Inr have \<Rightarrow>
                  diffLoop ss desired actual (findings @ diffMap s [] want have)))"

definition Diff :: "jmap gomap \<Rightarrow> json gomap \<Rightarrow> go_error + Finding list" where
  "Diff desired actual = diffLoop (sortedKeys desired) desired actual []"

definition Sections :: "Finding list \<Rightarrow> string list" where
  "Sections findings = sort (remdups (map f_section findings))"

fun summaryParts :: "golib \<Rightarrow> nat \<Rightarrow> nat \<Rightarrow> Finding list \<Rightarrow> string list" where
  "summaryParts G n i [] = []"
| "summaryParts G n i (f # fs) =
     (if i = maxSummarized then [''(+'' @ itoa (int n - int maxSummarized) @ '' more)'']
      else (let loc = (if f_path f \<noteq> [] then f_section f @ ''.'' @ f_path f else f_section f)
            in loc @ '': want '' @ fmtV G (f_want f) @ '', have '' @ fmtV G (f_have f))
           # summaryParts G n (Suc i) fs)"

definition Summarize :: "golib \<Rightarrow> Finding list \<Rightarrow> string" where
  "Summarize G findings = joinStrings (summaryParts G (length findings) 0 findings) ''; ''"

section \<open>order.go\<close>

definition rank :: "string \<Rightarrow> nat" where
  "rank s =
     (if s = ''sys'' then 0
      else if hasPrefix s ''switch:'' then 1
      else if hasSuffix s ''_ui'' then 1
      else if s = ''mqtt'' then 2
      else if s = ''cloud'' then 3
      else if s = ''ble'' then 3
      else if s = ''ws'' then 3
      else if s = ''firmware'' then 4
      else if s = ''schedule'' then 4
      else if s = ''auth'' then 100
      else if s = ''wifi'' then 200
      else 50)"

definition ApplyOrder :: "string list \<Rightarrow> string list" where
  "ApplyOrder sections = sort_key (\<lambda>s. (rank s, s)) sections"

section \<open>match.go\<close>

abbreviation profileName :: "ShellyProfile \<Rightarrow> string" where
  "profileName p \<equiv> m_name (p_meta p)"

fun matchLoop :: "k8slib \<Rightarrow> string gomap \<Rightarrow> ShellyProfile list \<Rightarrow> string list \<Rightarrow> ShellyProfile list
    \<Rightarrow> string list \<times> ShellyProfile list" where
  "matchLoop K labels [] warnings candidates = (warnings, candidates)"
| "matchLoop K labels (p # ps) warnings candidates =
     (case ps_selector (p_spec p) of
        None \<Rightarrow> matchLoop K labels ps warnings candidates
      | Some selector \<Rightarrow>
          (case labelSelectorAsSelector K selector of
             Inl err \<Rightarrow>
               matchLoop K labels ps
                 (warnings @ [''profile '' @ profileName p @ '': invalid selector: '' @ errText err])
                 candidates
           | Inr sel \<Rightarrow>
               if sel labels then matchLoop K labels ps warnings (candidates @ [p])
               else matchLoop K labels ps warnings candidates))"

definition candidateKey :: "ShellyProfile \<Rightarrow> int \<times> string" where
  "candidateKey p = (- sint (ps_priority (p_spec p)), profileName p)"

definition MatchProfile :: "k8slib \<Rightarrow> ShellyDevice \<Rightarrow> ShellyProfile list
    \<Rightarrow> ShellyProfile option \<times> string list" where
  "MatchProfile K dev profiles =
     (let ref = ds_profileRef (d_spec dev)
      in if ref \<noteq> [] then
           (case find (\<lambda>p. profileName p = ref) profiles of
              Some p \<Rightarrow> (Some p, [])
            | None \<Rightarrow> (None, [''profileRef '' @ quoted ref @ '' not found'']))
         else
           (let (warnings, candidates) = matchLoop K (m_labels (d_meta dev)) profiles [] []
            in case sort_key candidateKey candidates of
                 [] \<Rightarrow> (None, warnings)
               | p # _ \<Rightarrow> (Some p, warnings)))"

section \<open>What Diff reports\<close>

text \<open>
  The specification: a declared leaf is met when the device has a value at its path that
  equals it. \<open>dotsPath\<close> is the dotted form of a path below a prefix.
\<close>

definition leafMet :: "jmap \<Rightarrow> string list \<Rightarrow> json \<Rightarrow> bool" where
  "leafMet hv ks w \<longleftrightarrow> (case jget hv ks of None \<Rightarrow> False | Some h \<Rightarrow> leafEqual w h)"

definition dotsPath :: "string \<Rightarrow> string list \<Rightarrow> string" where
  "dotsPath pre ks = foldl dotPath pre ks"

lemma leafMet_single [simp]:
  "leafMet hv [k] w \<longleftrightarrow> map_of hv k \<noteq> None \<and> leafEqual w (orNull (map_of hv k))"
  by (auto simp: leafMet_def orNull_def split: option.splits)

lemma leafMet_Cons2 [simp]: "leafMet hv (k # k' # ks) w \<longleftrightarrow> leafMet (asMap (map_of hv k)) (k' # ks) w"
  by (simp add: leafMet_def)

lemma dotsPath_simps [simp]:
  "dotsPath pre [] = pre" "dotsPath pre (k # ks) = dotsPath (dotPath pre k) ks"
  by (simp_all add: dotsPath_def)

lemma mem_sortedKeys: "k \<in> set (sortedKeys m) \<longleftrightarrow> map_of m k \<noteq> None"
  by (simp add: map_of_eq_None_iff)

text \<open>Case analysis on what a map holds under a key, in the shape \<open>diffMap\<close> asks.\<close>

lemma key_cases:
  obtains (none) "map_of m k = None"
  | (obj) wm where "map_of m k = Some (JObj wm)"
  | (leaf) w where "map_of m k = Some w" "\<not> is_JObj w"
proof (cases "map_of m k")
  case (Some v)
  then show ?thesis using obj leaf by (cases v) auto
qed (rule none)

definition diffKey :: "string \<Rightarrow> string \<Rightarrow> jmap \<Rightarrow> jmap \<Rightarrow> string \<Rightarrow> Finding list" where
  "diffKey sec pre want hv k =
     (case map_of want k of
        None \<Rightarrow> []
      | Some w \<Rightarrow>
          if is_JObj w then diffMap sec (dotPath pre k) (asMap (Some w)) (asMap (map_of hv k))
          else if leafMet hv [k] w then []
          else [\<lparr>f_section = sec, f_path = dotPath pre k, f_want = w,
                 f_have = orNull (map_of hv k)\<rparr>])"

lemma diffMap_keys: "diffMap sec pre want hv = concat (map (diffKey sec pre want hv) (sortedKeys want))"
  by (subst diffMap.simps)
    (auto simp: diffKey_def split: option.splits json.splits intro!: arg_cong [where f = concat])

lemma diffMap_mem:
  "f \<in> set (diffMap sec pre want hv) \<longleftrightarrow>
     (\<exists>ks w. leafAt want ks w \<and> \<not> leafMet hv ks w \<and>
        f = \<lparr>f_section = sec, f_path = dotsPath pre ks, f_want = w, f_have = orNull (jget hv ks)\<rparr>)"
proof (induction sec pre want hv rule: diffMap.induct)
  case (1 sec pre want hv)
  let ?F = "\<lambda>p hv ks w. \<lparr>f_section = sec, f_path = dotsPath p ks, f_want = w,
      f_have = orNull (jget hv ks)\<rparr>"
  have key: "f \<in> set (diffKey sec pre want hv k) \<longleftrightarrow>
      (\<exists>ks w. leafAt want (k # ks) w \<and> \<not> leafMet hv (k # ks) w \<and> f = ?F pre hv (k # ks) w)"
    for k
  proof (cases rule: key_cases [of want k])
    case none
    then have "\<not> leafAt want (k # ks) w" for ks w by (cases ks) auto
    with none show ?thesis by (simp add: diffKey_def)
  next
    case (obj wm)
    have at: "leafAt want (k # ks) w \<longleftrightarrow> leafAt wm ks w" for ks w
      using obj by (cases ks) auto
    have met: "leafMet hv (k # ks) w \<longleftrightarrow> leafMet (asMap (map_of hv k)) ks w"
      and get: "jget hv (k # ks) = jget (asMap (map_of hv k)) ks" if "ks \<noteq> []" for ks w
      using that by (simp_all add: jget_Cons leafMet_def)
    have ne: "leafAt wm ks w \<Longrightarrow> ks \<noteq> []" for ks w by auto
    have "k \<in> set (sortedKeys want)" using obj by (simp add: mem_sortedKeys del: set_sortedKeys)
    note IH = "1.IH" [OF this obj refl]
    have "f \<in> set (diffKey sec pre want hv k) \<longleftrightarrow>
        (\<exists>ks w. leafAt wm ks w \<and> \<not> leafMet (asMap (map_of hv k)) ks w \<and>
          f = ?F (dotPath pre k) (asMap (map_of hv k)) ks w)"
      using obj IH by (simp add: diffKey_def)
    also have "\<dots> \<longleftrightarrow> (\<exists>ks w. leafAt want (k # ks) w \<and> \<not> leafMet hv (k # ks) w \<and>
          f = ?F pre hv (k # ks) w)"
      unfolding at by (intro ex_cong1 conj_cong refl) (simp_all add: ne met get)
    finally show ?thesis .
  next
    case (leaf w)
    then have "leafAt want (k # ks) v \<longleftrightarrow> ks = [] \<and> v = w" for ks v by (cases ks) auto
    with leaf show ?thesis by (auto simp: diffKey_def)
  qed
  have dom: "map_of want k \<noteq> None" if "leafAt want (k # ks) w" for k ks w
    using that by (cases "map_of want k"; cases ks) auto
  have "f \<in> set (diffMap sec pre want hv) \<longleftrightarrow>
      (\<exists>k. map_of want k \<noteq> None \<and> f \<in> set (diffKey sec pre want hv k))"
    by (auto simp: diffMap_keys map_of_eq_None_iff)
  also have "\<dots> \<longleftrightarrow> (\<exists>k ks w. leafAt want (k # ks) w \<and> \<not> leafMet hv (k # ks) w \<and>
      f = ?F pre hv (k # ks) w)"
    unfolding key using dom by blast
  also have "\<dots> \<longleftrightarrow> (\<exists>ks w. leafAt want ks w \<and> \<not> leafMet hv ks w \<and> f = ?F pre hv ks w)"
    by (metis leafAt_Nil neq_Nil_conv)
  finally show ?case .
qed

text \<open>Only the declared leaves are read.\<close>

lemma diffMap_cong:
  "(\<And>ks w. leafAt want ks w \<Longrightarrow> jget hv ks = jget hv' ks) \<Longrightarrow>
   diffMap sec pre want hv = diffMap sec pre want hv'"
proof (induction sec pre want hv arbitrary: hv' rule: diffMap.induct)
  case (1 sec pre want hv)
  have "diffKey sec pre want hv k = diffKey sec pre want hv' k" if "k \<in> set (sortedKeys want)" for k
  proof (cases rule: key_cases [of want k])
    case (obj wm)
    have "jget (asMap (map_of hv k)) ks = jget (asMap (map_of hv' k)) ks" if "leafAt wm ks w" for ks w
      using that obj "1.prems" [of "k # ks" w] by (cases ks) auto
    from "1.IH" [OF \<open>k \<in> _\<close> obj refl this] show ?thesis using obj by (simp add: diffKey_def)
  next
    case (leaf w)
    then have "map_of hv k = map_of hv' k" using "1.prems" [of "[k]" w] by simp
    then show ?thesis using leaf by (simp add: diffKey_def)
  qed (simp add: diffKey_def)
  then have "map (diffKey sec pre want hv) (sortedKeys want) = map (diffKey sec pre want hv') (sortedKeys want)"
    by (intro map_cong refl)
  then show ?case by (simp only: diffMap_keys)
qed

text \<open>What one section contributes, and when its device side can be decoded.\<close>

definition absentFinding :: "string \<Rightarrow> Finding" where
  "absentFinding s = \<lparr>f_section = s, f_path = [], f_want = JStr ''section present'', f_have = JNull\<rparr>"

definition secFindings :: "jmap gomap \<Rightarrow> json gomap \<Rightarrow> string \<Rightarrow> Finding list" where
  "secFindings desired actual s =
     (if desiredSec desired s = [] then []
      else case map_of actual s of
        None \<Rightarrow> [absentFinding s]
      | Some raw \<Rightarrow> diffMap s [] (desiredSec desired s) (asMap (Some raw)))"

definition secDecodes :: "jmap gomap \<Rightarrow> json gomap \<Rightarrow> string \<Rightarrow> bool" where
  "secDecodes desired actual s \<longleftrightarrow>
     desiredSec desired s = [] \<or>
     (case map_of actual s of None \<Rightarrow> True | Some raw \<Rightarrow> is_JObj raw \<or> raw = JNull)"

lemma unmarshalMap_Inr: "is_JObj raw \<or> raw = JNull \<Longrightarrow> unmarshalMap raw = Inr (asMap (Some raw))"
  by (auto simp: unmarshalMap_def split: json.splits)

lemma unmarshalMap_Inl: "\<not> (is_JObj raw \<or> raw = JNull) \<Longrightarrow> \<exists>e. unmarshalMap raw = Inl e"
  by (auto simp: unmarshalMap_def split: json.splits)

lemma diffLoop_decodes:
  "list_all (secDecodes desired actual) ss \<Longrightarrow>
   diffLoop ss desired actual fs = Inr (fs @ concat (map (secFindings desired actual) ss))"
proof (induction ss arbitrary: fs)
  case (Cons s ss)
  then have dec: "secDecodes desired actual s" and IH: "diffLoop ss desired actual gs =
      Inr (gs @ concat (map (secFindings desired actual) ss))" for gs by simp_all
  show ?case
    using dec
    by (cases "map_of actual s")
      (auto simp: secDecodes_def secFindings_def [of _ _ s] absentFinding_def [of s] IH
        unmarshalMap_Inr Let_def)
qed simp

lemma diffLoop_fails:
  "\<not> list_all (secDecodes desired actual) ss \<Longrightarrow> \<exists>e. diffLoop ss desired actual fs = Inl e"
proof (induction ss arbitrary: fs)
  case (Cons s ss)
  show ?case
  proof (cases "secDecodes desired actual s")
    case True
    then have "\<not> list_all (secDecodes desired actual) ss" using Cons.prems by simp
    note IH = Cons.IH [OF this]
    show ?thesis using True IH
      by (cases "map_of actual s")
        (auto simp: secDecodes_def unmarshalMap_Inr Let_def)
  next
    case False
    then obtain raw where raw: "map_of actual s = Some raw" "desiredSec desired s \<noteq> []"
        "\<not> (is_JObj raw \<or> raw = JNull)"
      by (auto simp: secDecodes_def split: option.splits)
    obtain e where "unmarshalMap raw = Inl e" using unmarshalMap_Inl [OF raw(3)] by blast
    with raw(1,2) show ?thesis by (auto simp: Let_def)
  qed
qed simp

lemma Diff_eq:
  "Diff desired actual = Inr fs \<longleftrightarrow>
     list_all (secDecodes desired actual) (sortedKeys desired) \<and>
     fs = concat (map (secFindings desired actual) (sortedKeys desired))"
proof (cases "list_all (secDecodes desired actual) (sortedKeys desired)")
  case True
  then show ?thesis by (auto simp: Diff_def diffLoop_decodes)
next
  case False
  then show ?thesis using diffLoop_fails [OF False, of "[]"] by (auto simp: Diff_def)
qed

lemma desiredSec_nonempty: "desiredSec desired s \<noteq> [] \<Longrightarrow> map_of desired s = Some (desiredSec desired s)"
  by (auto simp: desiredSec_def split: option.splits)

text \<open>
  C4: \<open>Diff\<close> reports exactly the declared leaves the device does not meet, each with its
  section, its dotted path, the wanted and the found value, plus one finding for every
  declared section that the device lacks; nothing the profile does not declare is drift.
\<close>

theorem Diff_exact:
  assumes "Diff desired actual = Inr findings"
  shows "f \<in> set findings \<longleftrightarrow>
    (\<exists>s want. map_of desired s = Some want \<and> want \<noteq> [] \<and>
       (case map_of actual s of
          None \<Rightarrow> f = \<lparr>f_section = s, f_path = [], f_want = JStr ''section present'', f_have = JNull\<rparr>
        | Some raw \<Rightarrow>
            (\<exists>ks w. leafAt want ks w \<and> \<not> leafMet (asMap (Some raw)) ks w \<and>
               f = \<lparr>f_section = s, f_path = dotsPath [] ks, f_want = w,
                    f_have = orNull (jget (asMap (Some raw)) ks)\<rparr>)))"
    (is "_ \<longleftrightarrow> (\<exists>s want. ?R s want)")
proof -
  have "f \<in> set (secFindings desired actual s) \<longleftrightarrow> (\<exists>want. ?R s want)" for s
    by (auto simp: secFindings_def absentFinding_def desiredSec_def diffMap_mem split: option.splits)
  moreover have "\<exists>want. ?R s want \<Longrightarrow> s \<in> set (sortedKeys desired)" for s
    by (auto simp: mem_sortedKeys simp del: set_sortedKeys)
  ultimately show ?thesis
    using assms by (auto simp: Diff_eq simp del: set_sortedKeys)
qed

theorem Diff_exact_witness:
  "Diff [(''cloud'', [(''enable'', JBool False)])] [(''cloud'', JObj [(''enable'', JBool True)])] =
     Inr [\<lparr>f_section = ''cloud'', f_path = ''enable'', f_want = JBool False, f_have = JBool True\<rparr>] \<and>
   (\<exists>s want. map_of [(''cloud'', [(''enable'', JBool False)])] s = Some want \<and> want \<noteq> [])"
proof -
  let ?d = "[(''cloud'', [(''enable'', JBool False)])]"
  let ?a = "[(''cloud'', JObj [(''enable'', JBool True)])]"
  let ?f = "\<lparr>f_section = ''cloud'', f_path = ''enable'', f_want = JBool False, f_have = JBool True\<rparr>"
  have d: "Diff ?d ?a = Inr [?f]"
    by (simp add: Diff_def sortedKeys_def desiredSec_def unmarshalMap_def diffMap.simps dotPath_def
        leafEqual_def orNull_def)
  show ?thesis using d Diff_exact [OF d, of ?f] by auto
qed

lemma secFindings_Nil:
  "secFindings desired actual s = [] \<longleftrightarrow>
     (desiredSec desired s \<noteq> [] \<longrightarrow>
       (\<exists>raw. map_of actual s = Some raw \<and>
          (\<forall>ks w. leafAt (desiredSec desired s) ks w \<longrightarrow> leafMet (asMap (Some raw)) ks w)))"
proof -
  have "diffMap s [] want hv = [] \<longleftrightarrow> (\<forall>ks w. leafAt want ks w \<longrightarrow> leafMet hv ks w)" for want hv
    using diffMap_mem [of _ s "[]" want hv] by (metis (no_types, lifting) ex_in_conv set_empty)
  then show ?thesis by (auto simp: secFindings_def split: option.splits)
qed

text \<open>
  \<open>Diff\<close> answers "in sync" (no error, no finding) exactly when every declared section is
  an object or null on the device and every declared leaf in it is met.
\<close>

theorem Diff_in_sync_iff:
  "Diff desired actual = Inr [] \<longleftrightarrow>
     (\<forall>s want. map_of desired s = Some want \<and> want \<noteq> [] \<longrightarrow>
        (\<exists>raw. map_of actual s = Some raw \<and> (is_JObj raw \<or> raw = JNull) \<and>
           (\<forall>ks w. leafAt want ks w \<longrightarrow> leafMet (asMap (Some raw)) ks w)))"
proof -
  have dom: "(\<forall>s \<in> set (sortedKeys desired). P s) \<longleftrightarrow> (\<forall>s. map_of desired s \<noteq> None \<longrightarrow> P s)" for P
    by (auto simp: mem_sortedKeys simp del: set_sortedKeys)
  have "Diff desired actual = Inr [] \<longleftrightarrow>
      (\<forall>s \<in> set (sortedKeys desired). secDecodes desired actual s \<and> secFindings desired actual s = [])"
    by (auto simp: Diff_eq list_all_iff eq_commute [of "[]"] simp del: set_sortedKeys)
  also have "\<dots> \<longleftrightarrow> (\<forall>s want. map_of desired s = Some want \<and> want \<noteq> [] \<longrightarrow>
        (\<exists>raw. map_of actual s = Some raw \<and> (is_JObj raw \<or> raw = JNull) \<and>
           (\<forall>ks w. leafAt want ks w \<longrightarrow> leafMet (asMap (Some raw)) ks w)))"
    unfolding dom secFindings_Nil
    by (intro all_cong1) (auto simp: secDecodes_def desiredSec_def split: option.splits)
  finally show ?thesis .
qed

theorem Diff_in_sync_iff_witness:
  "\<not> leafMet [(''eco_mode'', JBool False)] [''eco_mode''] (JBool True) \<and>
   Diff [(''sys'', [(''eco_mode'', JBool True)])] [(''sys'', JObj [(''eco_mode'', JBool False)])] \<noteq> Inr []"
proof -
  have leaf: "leafAt [(''eco_mode'', JBool True)] [''eco_mode''] (JBool True)" by simp
  have "\<not> leafMet [(''eco_mode'', JBool False)] [''eco_mode''] (JBool True)"
    by (simp add: leafEqual_def orNull_def)
  then show ?thesis
    using Diff_in_sync_iff [of "[(''sys'', [(''eco_mode'', JBool True)])]"
        "[(''sys'', JObj [(''eco_mode'', JBool False)])]"] leaf
    by (auto simp del: leafMet_single leafAt_single)
qed

text \<open>
  The device side as far as \<open>Diff\<close> looks: the same declared sections are present and
  decodable, and they hold the same values at the declared leaves.
\<close>

definition sameDeclared :: "jmap gomap \<Rightarrow> json gomap \<Rightarrow> json gomap \<Rightarrow> bool" where
  "sameDeclared desired actual actual' \<longleftrightarrow>
     (\<forall>s want. map_of desired s = Some want \<and> want \<noteq> [] \<longrightarrow>
        (case (map_of actual s, map_of actual' s) of
           (None, None) \<Rightarrow> True
         | (Some raw, Some raw') \<Rightarrow>
             is_JObj raw \<and> is_JObj raw' \<and>
             (\<forall>ks w. leafAt want ks w \<longrightarrow> jget (asMap (Some raw)) ks = jget (asMap (Some raw')) ks)
         | _ \<Rightarrow> False))"

text \<open>
  One Go map, listed in two orders: the same keys without repetition and, under each key, the
  same leaf or again one map listed in two orders, down to any depth.
\<close>

inductive reordered :: "jmap \<Rightarrow> jmap \<Rightarrow> bool" where
  "wfmap m \<Longrightarrow> wfmap n \<Longrightarrow> dom (map_of m) = dom (map_of n) \<Longrightarrow>
   (\<And>k v. map_of m k = Some v \<Longrightarrow> \<not> is_JObj v \<Longrightarrow> map_of n k = Some v) \<Longrightarrow>
   (\<And>k a. map_of m k = Some (JObj a) \<Longrightarrow> \<exists>b. map_of n k = Some (JObj b) \<and> reordered a b) \<Longrightarrow>
   reordered m n"

inductive_cases reorderedE: "reordered m n"

lemma reordered_empty: "reordered m n \<Longrightarrow> m = [] \<longleftrightarrow> n = []"
  by (elim reorderedE) (metis dom_map_of_conv_image_fst image_is_empty set_empty)

lemma diffMap_reordered:
  assumes "reordered want want'"
  shows "diffMap sec pre want hv = diffMap sec pre want' hv"
  using assms
proof (induction want want' arbitrary: pre hv rule: reordered.induct)
  case (1 m n)
  have "diffKey sec pre m hv k = diffKey sec pre n hv k" for k
  proof (cases rule: key_cases [of m k])
    case none
    then have "map_of n k = None" using 1(3) by (metis domIff)
    with none show ?thesis by (simp add: diffKey_def)
  next
    case (obj a)
    then show ?thesis using 1(5) [OF obj] by (auto simp: diffKey_def)
  next
    case (leaf v)
    then show ?thesis using 1(4) [OF leaf] by (simp add: diffKey_def)
  qed
  then have "diffKey sec pre m hv = diffKey sec pre n hv" ..
  then show ?case using sortedKeys_dom [OF 1(1-3)] by (simp add: diffMap_keys)
qed

text \<open>
  C36: The result of \<open>Diff\<close>, findings and their order included, depends neither on the order
  in which Go happens to visit the maps, those of the sections and the ones nested in them, nor
  on device configuration the profile does not declare: listing the declared maps in another
  order at any depth, and giving a device configuration that agrees on the declared leaves,
  gives the same list.
\<close>

theorem Diff_frame:
  assumes "wfmap desired" "wfmap desired'"
    and "\<And>s. rel_option reordered (map_of desired s) (map_of desired' s)"
    and "sameDeclared desired actual actual'"
    and "Diff desired actual = Inr findings"
  shows "Diff desired' actual' = Inr findings"
proof -
  have "map_of desired s = None \<longleftrightarrow> map_of desired' s = None" for s
    using assms(3) [of s] by (cases "map_of desired s"; cases "map_of desired' s") simp_all
  then have "dom (map_of desired) = dom (map_of desired')" by (intro set_eqI) (simp only: domIff)
  then have keys: "sortedKeys desired' = sortedKeys desired"
    using sortedKeys_dom assms(1,2) by metis
  have sec: "desiredSec desired' s = [] \<longleftrightarrow> desiredSec desired s = []"
      "diffMap s [] (desiredSec desired' s) hv = diffMap s [] (desiredSec desired s) hv" for s hv
    using assms(3) [of s]
    by (auto simp: desiredSec_def split: option.splits dest: reordered_empty intro: diffMap_reordered [symmetric])
  have pair: "case (map_of actual s, map_of actual' s) of
      (None, None) \<Rightarrow> True
    | (Some raw, Some raw') \<Rightarrow> is_JObj raw \<and> is_JObj raw' \<and>
        (\<forall>ks w. leafAt (desiredSec desired s) ks w \<longrightarrow>
           jget (asMap (Some raw)) ks = jget (asMap (Some raw')) ks)
    | _ \<Rightarrow> False" if "desiredSec desired s \<noteq> []" for s
    using assms(4) desiredSec_nonempty [OF that] that unfolding sameDeclared_def by blast
  have "secFindings desired' actual' = secFindings desired actual"
  proof
    fix s
    show "secFindings desired' actual' s = secFindings desired actual s"
      using pair [of s] by (auto simp: secFindings_def sec split: option.splits intro!: diffMap_cong) metis
  qed
  moreover have "secDecodes desired actual s \<Longrightarrow> secDecodes desired' actual' s" for s
    using pair [of s] by (auto simp: secDecodes_def sec split: option.splits)
  ultimately show ?thesis
    using assms(5) by (auto simp: Diff_eq keys list_all_iff)
qed

text \<open>A section with a nested map, both listed the other way round, and a device that reports more.\<close>

theorem Diff_frame_witness:
  "Diff [(''sys'', [(''ui'', JObj [(''b'', JBool True), (''a'', JBool True)]), (''debug'', JNull)])]
     [(''ble'', JNull), (''sys'', JObj [(''extra'', JNull), (''debug'', JNull), (''ui'', JObj [])])] =
     Inr [\<lparr>f_section = ''sys'', f_path = ''ui.a'', f_want = JBool True, f_have = JNull\<rparr>,
          \<lparr>f_section = ''sys'', f_path = ''ui.b'', f_want = JBool True, f_have = JNull\<rparr>]"
proof -
  let ?m = "[(''debug'', JNull), (''ui'', JObj [(''a'', JBool True), (''b'', JBool True)])]"
  let ?n = "[(''ui'', JObj [(''b'', JBool True), (''a'', JBool True)]), (''debug'', JNull)]"
  let ?a = "[(''sys'', JObj [(''debug'', JNull)])]"
  let ?a' = "[(''ble'', JNull), (''sys'', JObj [(''extra'', JNull), (''debug'', JNull), (''ui'', JObj [])])]"
  have d: "Diff [(''sys'', ?m)] ?a =
      Inr [\<lparr>f_section = ''sys'', f_path = ''ui.a'', f_want = JBool True, f_have = JNull\<rparr>,
           \<lparr>f_section = ''sys'', f_path = ''ui.b'', f_want = JBool True, f_have = JNull\<rparr>]"
    by code_simp
  have "reordered [(''a'', JBool True), (''b'', JBool True)] [(''b'', JBool True), (''a'', JBool True)]"
    by (rule reordered.intros) (auto split: if_splits)
  then have "reordered ?m ?n"
    by (intro reordered.intros) (auto split: if_splits)
  then have r: "rel_option reordered (map_of [(''sys'', ?m)] s) (map_of [(''sys'', ?n)] s)" for s by simp
  have "jget [(''debug'', JNull)] ks = jget [(''extra'', JNull), (''debug'', JNull), (''ui'', JObj [])] ks"
    if "leafAt ?m ks w" for ks w
    using that by (cases ks rule: remdups_adj.cases) (auto split: if_splits)
  then have "sameDeclared [(''sys'', ?m)] ?a ?a'" by (auto simp: sameDeclared_def)
  then show ?thesis by (intro Diff_frame [OF _ _ r _ d]) simp_all
qed

lemma set_Sections [simp]: "set (Sections fs) = f_section ` set fs"
  by (simp add: Sections_def)

lemma distinct_Sections [simp]: "distinct (Sections fs)"
  by (simp add: Sections_def)

lemma Sections_Nil [simp]: "Sections fs = [] \<longleftrightarrow> fs = []"
  using set_Sections [of fs] by (metis empty_iff image_is_empty list.set(1) set_empty)

section \<open>The write order\<close>

lemma rank_safe: "rank s \<le> 50 \<longleftrightarrow> s \<noteq> ''auth'' \<and> s \<noteq> ''wifi''"
  by (auto simp: rank_def hasPrefix_def hasSuffix_def)

lemma rank_auth: "rank s \<le> 100 \<and> \<not> rank s \<le> 50 \<longleftrightarrow> s = ''auth''"
  by (auto simp: rank_def hasPrefix_def hasSuffix_def)

lemma rank_wifi: "\<not> rank s \<le> 100 \<longleftrightarrow> s = ''wifi''"
  by (auto simp: rank_def hasPrefix_def hasSuffix_def)

lemma mset_ApplyOrder: "mset (ApplyOrder ss) = mset ss"
  by (simp add: ApplyOrder_def)

lemma set_ApplyOrder [simp]: "set (ApplyOrder ss) = set ss"
  by (simp add: ApplyOrder_def)

lemma distinct_ApplyOrder [simp]: "distinct (ApplyOrder ss) = distinct ss"
  by (simp add: ApplyOrder_def)

lemma ApplyOrder_sorted: "sorted_wrt (\<lambda>a b. rank a \<le> rank b) (ApplyOrder ss)"
proof -
  have "sorted_wrt (\<lambda>a b. (rank a, a) \<le> (rank b, b)) (ApplyOrder ss)"
    using sorted_sort_key [of "\<lambda>s. (rank s, s)" ss] by (simp add: ApplyOrder_def sorted_map)
  then show ?thesis by (rule sorted_wrt_mono_rel [rotated]) auto
qed

lemma filter_eq_distinct: "distinct xs \<Longrightarrow> filter (\<lambda>x. x = a) xs = (if a \<in> set xs then [a] else [])"
  by (induction xs) auto

text \<open>
  C32: \<open>ApplyOrder\<close> rearranges the drifted sections without losing or repeating one, orders
  them by rank, and puts the two that change how the device is reached at the end: \<open>auth\<close>
  after every other section and \<open>wifi\<close> dead last.
\<close>

theorem ApplyOrder_safest_first:
  assumes "distinct ss"
  shows "mset (ApplyOrder ss) = mset ss \<and>
    sorted_wrt (\<lambda>a b. rank a \<le> rank b) (ApplyOrder ss) \<and>
    (\<exists>safe. ApplyOrder ss =
       safe @ (if ''auth'' \<in> set ss then [''auth''] else []) @ (if ''wifi'' \<in> set ss then [''wifi''] else [])
       \<and> set safe = set ss - {''auth'', ''wifi''})"
proof -
  let ?xs = "ApplyOrder ss"
  have sorted: "sorted_wrt (\<lambda>a b. rank a \<le> rank b) ?xs" by (rule ApplyOrder_sorted)
  have 1: "?xs = filter (\<lambda>s. rank s \<le> 50) ?xs @ filter (\<lambda>s. \<not> rank s \<le> 50) ?xs"
    by (rule sorted_wrt_split [OF sorted]) simp
  have 2: "filter (\<lambda>s. \<not> rank s \<le> 50) ?xs =
      filter (\<lambda>s. rank s \<le> 100) (filter (\<lambda>s. \<not> rank s \<le> 50) ?xs) @
      filter (\<lambda>s. \<not> rank s \<le> 100) (filter (\<lambda>s. \<not> rank s \<le> 50) ?xs)"
    by (rule sorted_wrt_split [OF sorted_wrt_filter [OF sorted]]) simp
  have 3: "filter (\<lambda>s. rank s \<le> 100) (filter (\<lambda>s. \<not> rank s \<le> 50) ?xs) = filter (\<lambda>s. s = ''auth'') ?xs"
    by (simp only: filter_filter conj_commute [of "\<not> _"] rank_auth)
  have 4: "filter (\<lambda>s. \<not> rank s \<le> 100) (filter (\<lambda>s. \<not> rank s \<le> 50) ?xs) = filter (\<lambda>s. s = ''wifi'') ?xs"
    unfolding filter_filter rank_wifi by (intro filter_cong refl) (auto simp: rank_safe)
  have "filter (\<lambda>s. \<not> rank s \<le> 50) ?xs =
      (if ''auth'' \<in> set ss then [''auth''] else []) @ (if ''wifi'' \<in> set ss then [''wifi''] else [])"
    by (subst 2, unfold 3 4) (simp add: filter_eq_distinct assms)
  with 1 have "?xs = filter (\<lambda>s. rank s \<le> 50) ?xs @
      (if ''auth'' \<in> set ss then [''auth''] else []) @ (if ''wifi'' \<in> set ss then [''wifi''] else [])"
    by simp
  moreover have "set (filter (\<lambda>s. rank s \<le> 50) ?xs) = set ss - {''auth'', ''wifi''}"
    by (auto simp: rank_safe)
  ultimately show ?thesis using sorted mset_ApplyOrder by blast
qed

theorem ApplyOrder_safest_first_witness:
  "distinct [''wifi'', ''sys'', ''auth'', ''mqtt''] \<and>
   ApplyOrder [''wifi'', ''sys'', ''auth'', ''mqtt''] = [''sys'', ''mqtt'', ''auth'', ''wifi''] \<and>
   mset (ApplyOrder [''wifi'', ''sys'', ''auth'', ''mqtt'']) = mset [''wifi'', ''sys'', ''auth'', ''mqtt'']"
proof -
  have d: "distinct [''wifi'', ''sys'', ''auth'', ''mqtt'']" by simp
  show ?thesis using d ApplyOrder_safest_first [OF d]
    by (simp add: ApplyOrder_def rank_def hasPrefix_def hasSuffix_def)
qed

section \<open>The governing profile\<close>

text \<open>A profile competes for a device when its selector is valid and matches the device's labels.\<close>

definition eligible :: "k8slib \<Rightarrow> string gomap \<Rightarrow> ShellyProfile \<Rightarrow> bool" where
  "eligible K labels p \<longleftrightarrow>
     (case ps_selector (p_spec p) of
        None \<Rightarrow> False
      | Some selector \<Rightarrow>
          (case labelSelectorAsSelector K selector of Inl _ \<Rightarrow> False | Inr sel \<Rightarrow> sel labels))"

lemma matchLoop_candidates:
  "snd (matchLoop K labels ps ws cs) = cs @ filter (eligible K labels) ps"
  by (induction ps arbitrary: ws cs) (auto simp: eligible_def split: option.splits sum.splits)

abbreviation priority :: "ShellyProfile \<Rightarrow> int" where
  "priority p \<equiv> sint (ps_priority (p_spec p))"

lemma MatchProfile_selector:
  "ds_profileRef (d_spec dev) = [] \<Longrightarrow>
   fst (MatchProfile K dev ps) =
     (case sort_key candidateKey (filter (eligible K (m_labels (d_meta dev))) ps) of
        [] \<Rightarrow> None | p # _ \<Rightarrow> Some p)"
  using matchLoop_candidates [of K "m_labels (d_meta dev)" ps "[]" "[]"]
  by (auto simp: MatchProfile_def split: prod.splits list.splits)

lemma MatchProfile_pinned:
  "ds_profileRef (d_spec dev) \<noteq> [] \<Longrightarrow>
   fst (MatchProfile K dev ps) = find (\<lambda>p. profileName p = ds_profileRef (d_spec dev)) ps"
  by (simp add: MatchProfile_def Let_def split: option.splits)

lemma find_SomeD: "find P xs = Some x \<Longrightarrow> x \<in> set xs \<and> P x"
  by (auto simp: find_Some_iff)

lemma find_NoneD: "find P xs = None \<Longrightarrow> x \<in> set xs \<Longrightarrow> \<not> P x"
  by (auto simp: find_None_iff)

lemma MatchProfile_mem:
  assumes "MatchProfile K dev ps = (Some p, warns)"
  shows "p \<in> set ps"
proof (cases "ds_profileRef (d_spec dev) = []")
  case True
  let ?el = "filter (eligible K (m_labels (d_meta dev))) ps"
  have "p \<in> set (sort_key candidateKey ?el)"
    using MatchProfile_selector [OF True, of K ps] assms
    by (cases "sort_key candidateKey ?el") simp_all
  then show ?thesis by simp
next
  case False
  then show ?thesis using MatchProfile_pinned [OF False, of K ps] assms by (metis find_SomeD fst_conv)
qed

text \<open>
  C35: \<open>MatchProfile\<close> lets an explicit \<open>profileRef\<close> win outright; without one it returns a
  profile whose selector matches and that no other matching profile beats (higher priority,
  or equal priority and a smaller name), and no profile exactly when none matches.
\<close>

theorem MatchProfile_best:
  "case fst (MatchProfile K dev ps) of
     Some p \<Rightarrow>
       p \<in> set ps \<and>
       (if ds_profileRef (d_spec dev) \<noteq> [] then profileName p = ds_profileRef (d_spec dev)
        else eligible K (m_labels (d_meta dev)) p \<and>
          (\<forall>q \<in> set ps. eligible K (m_labels (d_meta dev)) q \<longrightarrow>
             priority q < priority p \<or> priority q = priority p \<and> profileName p \<le> profileName q))
   | None \<Rightarrow>
       \<forall>p \<in> set ps. if ds_profileRef (d_spec dev) \<noteq> [] then profileName p \<noteq> ds_profileRef (d_spec dev)
          else \<not> eligible K (m_labels (d_meta dev)) p"
proof (cases "ds_profileRef (d_spec dev) = []")
  case True
  let ?el = "filter (eligible K (m_labels (d_meta dev))) ps"
  show ?thesis
  proof (cases "sort_key candidateKey ?el")
    case Nil
    then have "?el = []" by (metis length_0_conv length_sort)
    then show ?thesis using True by (simp add: MatchProfile_selector filter_empty_conv)
  next
    case (Cons p qs)
    have "p \<in> set ?el" and
      "q \<in> set ?el \<Longrightarrow> candidateKey p \<le> candidateKey q" for q
      using hd_sort_key_le [OF Cons] Cons by (metis list.set_intros(1) set_sort)+
    then show ?thesis using True Cons
      by (fastforce simp: MatchProfile_selector candidateKey_def)
  qed
next
  case False
  then show ?thesis
    by (cases "find (\<lambda>p. profileName p = ds_profileRef (d_spec dev)) ps")
      (auto simp: MatchProfile_pinned dest: find_SomeD find_NoneD)
qed

theorem MatchProfile_best_witness:
  "\<exists>p. fst (MatchProfile exampleK8s exampleDevice [exampleProfile ''a'' 1, exampleProfile ''b'' 2]) = Some p \<and>
     priority (exampleProfile ''a'' 1) < priority p"
proof -
  let ?ps = "[exampleProfile ''a'' 1, exampleProfile ''b'' 2]"
  have "fst (MatchProfile exampleK8s exampleDevice ?ps) = Some (exampleProfile ''b'' 2)"
    by (simp add: MatchProfile_def example_defs candidateKey_def)
  then show ?thesis
    using MatchProfile_best [where K = exampleK8s and dev = exampleDevice and ps = ?ps]
    by (simp add: example_defs eligible_def)
qed

text \<open>
  Which profile governs a device does not depend on the order in which the API lists the
  profiles, given that object names are unique in a namespace.
\<close>

theorem MatchProfile_order_independent:
  assumes "set ps = set qs" "inj_on profileName (set ps)"
  shows "fst (MatchProfile K dev ps) = fst (MatchProfile K dev qs)"
proof (cases "ds_profileRef (d_spec dev) = []")
  case True
  let ?P = "eligible K (m_labels (d_meta dev))"
  have key: "inj_on candidateKey (set (filter ?P ps))"
    using assms(2) by (auto simp: inj_on_def candidateKey_def)
  have eq: "set (filter ?P ps) = set (filter ?P qs)" using assms(1) by auto
  show ?thesis
  proof (cases "sort_key candidateKey (filter ?P ps)")
    case Nil
    then have "sort_key candidateKey (filter ?P qs) = []" using eq by (metis set_empty set_sort)
    then show ?thesis using Nil True by (simp add: MatchProfile_selector)
  next
    case (Cons p ps')
    then obtain q qs' where q: "sort_key candidateKey (filter ?P qs) = q # qs'"
      using eq by (metis neq_Nil_conv set_empty set_sort)
    have "p = q" using hd_sort_key_unique [OF Cons q eq key] .
    then show ?thesis using Cons q True by (simp add: MatchProfile_selector)
  qed
next
  case False
  let ?Q = "\<lambda>p. profileName p = ds_profileRef (d_spec dev)"
  have "find ?Q ps = find ?Q qs"
  proof (cases "find ?Q ps")
    case None
    then have "find ?Q qs = None" using assms(1) by (simp add: find_None_iff)
    with None show ?thesis by simp
  next
    case (Some p)
    then have p: "p \<in> set ps" "?Q p" by (auto dest: find_SomeD)
    obtain q where q: "find ?Q qs = Some q"
      using p assms(1) by (cases "find ?Q qs") (auto simp: find_None_iff)
    then have "q \<in> set ps" "?Q q" using assms(1) by (auto dest: find_SomeD)
    then have "p = q" using p inj_onD [OF assms(2), of p q] by simp
    with Some q show ?thesis by simp
  qed
  then show ?thesis using False by (simp add: MatchProfile_pinned)
qed

theorem MatchProfile_order_independent_witness:
  "fst (MatchProfile exampleK8s exampleDevice [exampleProfile ''a'' 1, exampleProfile ''b'' 2]) =
   fst (MatchProfile exampleK8s exampleDevice [exampleProfile ''b'' 2, exampleProfile ''a'' 1]) \<and>
   fst (MatchProfile exampleK8s exampleDevice [exampleProfile ''a'' 1, exampleProfile ''b'' 2]) =
     Some (exampleProfile ''b'' 2)"
proof -
  let ?ps = "[exampleProfile ''a'' 1, exampleProfile ''b'' 2]"
  have "set ?ps = set [exampleProfile ''b'' 2, exampleProfile ''a'' 1]" by auto
  moreover have "inj_on profileName (set ?ps)" by (simp add: inj_on_def example_defs)
  moreover have "fst (MatchProfile exampleK8s exampleDevice ?ps) = Some (exampleProfile ''b'' 2)"
    by (simp add: MatchProfile_def example_defs candidateKey_def)
  ultimately show ?thesis using MatchProfile_order_independent by metis
qed

end
