(* ===== verification/Render.thy ===== *)
theory Render
  imports Drift
begin

text \<open>
  \<open>internal/drift/desired.go\<close>: the rendering of a profile's declared configuration onto the
  device's component namespace. Absent pointers and empty strings are unmanaged and emit
  nothing; each builder returns the map it would have filled.
\<close>

definition optEntry :: "string \<Rightarrow> ('a \<Rightarrow> json) \<Rightarrow> 'a option \<Rightarrow> jmap" where
  "optEntry k f x = (case x of None \<Rightarrow> [] | Some v \<Rightarrow> [(k, f v)])"

definition strEntry :: "string \<Rightarrow> string \<Rightarrow> jmap" where
  "strEntry k s = (if s \<noteq> [] then [(k, JStr s)] else [])"

definition objEntry :: "string \<Rightarrow> jmap \<Rightarrow> jmap" where
  "objEntry k m = (if m \<noteq> [] then [(k, JObj m)] else [])"

definition jInt32 :: "int32 \<Rightarrow> json" where
  "jInt32 i = JNum (floatOfInt32 i)"

section \<open>System and name\<close>

definition renderSysLocation :: "golib \<Rightarrow> SystemSection \<Rightarrow> jmap" where
  "renderSysLocation G sys =
     optEntry ''tz'' JStr (sys_timezone sys)
     @ optEntry ''lat'' JNum (Option.bind (sys_latitude sys) (parseFloat G))
     @ optEntry ''lon'' JNum (Option.bind (sys_longitude sys) (parseFloat G))"

definition renderSysDevice :: "SystemSection option \<Rightarrow> NameSection option \<Rightarrow> string \<Rightarrow> jmap" where
  "renderSysDevice sys name desiredName =
     optEntry ''eco_mode'' JBool (Option.bind sys sys_ecoMode)
     @ optEntry ''discoverable'' JBool (Option.bind sys sys_discoverable)
     @ (case name of
          None \<Rightarrow> []
        | Some n \<Rightarrow> if name_managed n then strEntry ''name'' desiredName else [])"

definition renderSys :: "golib \<Rightarrow> SystemSection option \<Rightarrow> NameSection option \<Rightarrow> string \<Rightarrow> jmap" where
  "renderSys G sys name desiredName =
     objEntry ''device'' (renderSysDevice sys name desiredName)
     @ (case sys of
          None \<Rightarrow> []
        | Some s \<Rightarrow>
            objEntry ''location'' (renderSysLocation G s)
            @ optEntry ''sntp'' (\<lambda>srv. JObj [(''server'', JStr srv)]) (sys_sntpServer s)
            @ optEntry ''debug'' (\<lambda>l. JObj [(''level'', jInt32 l)]) (sys_debugLevel s))"

section \<open>MQTT and wifi\<close>

definition renderMQTT :: "MQTTSection option \<Rightarrow> jmap" where
  "renderMQTT mqtt =
     (case mqtt of
        None \<Rightarrow> []
      | Some m \<Rightarrow> optEntry ''enable'' JBool (mqtt_enable m) @ strEntry ''server'' (mqtt_server m))"

definition renderWifiNetwork :: "WifiNetwork option \<Rightarrow> jmap" where
  "renderWifiNetwork n =
     (case n of
        None \<Rightarrow> []
      | Some w \<Rightarrow> optEntry ''enable'' JBool (wn_enable w) @ strEntry ''ssid'' (wn_ssid w))"

definition renderWifiAP :: "WifiAP option \<Rightarrow> jmap" where
  "renderWifiAP ap =
     (case ap of
        None \<Rightarrow> []
      | Some a \<Rightarrow>
          optEntry ''enable'' JBool (ap_enable a)
          @ optEntry ''range_extender'' (\<lambda>b. JObj [(''enable'', JBool b)]) (ap_rangeExtender a))"

definition renderWifiRoam :: "WifiRoam option \<Rightarrow> jmap" where
  "renderWifiRoam roam =
     (case roam of
        None \<Rightarrow> []
      | Some r \<Rightarrow>
          optEntry ''rssi_thr'' jInt32 (roam_rssiThreshold r)
          @ optEntry ''interval'' jInt32 (roam_interval r))"

definition renderWifi :: "WifiSection option \<Rightarrow> jmap" where
  "renderWifi wifi =
     (case wifi of
        None \<Rightarrow> []
      | Some w \<Rightarrow>
          objEntry ''sta'' (renderWifiNetwork (wifi_sta w))
          @ objEntry ''sta1'' (renderWifiNetwork (wifi_sta1 w))
          @ objEntry ''ap'' (renderWifiAP (wifi_ap w))
          @ objEntry ''roam'' (renderWifiRoam (wifi_roam w)))"

section \<open>Switch components\<close>

definition switchMap :: "SwitchSection \<Rightarrow> jmap" where
  "switchMap sw =
     optEntry ''initial_state'' JStr (sw_initialState sw)
     @ optEntry ''auto_on'' JBool (sw_autoOn sw)
     @ optEntry ''auto_on_delay'' jInt32 (sw_autoOnDelay sw)
     @ optEntry ''auto_off'' JBool (sw_autoOff sw)
     @ optEntry ''auto_off_delay'' jInt32 (sw_autoOffDelay sw)
     @ optEntry ''power_limit'' jInt32 (sw_powerLimit sw)
     @ optEntry ''voltage_limit'' jInt32 (sw_voltageLimit sw)
     @ optEntry ''current_limit'' jInt32 (sw_currentLimit sw)
     @ optEntry ''autorecover_voltage_errors'' JBool (sw_autorecoverVoltageErrors sw)"

definition isSwitchKey :: "string \<Rightarrow> bool" where
  "isSwitchKey k \<longleftrightarrow> hasPrefix k ''switch:''"

definition renderSwitchComponents :: "SwitchSection option \<Rightarrow> json gomap \<Rightarrow> jmap gomap" where
  "renderSwitchComponents sw actual =
     (case sw of
        None \<Rightarrow> []
      | Some s \<Rightarrow>
          if switchMap s = [] then []
          else map (\<lambda>comp. (comp, switchMap s)) (filter isSwitchKey (map fst actual)))"

section \<open>Plug UI\<close>

text \<open>\<open>uiKeyRe\<close>, \<open>^[a-z0-9]+_ui$\<close>.\<close>

definition isUIKey :: "string \<Rightarrow> bool" where
  "isUIKey k \<longleftrightarrow>
     hasSuffix k ''_ui'' \<and> length k > 3 \<and>
     list_all (\<lambda>c. (97 \<le> byte c \<and> byte c \<le> 122) \<or> isDigitByte c) (take (length k - 3) k)"

text \<open>
  Go visits the map in an order of its own choice and takes the first key that matches; here that
  is the order of the list. A device has one such component, and with one the order is irrelevant.
\<close>

definition discoverUIKey :: "json gomap \<Rightarrow> string" where
  "discoverUIKey actual = (case find isUIKey (map fst actual) of None \<Rightarrow> [] | Some k \<Rightarrow> k)"

definition renderNightMode :: "NightMode \<Rightarrow> jmap" where
  "renderNightMode nm =
     optEntry ''enable'' JBool (nm_enable nm)
     @ optEntry ''brightness'' jInt32 (nm_brightness nm)
     @ (if nm_activeBetween nm \<noteq> [] then [(''active_between'', JArr (map JStr (nm_activeBetween nm)))]
        else [])"

definition renderUILeds :: "UISection \<Rightarrow> jmap" where
  "renderUILeds ui =
     optEntry ''mode'' JStr (ui_ledMode ui)
     @ (case ui_nightMode ui of None \<Rightarrow> [] | Some nm \<Rightarrow> objEntry ''night_mode'' (renderNightMode nm))"

definition uiControlSwitchKeys :: "json option \<Rightarrow> string list" where
  "uiControlSwitchKeys raw =
     (case raw of
        None \<Rightarrow> []
      | Some r \<Rightarrow>
          (case unmarshalMap r of
             Inl _ \<Rightarrow> []
           | Inr v \<Rightarrow> filter isSwitchKey (map fst (asMap (map_of v ''controls'')))))"

definition renderUIControls :: "string \<Rightarrow> json option \<Rightarrow> jmap" where
  "renderUIControls inMode raw =
     (let keys = uiControlSwitchKeys raw;
          keys = (if keys = [] then [''switch:0''] else keys)
      in map (\<lambda>k. (k, JObj [(''in_mode'', JStr inMode)])) keys)"

definition renderUI :: "UISection \<Rightarrow> json option \<Rightarrow> jmap" where
  "renderUI ui raw =
     objEntry ''leds'' (renderUILeds ui)
     @ (case ui_buttonInMode ui of
          None \<Rightarrow> []
        | Some inMode \<Rightarrow> objEntry ''controls'' (renderUIControls inMode raw))"

section \<open>Render\<close>

definition secEntry :: "string \<Rightarrow> jmap \<Rightarrow> jmap gomap" where
  "secEntry k m = (if m \<noteq> [] then [(k, m)] else [])"

definition enableEntry :: "bool option \<Rightarrow> jmap" where
  "enableEntry e = optEntry ''enable'' JBool e"

definition Render :: "golib \<Rightarrow> ProfileConfig \<Rightarrow> string \<Rightarrow> json gomap \<Rightarrow> jmap gomap" where
  "Render G cfg desiredName actual =
     secEntry ''sys'' (renderSys G (pc_system cfg) (pc_name cfg) desiredName)
     @ secEntry ''mqtt'' (renderMQTT (pc_mqtt cfg))
     @ secEntry ''cloud'' (enableEntry (Option.bind (pc_cloud cfg) cloud_enable))
     @ secEntry ''ble'' (enableEntry (Option.bind (pc_ble cfg) ble_enable))
     @ secEntry ''ws'' (enableEntry (Option.bind (pc_ws cfg) ws_enable))
     @ secEntry ''wifi'' (renderWifi (pc_wifi cfg))
     @ renderSwitchComponents (pc_switch cfg) actual
     @ (case pc_ui cfg of
          None \<Rightarrow> []
        | Some ui \<Rightarrow>
            (let uiKey = discoverUIKey actual
             in if uiKey = [] then [] else secEntry uiKey (renderUI ui (map_of actual uiKey))))"

section \<open>Shape of the rendered maps\<close>

lemmas render_defs = renderSysLocation_def renderSysDevice_def renderSys_def renderMQTT_def
  renderWifiNetwork_def renderWifiAP_def renderWifiRoam_def renderWifi_def switchMap_def
  renderSwitchComponents_def renderNightMode_def renderUILeds_def renderUIControls_def renderUI_def
  enableEntry_def

text \<open>A rendered map: distinct keys at every level and no NaN.\<close>

definition goodMap :: "jmap \<Rightarrow> bool" where
  "goodMap m \<longleftrightarrow> wfjm m \<and> nanFree (JObj m)"

lemma goodMap_Nil [simp]: "goodMap []"
  by (simp add: goodMap_def)

text \<open>Key membership, with a rule for every builder.\<close>

definition hasKey :: "string \<Rightarrow> 'v gomap \<Rightarrow> bool" where
  "hasKey k m \<longleftrightarrow> k \<in> fst ` set m"

definition disjKeys :: "'v gomap \<Rightarrow> 'v gomap \<Rightarrow> bool" where
  "disjKeys m n \<longleftrightarrow> (\<forall>k. hasKey k m \<longrightarrow> \<not> hasKey k n)"

lemma hasKey_basic [simp]:
  "\<not> hasKey k []" "hasKey k ((k', v) # m) \<longleftrightarrow> k = k' \<or> hasKey k m"
  "hasKey k (m @ n) \<longleftrightarrow> hasKey k m \<or> hasKey k n"
  by (auto simp: hasKey_def)

lemma hasKey_entries [simp]:
  "hasKey k (optEntry k' f x) \<longleftrightarrow> k = k' \<and> x \<noteq> None"
  "hasKey k (strEntry k' s) \<longleftrightarrow> k = k' \<and> s \<noteq> []"
  "hasKey k (objEntry k' m) \<longleftrightarrow> k = k' \<and> m \<noteq> []"
  by (auto simp: optEntry_def strEntry_def objEntry_def split: option.splits)

lemma hasKey_case [simp]:
  "hasKey k (case x of None \<Rightarrow> [] | Some v \<Rightarrow> m v) \<longleftrightarrow> (\<exists>v. x = Some v \<and> hasKey k (m v))"
  "hasKey k (if b then m' else []) \<longleftrightarrow> b \<and> hasKey k m'"
  by (auto split: option.splits)

lemma goodMap_Cons: "goodMap ((k, v) # m) \<longleftrightarrow> \<not> hasKey k m \<and> wfj v \<and> nanFree v \<and> goodMap m"
  by (auto simp: goodMap_def hasKey_def)

lemma goodMap_append: "goodMap (m @ n) \<longleftrightarrow> goodMap m \<and> goodMap n \<and> disjKeys m n"
proof (induction m)
  case (Cons p m)
  obtain k v where "p = (k, v)" by (cases p)
  then show ?case using Cons by (auto simp: goodMap_Cons disjKeys_def)
qed (simp add: disjKeys_def)

lemma goodMap_optEntry: "(\<And>v. x = Some v \<Longrightarrow> wfj (f v) \<and> nanFree (f v)) \<Longrightarrow> goodMap (optEntry k f x)"
  by (auto simp: optEntry_def goodMap_Cons split: option.splits)

lemma goodMap_strEntry [simp]: "goodMap (strEntry k s)"
  by (simp add: strEntry_def goodMap_Cons)

lemma goodMap_objEntry [simp]: "goodMap (objEntry k m) \<longleftrightarrow> goodMap m"
  by (auto simp: objEntry_def goodMap_def)

lemma disjKeys_entries:
  "\<not> hasKey k n \<Longrightarrow> disjKeys (optEntry k f x) n"
  "\<not> hasKey k n \<Longrightarrow> disjKeys (strEntry k s) n"
  "\<not> hasKey k n \<Longrightarrow> disjKeys (objEntry k m) n"
  by (auto simp: disjKeys_def)

lemma wfj_leaf [simp]: "wfj (jInt32 i)" "nanFree (jInt32 i)"
  by (simp_all add: jInt32_def floatOfInt32_def)

text \<open>Coordinates that do not parse to NaN, as the CRD pattern ensures.\<close>

definition locationSane :: "golib \<Rightarrow> ProfileConfig \<Rightarrow> bool" where
  "locationSane G cfg \<longleftrightarrow>
     (case pc_system cfg of
        None \<Rightarrow> True
      | Some s \<Rightarrow>
          Option.bind (sys_latitude s) (parseFloat G) \<noteq> Some NaN \<and>
          Option.bind (sys_longitude s) (parseFloat G) \<noteq> Some NaN)"

lemmas good_intros = conjI goodMap_optEntry disjKeys_entries

lemma goodMap_renderSysLocation:
  assumes "Option.bind (sys_latitude s) (parseFloat G) \<noteq> Some NaN"
    "Option.bind (sys_longitude s) (parseFloat G) \<noteq> Some NaN"
  shows "goodMap (renderSysLocation G s)"
  unfolding renderSysLocation_def goodMap_append
  using assms by (auto intro!: good_intros)

lemma goodMap_renderSysDevice: "goodMap (renderSysDevice sys name n)"
  unfolding renderSysDevice_def goodMap_append
  by (intro good_intros; simp split: option.split)

lemma goodMap_renderSys:
  assumes "locationSane G cfg"
  shows "goodMap (renderSys G (pc_system cfg) (pc_name cfg) n)"
proof (cases "pc_system cfg")
  case None
  then show ?thesis by (simp add: renderSys_def goodMap_renderSysDevice)
next
  case (Some s)
  then have "goodMap (renderSysLocation G s)"
    using assms by (auto simp: locationSane_def intro: goodMap_renderSysLocation)
  then show ?thesis
    unfolding Some renderSys_def option.case goodMap_append
    by (intro good_intros; simp add: goodMap_renderSysDevice goodMap_Cons)
qed

lemma goodMap_renderMQTT: "goodMap (renderMQTT m)"
  by (cases m) (auto simp: renderMQTT_def goodMap_append intro!: good_intros)

lemma goodMap_renderWifiNetwork: "goodMap (renderWifiNetwork n)"
  by (cases n) (auto simp: renderWifiNetwork_def goodMap_append intro!: good_intros)

lemma goodMap_renderWifiAP: "goodMap (renderWifiAP n)"
  by (cases n) (auto simp: renderWifiAP_def goodMap_append goodMap_Cons intro!: good_intros)

lemma goodMap_renderWifiRoam: "goodMap (renderWifiRoam n)"
  by (cases n) (auto simp: renderWifiRoam_def goodMap_append intro!: good_intros)

lemma goodMap_renderWifi: "goodMap (renderWifi w)"
  by (cases w) (auto simp: renderWifi_def goodMap_append goodMap_renderWifiNetwork
      goodMap_renderWifiAP goodMap_renderWifiRoam intro!: good_intros)

lemma goodMap_enable: "goodMap (enableEntry e)"
  by (auto simp: enableEntry_def intro!: goodMap_optEntry)

lemma goodMap_switchMap: "goodMap (switchMap s)"
  unfolding switchMap_def goodMap_append
  by (intro good_intros; simp)

lemma goodMap_renderUIControls:
  assumes "\<And>r. raw = Some r \<Longrightarrow> wfj r"
  shows "goodMap (renderUIControls inMode raw)"
proof -
  have "distinct (uiControlSwitchKeys raw)"
  proof (cases raw)
    case (Some r)
    then show ?thesis
    proof (cases r)
      case (JObj m)
      then have "wfmap (asMap (map_of m ''controls''))" using assms [OF Some] by (auto intro: wfjm_wfmap)
      then show ?thesis using Some JObj by (simp add: uiControlSwitchKeys_def unmarshalMap_def wfmap_def)
    qed (simp_all add: uiControlSwitchKeys_def unmarshalMap_def)
  qed (simp add: uiControlSwitchKeys_def)
  moreover have "goodMap (map (\<lambda>k. (k, JObj [(''in_mode'', JStr inMode)])) ks)" if "distinct ks" for ks
    using that by (induction ks) (auto simp: goodMap_Cons hasKey_def)
  ultimately show ?thesis by (simp add: renderUIControls_def Let_def)
qed

lemma goodMap_renderNightMode: "goodMap (renderNightMode nm)"
  unfolding renderNightMode_def goodMap_append
  by (intro good_intros; simp add: goodMap_Cons list_all_iff)

lemma goodMap_renderUILeds: "goodMap (renderUILeds ui)"
  unfolding renderUILeds_def goodMap_append
  by (intro good_intros; simp add: goodMap_renderNightMode split: option.split)

lemma goodMap_renderUI:
  assumes "\<And>r. raw = Some r \<Longrightarrow> wfj r"
  shows "goodMap (renderUI ui raw)"
  unfolding renderUI_def goodMap_append
  by (intro good_intros; simp add: goodMap_renderUILeds goodMap_renderUIControls assms
      split: option.split)

section \<open>Which sections are rendered\<close>

abbreviation fixedSections :: "string set" where
  "fixedSections \<equiv> {''sys'', ''mqtt'', ''cloud'', ''ble'', ''ws'', ''wifi''}"

lemma isUIKey_no_colon:
  assumes "isUIKey k"
  shows "CHR '':'' \<notin> set k"
proof -
  have "drop (length k - 3) k = ''_ui''"
    using assms by (simp add: isUIKey_def hasSuffix_def numeral_3_eq_3)
  then have "k = take (length k - 3) k @ ''_ui''" by (metis append_take_drop_id)
  then have "set k = set (take (length k - 3) k) \<union> set ''_ui''" by (metis set_append)
  moreover have "CHR '':'' \<notin> set (take (length k - 3) k)"
  proof
    assume "CHR '':'' \<in> set (take (length k - 3) k)"
    then have "(97 \<le> byte CHR '':'' \<and> byte CHR '':'' \<le> 122) \<or> isDigitByte CHR '':''"
      using assms by (simp add: isUIKey_def list_all_iff)
    then show False by (simp add: byte_def isDigitByte_def)
  qed
  ultimately show ?thesis by simp
qed

lemma isSwitchKey_colon: "isSwitchKey k \<Longrightarrow> CHR '':'' \<in> set k"
  by (auto simp: isSwitchKey_def hasPrefix_prefix prefix_def)

lemma section_kinds:
  "isUIKey k \<Longrightarrow> \<not> isSwitchKey k"
  "s \<in> fixedSections \<Longrightarrow> \<not> isSwitchKey s" "s \<in> fixedSections \<Longrightarrow> \<not> isUIKey s"
  using isUIKey_no_colon isSwitchKey_colon
  by (blast, auto simp: isSwitchKey_def isUIKey_def hasPrefix_def hasSuffix_def)

lemma discoverUIKey: "discoverUIKey actual \<noteq> [] \<Longrightarrow>
    isUIKey (discoverUIKey actual) \<and> discoverUIKey actual \<in> fst ` set actual"
  by (auto simp: discoverUIKey_def split: option.splits dest!: find_SomeD)

lemma secEntry_mem [simp]: "(s, m) \<in> set (secEntry k n) \<longleftrightarrow> s = k \<and> m = n \<and> n \<noteq> []"
  by (auto simp: secEntry_def)

lemma renderSwitchComponents_mem:
  "(s, m) \<in> set (renderSwitchComponents sw actual) \<longleftrightarrow>
     (\<exists>c. sw = Some c \<and> m = switchMap c \<and> m \<noteq> []) \<and> isSwitchKey s \<and> s \<in> fst ` set actual"
  by (auto simp: renderSwitchComponents_def split: option.splits)

lemma rendered_sections:
  assumes "(s, m) \<in> set (Render G cfg desiredName actual)"
  shows "m \<noteq> [] \<and>
    (s \<in> fixedSections \<or> (isSwitchKey s \<or> isUIKey s) \<and> s \<in> fst ` set actual) \<and>
    s \<notin> {''auth'', ''firmware'', ''schedule''}"
proof -
  have kinds: "m \<noteq> [] \<and> (s \<in> fixedSections \<or> (isSwitchKey s \<or> isUIKey s) \<and> s \<in> fst ` set actual)"
    using assms discoverUIKey [of actual]
    by (auto simp: Render_def renderSwitchComponents_mem Let_def split: option.splits if_splits)
  have "s \<notin> {''auth'', ''firmware'', ''schedule''}"
  proof
    assume "s \<in> {''auth'', ''firmware'', ''schedule''}"
    then have "\<not> isSwitchKey s" "\<not> isUIKey s" "s \<notin> fixedSections"
      by (auto simp: isSwitchKey_def isUIKey_def hasPrefix_def hasSuffix_def)
    with kinds show False by simp
  qed
  with kinds show ?thesis by simp
qed

text \<open>
  C38: Every rendered section is non-empty and is either one of the six fixed components or a
  switch or UI component the device itself reports; none carries the name of a pseudo-section
  (\<open>auth\<close>, \<open>firmware\<close>, \<open>schedule\<close>) that enforcement treats specially.
\<close>

theorem Render_sections:
  assumes "(s, m) \<in> set (Render G cfg desiredName actual)"
  shows "m \<noteq> [] \<and>
    (s \<in> fixedSections \<or> (isSwitchKey s \<or> isUIKey s) \<and> s \<in> fst ` set actual) \<and>
    s \<notin> {''auth'', ''firmware'', ''schedule''}"
  using assms by (rule rendered_sections)

theorem Render_sections_witness:
  "(''switch:0'', [(''auto_on'', JBool True)]) \<in> set (Render exampleLib
      (emptyConfig\<lparr>pc_switch := Some \<lparr>sw_initialState = None, sw_autoOn = Some True, sw_autoOnDelay = None,
         sw_autoOff = None, sw_autoOffDelay = None, sw_powerLimit = None, sw_voltageLimit = None,
         sw_currentLimit = None, sw_autorecoverVoltageErrors = None\<rparr>\<rparr>) [] [(''switch:0'', JObj [])]) \<and>
   isSwitchKey ''switch:0''"
proof -
  have "(''switch:0'', [(''auto_on'', JBool True)]) \<in> set (Render exampleLib
      (emptyConfig\<lparr>pc_switch := Some \<lparr>sw_initialState = None, sw_autoOn = Some True, sw_autoOnDelay = None,
         sw_autoOff = None, sw_autoOffDelay = None, sw_powerLimit = None, sw_voltageLimit = None,
         sw_currentLimit = None, sw_autorecoverVoltageErrors = None\<rparr>\<rparr>) [] [(''switch:0'', JObj [])])"
      (is ?m)
    by (simp add: Render_def renderSwitchComponents_def switchMap_def optEntry_def emptyConfig_def
        isSwitchKey_def hasPrefix_def)
  then show ?thesis using Render_sections [OF \<open>?m\<close>]
    by (auto simp: isUIKey_def hasSuffix_def)
qed

text \<open>The desired configuration is well formed: distinct sections, non-empty good maps.\<close>

definition goodDesired :: "jmap gomap \<Rightarrow> bool" where
  "goodDesired d \<longleftrightarrow> wfmap d \<and> (\<forall>(s, m) \<in> set d. goodMap m \<and> m \<noteq> [])"

lemma wfmap_append: "wfmap (m @ n) \<longleftrightarrow> wfmap m \<and> wfmap n \<and> disjKeys m n"
  by (auto simp: wfmap_def disjKeys_def hasKey_def)

lemma wfmap_secEntry [simp]: "wfmap (secEntry k m)"
  by (simp add: secEntry_def wfmap_def)

lemma hasKey_secEntry [simp]: "hasKey k (secEntry k' m) \<longleftrightarrow> k = k' \<and> m \<noteq> []"
  by (auto simp: secEntry_def)

lemma disjKeys_secEntry: "\<not> hasKey k n \<Longrightarrow> disjKeys (secEntry k m) n"
  by (auto simp: disjKeys_def)

lemma wfmap_switches: "wfmap actual \<Longrightarrow> wfmap (renderSwitchComponents sw actual)"
  by (auto simp: renderSwitchComponents_def wfmap_def comp_def split: option.splits)

lemma hasKey_switches: "hasKey k (renderSwitchComponents sw actual) \<Longrightarrow> isSwitchKey k"
  by (auto simp: hasKey_def renderSwitchComponents_mem)

lemma Render_good:
  assumes "wfjm actual" "locationSane G cfg"
  shows "goodDesired (Render G cfg n actual)"
proof -
  let ?ui = "case pc_ui cfg of None \<Rightarrow> []
      | Some ui \<Rightarrow> (let uiKey = discoverUIKey actual
         in if uiKey = [] then [] else secEntry uiKey (renderUI ui (map_of actual uiKey)))"
  have uik: "hasKey k ?ui \<Longrightarrow> isUIKey k" for k
    using discoverUIKey [of actual] by (auto simp: Let_def split: option.splits if_splits)
  have "wfmap ?ui" by (simp add: Let_def split: option.split)
  moreover have fixed: "\<not> hasKey k (renderSwitchComponents (pc_switch cfg) actual) \<and> \<not> hasKey k ?ui"
    if "k \<in> fixedSections" for k
    using section_kinds(2) [OF that] section_kinds(3) [OF that] hasKey_switches uik by metis
  moreover have "disjKeys (renderSwitchComponents (pc_switch cfg) actual) ?ui"
    unfolding disjKeys_def using hasKey_switches uik section_kinds(1) by metis
  ultimately have "wfmap (Render G cfg n actual)"
    unfolding Render_def wfmap_append
    using wfmap_switches [OF wfjm_wfmap [OF assms(1)], of "pc_switch cfg"] fixed
    by (intro conjI disjKeys_secEntry; simp)
  moreover have "goodMap m \<and> m \<noteq> []" if "(s, m) \<in> set (Render G cfg n actual)" for s m
    using that assms goodMap_renderSys [OF assms(2), of n] goodMap_renderMQTT goodMap_enable
      goodMap_renderWifi goodMap_switchMap
      goodMap_renderUI [of "map_of actual (discoverUIKey actual)"] wfjm_lookup [OF assms(1)]
    by (auto simp: Render_def renderSwitchComponents_mem Let_def split: option.splits if_splits)
  ultimately show ?thesis by (auto simp: goodDesired_def)
qed

text \<open>The configuration without its Secret references and pseudo-sections.\<close>

definition dropCredentials :: "ProfileConfig \<Rightarrow> ProfileConfig" where
  "dropCredentials cfg = cfg\<lparr>pc_auth := None, pc_firmware := None, pc_schedules := None,
     pc_wifi := map_option (\<lambda>w. w\<lparr>
        wifi_sta := map_option (\<lambda>n. n\<lparr>wn_passSecretRef := None\<rparr>) (wifi_sta w),
        wifi_sta1 := map_option (\<lambda>n. n\<lparr>wn_passSecretRef := None\<rparr>) (wifi_sta1 w)\<rparr>) (pc_wifi cfg)\<rparr>"

text \<open>
  Rendering is independent of credentials: no reference to a Secret, and none of the
  sections handled outside the device configuration (auth, firmware, schedules), influences
  the rendered maps, so nothing derived from them can reach the dashboard or the diff.
\<close>

theorem Render_ignores_credentials:
  "Render G cfg desiredName actual = Render G (dropCredentials cfg) desiredName actual"
proof -
  have "renderWifiNetwork (map_option (\<lambda>n. n\<lparr>wn_passSecretRef := None\<rparr>) x) = renderWifiNetwork x" for x
    by (cases x) (simp_all add: renderWifiNetwork_def)
  then have "renderWifi (pc_wifi (dropCredentials cfg)) = renderWifi (pc_wifi cfg)"
    by (cases "pc_wifi cfg") (simp_all add: renderWifi_def dropCredentials_def)
  then show ?thesis by (simp add: Render_def dropCredentials_def)
qed

end
