(* ===== verification/World.thy ===== *)
theory World
  imports Api_Types
begin

text \<open>
  The boundary of the operator. Everything outside (the network with its devices, the
  Kubernetes API server, the clock, the random source) is an environment of an arbitrary type
  \<open>'e\<close>, reached through the functions of a record \<open>'e sysops\<close> that the definitions take as an
  argument. The world the operator's code threads through is that environment together with
  the reconciler's own mutable fields and a trace of the effects it had, in order.
\<close>

section \<open>HTTP\<close>

text \<open>
  A request body is the JSON value that is sent; a response body is the decoded value
  (\<open>None\<close> when it is no JSON) and the text a status error quotes.
\<close>

record http_request =
  rq_method :: string
  rq_host :: string
  rq_path :: string
  rq_auth :: string
  rq_body :: json

record http_response =
  rs_code :: int
  rs_status :: string
  rs_authenticate :: string
  rs_body :: "json option"
  rs_text :: string

section \<open>The environment and the world\<close>

datatype effect =
    Http http_request
  | StatusPatch ShellyDevice ShellyDevice bool
  | ObjectPatch ShellyDevice ShellyDevice bool
  | Event string string string
  | DeviceCreate ShellyDevice bool
  | DeviceUpdate ShellyDevice ShellyDevice bool
  | StatusUpdate ShellyDevice ShellyDevice bool
  | ConfigMapCreate string string "string gomap" "string gomap" bool
  | ConfigMapUpdate string string "string gomap" bool

text \<open>
  \<open>patchStatus base dev\<close> is \<open>Status().Patch(ctx, dev, MergeFrom(base))\<close>: on success the answer
  is the object as the API server now has it. \<open>waitRetry\<close> is the \<open>select\<close> on \<open>ctx.Done()\<close> and
  \<open>time.After\<close>: \<open>Some err\<close> when the context ended first; \<open>ctxErr\<close> is \<open>ctx.Err()\<close>. The writes
  of discovery and of the exporter feed replace whole objects (\<open>Create\<close>, \<open>Update\<close>); their
  answer is again the object as stored. The first object in an update effect is the one in
  memory before the change; it is recorded for the theorems only.
\<close>

record 'e sysops =
  doHttp :: "http_request \<Rightarrow> 'e \<Rightarrow> (go_error + http_response) \<times> 'e"
  randomHex8 :: "'e \<Rightarrow> string \<times> 'e"
  waitRetry :: "time \<Rightarrow> 'e \<Rightarrow> go_error option \<times> 'e"
  timeNow :: "'e \<Rightarrow> time \<times> 'e"
  getDevice :: "string \<Rightarrow> string \<Rightarrow> 'e \<Rightarrow> (go_error + ShellyDevice) \<times> 'e"
  listDevices :: "string \<Rightarrow> 'e \<Rightarrow> (go_error + ShellyDevice list) \<times> 'e"
  listProfiles :: "string \<Rightarrow> 'e \<Rightarrow> (go_error + ShellyProfile list) \<times> 'e"
  getConfigMap :: "string \<Rightarrow> string \<Rightarrow> 'e \<Rightarrow> (go_error + string gomap) \<times> 'e"
  getSecret :: "string \<Rightarrow> string \<Rightarrow> 'e \<Rightarrow> (go_error + string gomap) \<times> 'e"
  patchStatus :: "ShellyDevice \<Rightarrow> ShellyDevice \<Rightarrow> 'e \<Rightarrow> (go_error + ShellyDevice) \<times> 'e"
  patchObject :: "ShellyDevice \<Rightarrow> ShellyDevice \<Rightarrow> 'e \<Rightarrow> (go_error + ShellyDevice) \<times> 'e"
  createDevice :: "ShellyDevice \<Rightarrow> 'e \<Rightarrow> (go_error + ShellyDevice) \<times> 'e"
  updateDevice :: "ShellyDevice \<Rightarrow> 'e \<Rightarrow> (go_error + ShellyDevice) \<times> 'e"
  updateStatus :: "ShellyDevice \<Rightarrow> 'e \<Rightarrow> (go_error + ShellyDevice) \<times> 'e"
  createConfigMap :: "string \<Rightarrow> string \<Rightarrow> string gomap \<Rightarrow> string gomap \<Rightarrow> 'e \<Rightarrow> go_error option \<times> 'e"
  updateConfigMap :: "string \<Rightarrow> string \<Rightarrow> string gomap \<Rightarrow> 'e \<Rightarrow> go_error option \<times> 'e"
  ctxErr :: "'e \<Rightarrow> go_error option \<times> 'e"

text \<open>The state of one RPC client (\<open>shelly.Client\<close>): its digest challenge counts requests in 32 bits.\<close>

record digestState =
  dg_realm :: string
  dg_nonce :: string
  dg_nc :: "32 word"

record Client =
  cl_host :: string
  cl_password :: string
  cl_retryDelay :: time
  cl_auth :: "digestState option"

record 'e world =
  w_env :: 'e
  w_trace :: "effect list"
  w_clients :: "(string \<times> Client) gomap"
  w_lastUpdateStart :: "time option"

section \<open>Running the environment's operations\<close>

definition askEnv :: "('e \<Rightarrow> 'a \<times> 'e) \<Rightarrow> 'e world \<Rightarrow> 'a \<times> 'e world" where
  "askEnv f w = (let (a, e) = f (w_env w) in (a, w\<lparr>w_env := e\<rparr>))"

definition record_effect :: "effect \<Rightarrow> 'e world \<Rightarrow> 'e world" where
  "record_effect x w = w\<lparr>w_trace := w_trace w @ [x]\<rparr>"

definition httpW :: "'e sysops \<Rightarrow> http_request \<Rightarrow> 'e world \<Rightarrow> (go_error + http_response) \<times> 'e world" where
  "httpW S rq w = askEnv (doHttp S rq) (record_effect (Http rq) w)"

definition isOk :: "'a + 'b \<Rightarrow> bool" where
  "isOk r \<longleftrightarrow> (case r of Inl _ \<Rightarrow> False | Inr _ \<Rightarrow> True)"

definition patchStatusW :: "'e sysops \<Rightarrow> ShellyDevice \<Rightarrow> ShellyDevice \<Rightarrow> 'e world
    \<Rightarrow> (go_error + ShellyDevice) \<times> 'e world" where
  "patchStatusW S base dev w =
     (let (r, w) = askEnv (patchStatus S base dev) w in (r, record_effect (StatusPatch base dev (isOk r)) w))"

definition patchObjectW :: "'e sysops \<Rightarrow> ShellyDevice \<Rightarrow> ShellyDevice \<Rightarrow> 'e world
    \<Rightarrow> (go_error + ShellyDevice) \<times> 'e world" where
  "patchObjectW S base dev w =
     (let (r, w) = askEnv (patchObject S base dev) w in (r, record_effect (ObjectPatch base dev (isOk r)) w))"

definition createDeviceW :: "'e sysops \<Rightarrow> ShellyDevice \<Rightarrow> 'e world \<Rightarrow> (go_error + ShellyDevice) \<times> 'e world" where
  "createDeviceW S dev w =
     (let (r, w) = askEnv (createDevice S dev) w in (r, record_effect (DeviceCreate dev (isOk r)) w))"

definition updateDeviceW :: "'e sysops \<Rightarrow> ShellyDevice \<Rightarrow> ShellyDevice \<Rightarrow> 'e world
    \<Rightarrow> (go_error + ShellyDevice) \<times> 'e world" where
  "updateDeviceW S base dev w =
     (let (r, w) = askEnv (updateDevice S dev) w in (r, record_effect (DeviceUpdate base dev (isOk r)) w))"

definition updateStatusW :: "'e sysops \<Rightarrow> ShellyDevice \<Rightarrow> ShellyDevice \<Rightarrow> 'e world
    \<Rightarrow> (go_error + ShellyDevice) \<times> 'e world" where
  "updateStatusW S base dev w =
     (let (r, w) = askEnv (updateStatus S dev) w in (r, record_effect (StatusUpdate base dev (isOk r)) w))"

definition createConfigMapW :: "'e sysops \<Rightarrow> string \<Rightarrow> string \<Rightarrow> string gomap \<Rightarrow> string gomap \<Rightarrow> 'e world
    \<Rightarrow> go_error option \<times> 'e world" where
  "createConfigMapW S ns name labels data w =
     (let (r, w) = askEnv (createConfigMap S ns name labels data) w
      in (r, record_effect (ConfigMapCreate ns name labels data (r = None)) w))"

definition updateConfigMapW :: "'e sysops \<Rightarrow> string \<Rightarrow> string \<Rightarrow> string gomap \<Rightarrow> 'e world
    \<Rightarrow> go_error option \<times> 'e world" where
  "updateConfigMapW S ns name data w =
     (let (r, w) = askEnv (updateConfigMap S ns name data) w
      in (r, record_effect (ConfigMapUpdate ns name data (r = None)) w))"

definition emit :: "string \<Rightarrow> string \<Rightarrow> string \<Rightarrow> 'e world \<Rightarrow> 'e world" where
  "emit etype reason msg w = record_effect (Event etype reason msg) w"

abbreviation EventTypeNormal :: string where "EventTypeNormal \<equiv> ''Normal''"
abbreviation EventTypeWarning :: string where "EventTypeWarning \<equiv> ''Warning''"

text \<open>Effects only ever extend the trace.\<close>

lemma trace_askEnv [simp]: "w_trace (snd (askEnv f w)) = w_trace w"
  by (simp add: askEnv_def split_beta Let_def)

lemma askEnv_trace: "askEnv f w = (a, w') \<Longrightarrow> w_trace w' = w_trace w"
  using trace_askEnv [of f w] by simp

lemma clients_askEnv [simp]: "w_clients (snd (askEnv f w)) = w_clients w"
  by (simp add: askEnv_def split_beta Let_def)

lemma lastUpdateStart_askEnv [simp]: "w_lastUpdateStart (snd (askEnv f w)) = w_lastUpdateStart w"
  by (simp add: askEnv_def split_beta Let_def)

lemma record_effect_simps [simp]:
  "w_trace (record_effect x w) = w_trace w @ [x]" "w_env (record_effect x w) = w_env w"
  "w_clients (record_effect x w) = w_clients w" "w_lastUpdateStart (record_effect x w) = w_lastUpdateStart w"
  by (simp_all add: record_effect_def)

lemma trace_httpW [simp]: "w_trace (snd (httpW S rq w)) = w_trace w @ [Http rq]"
  by (simp add: httpW_def)

lemma trace_patchStatusW [simp]:
  "w_trace (snd (patchStatusW S base dev w)) =
     w_trace w @ [StatusPatch base dev (isOk (fst (patchStatusW S base dev w)))]"
  by (simp add: patchStatusW_def split_beta Let_def)

lemma trace_patchObjectW [simp]:
  "w_trace (snd (patchObjectW S base dev w)) =
     w_trace w @ [ObjectPatch base dev (isOk (fst (patchObjectW S base dev w)))]"
  by (simp add: patchObjectW_def split_beta Let_def)

lemma trace_createDeviceW [simp]:
  "w_trace (snd (createDeviceW S dev w)) = w_trace w @ [DeviceCreate dev (isOk (fst (createDeviceW S dev w)))]"
  by (simp add: createDeviceW_def split_beta Let_def)

lemma trace_updateDeviceW [simp]:
  "w_trace (snd (updateDeviceW S base dev w)) =
     w_trace w @ [DeviceUpdate base dev (isOk (fst (updateDeviceW S base dev w)))]"
  by (simp add: updateDeviceW_def split_beta Let_def)

lemma trace_updateStatusW [simp]:
  "w_trace (snd (updateStatusW S base dev w)) =
     w_trace w @ [StatusUpdate base dev (isOk (fst (updateStatusW S base dev w)))]"
  by (simp add: updateStatusW_def split_beta Let_def)

lemma trace_emit [simp]: "w_trace (emit a b c w) = w_trace w @ [Event a b c]"
  by (simp add: emit_def)

lemma trace_createConfigMapW:
  "createConfigMapW S ns name ls data w = (r, w') \<Longrightarrow> w_trace w' = w_trace w @ [ConfigMapCreate ns name ls data (r = None)]"
  by (auto simp: createConfigMapW_def Let_def split: prod.splits dest!: askEnv_trace)

lemma trace_updateConfigMapW:
  "updateConfigMapW S ns name data w = (r, w') \<Longrightarrow> w_trace w' = w_trace w @ [ConfigMapUpdate ns name data (r = None)]"
  by (auto simp: updateConfigMapW_def Let_def split: prod.splits dest!: askEnv_trace)

section \<open>A concrete environment for the witnesses\<close>

text \<open>
  An environment that is a clock: no device answers, the namespace holds one device and no
  profile, every patch succeeds. It models no code of the repository.
\<close>

definition quietOps :: "time sysops" where
  "quietOps = \<lparr>doHttp = (\<lambda>rq e. (Inl (ErrText ''connection refused''), e)),
     randomHex8 = (\<lambda>e. (''00'', e)), waitRetry = (\<lambda>d e. (None, e)), timeNow = (\<lambda>e. (e, e)),
     getDevice = (\<lambda>ns n e. (Inr exampleDevice, e)), listDevices = (\<lambda>ns e. (Inr [exampleDevice], e)),
     listProfiles = (\<lambda>ns e. (Inr [], e)),
     getConfigMap = (\<lambda>ns n e. (Inl (ApiError NotFound ''not found''), e)),
     getSecret = (\<lambda>ns n e. (Inl (ApiError NotFound ''not found''), e)),
     patchStatus = (\<lambda>base dev e. (Inr dev, e)), patchObject = (\<lambda>base dev e. (Inr dev, e)),
     createDevice = (\<lambda>dev e. (Inr dev, e)), updateDevice = (\<lambda>dev e. (Inr dev, e)),
     updateStatus = (\<lambda>dev e. (Inr dev, e)), createConfigMap = (\<lambda>ns n ls data e. (None, e)),
     updateConfigMap = (\<lambda>ns n data e. (None, e)), ctxErr = (\<lambda>e. (None, e))\<rparr>"

definition startWorld :: "'e \<Rightarrow> 'e world" where
  "startWorld e = \<lparr>w_env = e, w_trace = [], w_clients = [], w_lastUpdateStart = None\<rparr>"

end
