(* ===== verification/Shelly_Client.thy ===== *)
theory Shelly_Client
  imports World
begin

text \<open>
  \<open>internal/shelly\<close>: the JSON-RPC client of one device. The transport half (\<open>client.go\<close>,
  \<open>digest.go\<close>) turns one call into HTTP requests, answering a digest challenge and retrying
  HTTP 429; the API half (\<open>config.go\<close>, \<open>schedule.go\<close>, \<open>setauth.go\<close>, \<open>sysstatus.go\<close>, ...) encodes
  parameters and decodes results over any \<open>call\<close>.
\<close>

section \<open>digest.go\<close>

definition isWordByte :: "char \<Rightarrow> bool" where
  "isWordByte c \<longleftrightarrow> isAlnumAny (byte c) \<or> c = CHR ''_''"

definition isSpaceByte :: "char \<Rightarrow> bool" where
  "isSpaceByte c \<longleftrightarrow> c \<in> {CHR '' '', CHR 0x09, CHR 0x0A, CHR 0x0C, CHR 0x0D}"

text \<open>
  The value after \<open>=\<close> in \<open>digestFieldRe\<close>: a quoted text, or a non-empty run of bytes other than
  quote, comma and white space; with the rest of the input.
\<close>

definition fieldValue :: "string \<Rightarrow> (string \<times> string) option" where
  "fieldValue s =
     (case s of
        [] \<Rightarrow> None
      | c # t \<Rightarrow>
          if c = CHR 0x22 then
            (let v = takeWhile (\<lambda>d. d \<noteq> CHR 0x22) t; rest = dropWhile (\<lambda>d. d \<noteq> CHR 0x22) t
             in if rest = [] then None else Some (v, tl rest))
          else
            (let p = (\<lambda>d. d \<noteq> CHR 0x22 \<and> d \<noteq> CHR '','' \<and> \<not> isSpaceByte d);
                 v = takeWhile p s
             in if v = [] then None else Some (v, dropWhile p s)))"

lemma fieldValue_length: "fieldValue s = Some (v, rest) \<Longrightarrow> length rest \<le> length s"
  by (auto simp: fieldValue_def Let_def length_dropWhile_le diff_le_self
      intro: le_SucI [OF length_dropWhile_le] le_SucI [OF le_trans [OF diff_le_self length_dropWhile_le]]
      split: list.splits if_splits)

text \<open>\<open>FindAllStringSubmatch\<close>: the leftmost matches, each starting at the first byte of a word.\<close>

function digestFields :: "string \<Rightarrow> (string \<times> string) list" where
  "digestFields s =
     (let s1 = dropWhile (\<lambda>c. \<not> isWordByte c) s;
          name = takeWhile isWordByte s1;
          rest = dropWhile isWordByte s1
      in if name = [] then []
         else if rest \<noteq> [] \<and> hd rest = CHR ''='' then
           (case fieldValue (tl rest) of
              None \<Rightarrow> digestFields rest
            | Some (v, rest') \<Rightarrow> (name, v) # digestFields rest')
         else digestFields rest)"
  by pat_completeness auto

lemma word_rest_shorter:
  assumes "takeWhile isWordByte (dropWhile (\<lambda>c. \<not> isWordByte c) s) \<noteq> []"
  shows "length (dropWhile isWordByte (dropWhile (\<lambda>c. \<not> isWordByte c) s)) < length s"
proof (cases "dropWhile (\<lambda>c. \<not> isWordByte c) s")
  case Nil
  show ?thesis using assms unfolding Nil by simp
next
  case (Cons a t)
  then have "isWordByte a" "Suc (length t) \<le> length s"
    using assms length_dropWhile_le [of "\<lambda>c. \<not> isWordByte c" s] by (auto split: if_splits)
  moreover have "length (dropWhile isWordByte t) \<le> length t"
    by (rule length_dropWhile_le)
  ultimately show ?thesis using Cons by simp
qed

termination digestFields
proof (relation "measure length", goal_cases)
  case (3 s s1 name rest a v rest')
  then have "length rest < length s"
    using word_rest_shorter [of s] by simp
  moreover have "length rest' \<le> length (tl rest)"
    using 3 fieldValue_length [of "tl rest" v rest'] by simp
  ultimately show ?case by simp
qed (simp_all add: word_rest_shorter)

declare digestFields.simps [simp del]

definition fieldsMap :: "string \<Rightarrow> string gomap" where
  "fieldsMap header = foldl (\<lambda>m (k, v). AList.update k v m) [] (digestFields header)"

definition setChallenge :: "Client \<Rightarrow> string \<Rightarrow> go_error + Client" where
  "setChallenge c header =
     (let f = fieldsMap header
      in if mgetS f ''realm'' = [] \<or> mgetS f ''nonce'' = []
         then Inl (ErrText (''shelly: '' @ cl_host c @ '': unsupported auth challenge '' @ quoted header))
         else Inr (c\<lparr>cl_auth := Some \<lparr>dg_realm = mgetS f ''realm'', dg_nonce = mgetS f ''nonce'',
                                        dg_nc = 0\<rparr>\<rparr>))"

text \<open>The \<open>%08x\<close> verb on a 32-bit value.\<close>

definition hex8 :: "32 word \<Rightarrow> string" where
  "hex8 n = map (\<lambda>i. hexDigit (unat n div 16 ^ (7 - i) mod 16)) [0..<8]"

definition digestResponse :: "golib \<Rightarrow> string \<Rightarrow> string \<Rightarrow> string \<Rightarrow> string \<Rightarrow> string" where
  "digestResponse G ha1 nonce nc cnonce =
     (let ha2 = sha256hex G ''POST:/rpc''
      in sha256hex G (joinStrings [ha1, nonce, nc, cnonce, ''auth'', ha2] '':''))"

definition digestHeader :: "string \<Rightarrow> string \<Rightarrow> string \<Rightarrow> string \<Rightarrow> string \<Rightarrow> string" where
  "digestHeader realm nonce response nc cnonce =
     ''Digest username='' @ quoted ''admin'' @ '', realm='' @ quoted realm @ '', nonce='' @ quoted nonce
     @ '', uri='' @ quoted ''/rpc'' @ '', response='' @ quoted response @ '', qop=auth, nc='' @ nc
     @ '', cnonce='' @ quoted cnonce @ '', algorithm=SHA-256''"

definition authHeader :: "'e sysops \<Rightarrow> golib \<Rightarrow> Client \<Rightarrow> 'e world \<Rightarrow> string \<times> Client \<times> 'e world" where
  "authHeader S G c w =
     (case cl_auth c of
        None \<Rightarrow> ([], c, w)
      | Some a \<Rightarrow>
          if cl_password c = [] then ([], c, w)
          else
            (let a = a\<lparr>dg_nc := dg_nc a + 1\<rparr>;
                 nc = hex8 (dg_nc a);
                 (cnonce, w) = askEnv (randomHex8 S) w;
                 ha1 = sha256hex G (''admin:'' @ dg_realm a @ '':'' @ cl_password c)
             in (digestHeader (dg_realm a) (dg_nonce a) (digestResponse G ha1 (dg_nonce a) nc cnonce) nc cnonce,
                 c\<lparr>cl_auth := Some a\<rparr>, w)))"

section \<open>client.go\<close>

abbreviation tooManyRequestsRetries :: nat where
  "tooManyRequestsRetries \<equiv> 2"

abbreviation seconds :: "int \<Rightarrow> time" where
  "seconds n \<equiv> n * 1000000000"

abbreviation minutes :: "int \<Rightarrow> time" where
  "minutes n \<equiv> seconds (60 * n)"

abbreviation defaultRetryDelay :: time where
  "defaultRetryDelay \<equiv> seconds 5"

definition NewClient :: "string \<Rightarrow> string \<Rightarrow> Client" where
  "NewClient host password =
     \<lparr>cl_host = host, cl_password = password, cl_retryDelay = 0, cl_auth = None\<rparr>"

definition IsRefusal :: "go_error \<Rightarrow> bool" where
  "IsRefusal e \<longleftrightarrow>
     errAs is_RPCError e \<noteq> None \<or> errAs is_AuthError e \<noteq> None \<or> errAs is_StatusError e \<noteq> None"

definition sendRpc :: "'e sysops \<Rightarrow> Client \<Rightarrow> json \<Rightarrow> string \<Rightarrow> 'e world
    \<Rightarrow> (go_error + http_response) \<times> 'e world" where
  "sendRpc S c payload auth w =
     httpW S \<lparr>rq_method = ''POST'', rq_host = cl_host c, rq_path = ''/rpc'', rq_auth = auth,
              rq_body = payload\<rparr> w"

definition post :: "'e sysops \<Rightarrow> golib \<Rightarrow> Client \<Rightarrow> json \<Rightarrow> 'e world
    \<Rightarrow> (go_error + http_response) \<times> Client \<times> 'e world" where
  "post S G c payload w =
     (let (auth, c, w) = authHeader S G c w;
          (r, w) = sendRpc S c payload auth w
      in case r of
           Inl err \<Rightarrow> (Inl err, c, w)
         | Inr resp \<Rightarrow>
             if rs_code resp \<noteq> 401 \<or> cl_password c = [] then (Inr resp, c, w)
             else
               (case setChallenge c (rs_authenticate resp) of
                  Inl err \<Rightarrow> (Inl err, c, w)
                | Inr c \<Rightarrow>
                    (let (auth, c, w) = authHeader S G c w;
                         (r, w) = sendRpc S c payload auth w
                     in (r, c, w))))"

text \<open>The loop of \<open>postRetrying\<close>; \<open>k\<close> counts the retries that are left.\<close>

fun postLoop :: "nat \<Rightarrow> 'e sysops \<Rightarrow> golib \<Rightarrow> time \<Rightarrow> Client \<Rightarrow> json \<Rightarrow> 'e world
    \<Rightarrow> (go_error + http_response) \<times> Client \<times> 'e world" where
  "postLoop k S G delay c payload w =
     (let (r, c, w) = post S G c payload w
      in case r of
           Inl err \<Rightarrow> (Inl err, c, w)
         | Inr resp \<Rightarrow>
             if rs_code resp \<noteq> 429 then (Inr resp, c, w)
             else
               (case k of
                  0 \<Rightarrow> (Inr resp, c, w)
                | Suc k' \<Rightarrow>
                    (let (ended, w) = askEnv (waitRetry S delay) w
                     in case ended of
                          Some err \<Rightarrow> (Inl err, c, w)
                        | None \<Rightarrow> postLoop k' S G delay c payload w)))"

declare postLoop.simps [simp del]

definition postRetrying :: "'e sysops \<Rightarrow> golib \<Rightarrow> Client \<Rightarrow> json \<Rightarrow> 'e world
    \<Rightarrow> (go_error + http_response) \<times> Client \<times> 'e world" where
  "postRetrying S G c payload w =
     (let delay = (if cl_retryDelay c \<le> 0 then defaultRetryDelay else cl_retryDelay c)
      in postLoop tooManyRequestsRetries S G delay c payload w)"

text \<open>\<open>rpcRequest\<close>: the id is always 1 and nil parameters are omitted.\<close>

definition rpcRequest :: "string \<Rightarrow> json option \<Rightarrow> json" where
  "rpcRequest rpc params =
     JObj ([(''id'', JNum (Fin 1)), (''method'', JStr rpc)] @
           (case params of None \<Rightarrow> [] | Some p \<Rightarrow> [(''params'', p)]))"

subsection \<open>Decoding into Go structs\<close>

text \<open>
  A struct field keeps its zero value when its key is missing or null, and a value of another
  JSON type is an error. Field names are matched exactly.
\<close>

definition typeMismatch :: "string \<Rightarrow> go_error" where
  "typeMismatch t = ErrText (''json: cannot unmarshal value into Go value of type '' @ t)"

definition ebind :: "go_error + 'a \<Rightarrow> ('a \<Rightarrow> go_error + 'b) \<Rightarrow> go_error + 'b" where
  "ebind r f = (case r of Inl e \<Rightarrow> Inl e | Inr a \<Rightarrow> f a)"

fun mapE :: "('a \<Rightarrow> go_error + 'b) \<Rightarrow> 'a list \<Rightarrow> go_error + 'b list" where
  "mapE f [] = Inr []"
| "mapE f (x # xs) = ebind (f x) (\<lambda>y. ebind (mapE f xs) (\<lambda>ys. Inr (y # ys)))"

lemma ebind_simps [simp]: "ebind (Inl e) f = Inl e" "ebind (Inr a) f = f a"
  by (simp_all add: ebind_def)

lemma mapE_roundtrip: "(\<And>x. x \<in> set xs \<Longrightarrow> d (e x) = Inr x) \<Longrightarrow> mapE d (map e xs) = Inr xs"
  by (induction xs) simp_all

definition decStruct :: "json \<Rightarrow> go_error + jmap" where
  "decStruct v =
     (case v of JObj m \<Rightarrow> Inr m | JNull \<Rightarrow> Inr [] | _ \<Rightarrow> Inl (typeMismatch ''struct''))"

definition decMap :: "json \<Rightarrow> go_error + jmap" where
  "decMap v =
     (case v of JObj m \<Rightarrow> Inr m | JNull \<Rightarrow> Inr [] | _ \<Rightarrow> Inl (typeMismatch ''map''))"

definition decSlice :: "json \<Rightarrow> go_error + json list" where
  "decSlice v =
     (case v of JArr vs \<Rightarrow> Inr vs | JNull \<Rightarrow> Inr [] | _ \<Rightarrow> Inl (typeMismatch ''slice''))"

definition decStr :: "json \<Rightarrow> go_error + string" where
  "decStr v =
     (case v of JStr s \<Rightarrow> Inr s | JNull \<Rightarrow> Inr [] | _ \<Rightarrow> Inl (typeMismatch ''string''))"

definition decBool :: "json \<Rightarrow> go_error + bool" where
  "decBool v =
     (case v of JBool b \<Rightarrow> Inr b | JNull \<Rightarrow> Inr False | _ \<Rightarrow> Inl (typeMismatch ''bool''))"

text \<open>A number decodes into an \<open>int\<close> when it is an integer within 64 bits.\<close>

definition intOfFloat :: "float64 \<Rightarrow> int option" where
  "intOfFloat f =
     (case f of
        Fin r \<Rightarrow> if r = of_int \<lfloor>r\<rfloor> \<and> - (2 ^ 63) \<le> \<lfloor>r\<rfloor> \<and> \<lfloor>r\<rfloor> < 2 ^ 63 then Some \<lfloor>r\<rfloor> else None
      | _ \<Rightarrow> None)"

definition decInt :: "json \<Rightarrow> go_error + int" where
  "decInt v =
     (case v of
        JNum f \<Rightarrow> (case intOfFloat f of Some i \<Rightarrow> Inr i | None \<Rightarrow> Inl (typeMismatch ''int''))
      | JNull \<Rightarrow> Inr 0
      | _ \<Rightarrow> Inl (typeMismatch ''int''))"

abbreviation jfield :: "jmap \<Rightarrow> string \<Rightarrow> json" where
  "jfield m k \<equiv> orNull (map_of m k)"

definition jInt :: "int \<Rightarrow> json" where
  "jInt i = JNum (Fin (of_int i))"

definition int64 :: "int \<Rightarrow> bool" where
  "int64 i \<longleftrightarrow> - (2 ^ 63) \<le> i \<and> i < 2 ^ 63"

lemma decInt_jInt [simp]: "int64 i \<Longrightarrow> decInt (jInt i) = Inr i"
  by (simp add: decInt_def jInt_def intOfFloat_def int64_def)

lemma dec_simps [simp]:
  "decStruct (JObj m) = Inr m" "decStruct JNull = Inr []" "decMap (JObj m) = Inr m" "decMap JNull = Inr []"
  "decSlice (JArr vs) = Inr vs" "decSlice JNull = Inr []" "decStr (JStr s) = Inr s" "decStr JNull = Inr []"
  "decBool (JBool b) = Inr b" "decBool JNull = Inr False" "decInt JNull = Inr 0"
  by (simp_all add: decStruct_def decMap_def decSlice_def decStr_def decBool_def decInt_def)

subsection \<open>Call\<close>

text \<open>
  \<open>rpcResponse\<close>: the raw result, absent when the key is, and the RPC error. A failed call of
  \<open>json.Decode\<close> on a body that is no JSON is \<open>None\<close> of \<open>rs_body\<close>.
\<close>

definition decodeResponse :: "json option \<Rightarrow> go_error + json option \<times> go_error option" where
  "decodeResponse body =
     (case body of
        None \<Rightarrow> Inl (ErrText ''invalid character in JSON text'')
      | Some v \<Rightarrow>
          ebind (decStruct v) (\<lambda>m.
          ebind (decInt (jfield m ''id'')) (\<lambda>_.
            case jfield m ''error'' of
              JNull \<Rightarrow> Inr (map_of m ''result'', None)
            | e \<Rightarrow>
                ebind (decStruct e) (\<lambda>em.
                ebind (decInt (jfield em ''code'')) (\<lambda>code.
                ebind (decStr (jfield em ''message'')) (\<lambda>msg.
                  Inr (map_of m ''result'', Some (RPCError code msg))))))))"

definition callPrefix :: "string \<Rightarrow> string \<Rightarrow> string" where
  "callPrefix rpc host = ''shelly: '' @ rpc @ '' '' @ host @ '': ''"

text \<open>
  \<open>Call\<close> up to the decoding of the result, which the typed calls below add. Two error returns
  before anything is sent have no counterpart: that of \<open>json.Marshal\<close>, which fails on a number
  that is not finite, and that of \<open>http.NewRequest\<close>, which fails on a host that makes no URL.
  Parameters are built from decoded JSON, and hosts are addresses that discovery probed.
\<close>

definition Call :: "'e sysops \<Rightarrow> golib \<Rightarrow> Client \<Rightarrow> string \<Rightarrow> json option \<Rightarrow> 'e world
    \<Rightarrow> (go_error + json option) \<times> Client \<times> 'e world" where
  "Call S G c rpc params w =
     (let p = callPrefix rpc (cl_host c);
          (r, c, w) = postRetrying S G c (rpcRequest rpc params) w;
          res = (case r of
              Inl err \<Rightarrow>
                (case errAs is_AuthError err of
                   Some authErr \<Rightarrow> Inl authErr
                 | None \<Rightarrow> Inl (ErrWrap p err))
            | Inr resp \<Rightarrow>
                if rs_code resp = 401 then Inl (AuthError (cl_host c))
                else if rs_code resp \<noteq> 200
                then Inl (ErrWrap p (StatusError (rs_status resp) (rs_text resp)))
                else
                  (case decodeResponse (rs_body resp) of
                     Inl err \<Rightarrow> Inl (ErrWrap (p @ ''decode: '') err)
                   | Inr (result, Some err) \<Rightarrow> Inl (ErrWrap p err)
                   | Inr (result, None) \<Rightarrow> Inr result))
      in (res, c, w))"

section \<open>The typed calls\<close>

text \<open>
  The rest of the package only uses \<open>Call\<close>, so it is written over any connection: the host it
  names in errors and the call itself on an arbitrary state \<open>'w\<close>.
\<close>

record 'w conn =
  cn_host :: string
  cn_call :: "string \<Rightarrow> json option \<Rightarrow> 'w \<Rightarrow> (go_error + json option) \<times> 'w"

definition callDec :: "'w conn \<Rightarrow> string \<Rightarrow> json option \<Rightarrow> (json \<Rightarrow> go_error + 'a) \<Rightarrow> 'w
    \<Rightarrow> (go_error + 'a) \<times> 'w" where
  "callDec cn rpc params dec w =
     (let (r, w) = cn_call cn rpc params w
      in case r of
           Inl err \<Rightarrow> (Inl err, w)
         | Inr result \<Rightarrow>
             (case dec (orNull result) of
                Inl err \<Rightarrow> (Inl (ErrWrap (callPrefix rpc (cn_host cn) @ ''unmarshal result: '') err), w)
              | Inr a \<Rightarrow> (Inr a, w)))"

definition callVoid :: "'w conn \<Rightarrow> string \<Rightarrow> json option \<Rightarrow> 'w \<Rightarrow> go_error option \<times> 'w" where
  "callVoid cn rpc params w =
     (let (r, w) = cn_call cn rpc params w
      in (case r of Inl err \<Rightarrow> Some err | Inr _ \<Rightarrow> None, w))"

text \<open>config.go\<close>

definition componentMethods :: "string gomap" where
  "componentMethods =
     [(''sys'', ''Sys''), (''wifi'', ''Wifi''), (''mqtt'', ''MQTT''), (''cloud'', ''Cloud''),
      (''ble'', ''BLE''), (''ws'', ''WS'')]"

definition setConfigResult :: "json \<Rightarrow> go_error + bool" where
  "setConfigResult v = ebind (decStruct v) (\<lambda>m. decBool (jfield m ''restart_required''))"

definition GetConfig :: "'w conn \<Rightarrow> 'w \<Rightarrow> (go_error + jmap) \<times> 'w" where
  "GetConfig cn w = callDec cn ''Shelly.GetConfig'' None decMap w"

definition configMethod :: "string \<Rightarrow> string" where
  "configMethod component =
     (case map_of componentMethods component of Some ns \<Rightarrow> ns | None \<Rightarrow> toUpper component) @ ''.SetConfig''"

definition SetConfig :: "'w conn \<Rightarrow> string \<Rightarrow> json \<Rightarrow> 'w \<Rightarrow> (go_error + bool) \<times> 'w" where
  "SetConfig cn component config w =
     callDec cn (configMethod component) (Some (JObj [(''config'', config)])) setConfigResult w"

definition SetSwitchConfig :: "'w conn \<Rightarrow> int \<Rightarrow> json \<Rightarrow> 'w \<Rightarrow> (go_error + bool) \<times> 'w" where
  "SetSwitchConfig cn i config w =
     callDec cn ''Switch.SetConfig'' (Some (JObj [(''id'', jInt i), (''config'', config)])) setConfigResult w"

text \<open>schedule.go\<close>

record ScheduleCall =
  sc_method :: string
  sc_params :: jmap

record ScheduleJob =
  j_id :: int
  j_enable :: bool
  j_timespec :: string
  j_calls :: "ScheduleCall list"

definition encCall :: "ScheduleCall \<Rightarrow> json" where
  "encCall c =
     JObj ([(''method'', JStr (sc_method c))] @
           (if sc_params c = [] then [] else [(''params'', JObj (sc_params c))]))"

definition decCall :: "json \<Rightarrow> go_error + ScheduleCall" where
  "decCall v =
     ebind (decStruct v) (\<lambda>m.
     ebind (decStr (jfield m ''method'')) (\<lambda>meth.
     ebind (decMap (jfield m ''params'')) (\<lambda>ps.
       Inr \<lparr>sc_method = meth, sc_params = ps\<rparr>)))"

definition decJob :: "json \<Rightarrow> go_error + ScheduleJob" where
  "decJob v =
     ebind (decStruct v) (\<lambda>m.
     ebind (decInt (jfield m ''id'')) (\<lambda>i.
     ebind (decBool (jfield m ''enable'')) (\<lambda>en.
     ebind (decStr (jfield m ''timespec'')) (\<lambda>ts.
     ebind (decSlice (jfield m ''calls'')) (\<lambda>cs.
     ebind (mapE decCall cs) (\<lambda>calls.
       Inr \<lparr>j_id = i, j_enable = en, j_timespec = ts, j_calls = calls\<rparr>))))))"

definition decJobs :: "json \<Rightarrow> go_error + ScheduleJob list" where
  "decJobs v =
     ebind (decStruct v) (\<lambda>m. ebind (decSlice (jfield m ''jobs'')) (\<lambda>js. mapE decJob js))"

definition jobParams :: "ScheduleJob \<Rightarrow> jmap" where
  "jobParams job =
     [(''enable'', JBool (j_enable job)), (''timespec'', JStr (j_timespec job)),
      (''calls'', JArr (map encCall (j_calls job)))]"

definition ListSchedules :: "'w conn \<Rightarrow> 'w \<Rightarrow> (go_error + ScheduleJob list) \<times> 'w" where
  "ListSchedules cn w = callDec cn ''Schedule.List'' None decJobs w"

definition CreateSchedule :: "'w conn \<Rightarrow> ScheduleJob \<Rightarrow> 'w \<Rightarrow> (go_error + int) \<times> 'w" where
  "CreateSchedule cn job w =
     (if j_calls job = [] then (Inl (ErrText ''shelly: CreateSchedule requires at least one call''), w)
      else callDec cn ''Schedule.Create'' (Some (JObj (jobParams job)))
             (\<lambda>v. ebind (decStruct v) (\<lambda>m. decInt (jfield m ''id''))) w)"

definition DeleteSchedule :: "'w conn \<Rightarrow> int \<Rightarrow> 'w \<Rightarrow> go_error option \<times> 'w" where
  "DeleteSchedule cn i w = callVoid cn ''Schedule.Delete'' (Some (JObj [(''id'', jInt i)])) w"

definition UpdateSchedule :: "'w conn \<Rightarrow> ScheduleJob \<Rightarrow> 'w \<Rightarrow> go_error option \<times> 'w" where
  "UpdateSchedule cn job w =
     (if j_calls job = [] then (Some (ErrText ''shelly: UpdateSchedule requires at least one call''), w)
      else callVoid cn ''Schedule.Update'' (Some (JObj ((''id'', jInt (j_id job)) # jobParams job))) w)"

text \<open>setauth.go, reboot.go, update.go, sysstatus.go\<close>

definition SetAuth :: "golib \<Rightarrow> 'w conn \<Rightarrow> string \<Rightarrow> string \<Rightarrow> 'w \<Rightarrow> go_error option \<times> 'w" where
  "SetAuth G cn deviceID password w =
     callVoid cn ''Shelly.SetAuth''
       (Some (JObj [(''user'', JStr ''admin''), (''realm'', JStr deviceID),
          (''ha1'', if password = [] then JNull
                    else JStr (sha256hex G (''admin:'' @ deviceID @ '':'' @ password)))])) w"

definition Reboot :: "'w conn \<Rightarrow> 'w \<Rightarrow> go_error option \<times> 'w" where
  "Reboot cn w = callVoid cn ''Shelly.Reboot'' None w"

definition Update :: "'w conn \<Rightarrow> string \<Rightarrow> 'w \<Rightarrow> go_error option \<times> 'w" where
  "Update cn stage w = callVoid cn ''Shelly.Update'' (Some (JObj [(''stage'', JStr stage)])) w"

record SysStatus =
  sys_stable :: "string option"
  sys_beta :: "string option"
  sys_restartRequired :: bool

definition decFirmwareUpdate :: "json \<Rightarrow> go_error + string option" where
  "decFirmwareUpdate v =
     (if v = JNull then Inr None
      else ebind (decStruct v) (\<lambda>m. ebind (decStr (jfield m ''version'')) (\<lambda>s. Inr (Some s))))"

definition decSysStatus :: "json \<Rightarrow> go_error + SysStatus" where
  "decSysStatus v =
     ebind (decStruct v) (\<lambda>m.
     ebind (decStruct (jfield m ''available_updates'')) (\<lambda>u.
     ebind (decFirmwareUpdate (jfield u ''stable'')) (\<lambda>st.
     ebind (decFirmwareUpdate (jfield u ''beta'')) (\<lambda>be.
     ebind (decBool (jfield m ''restart_required'')) (\<lambda>rr.
       Inr \<lparr>sys_stable = st, sys_beta = be, sys_restartRequired = rr\<rparr>)))))"

definition GetSysStatus :: "'w conn \<Rightarrow> 'w \<Rightarrow> (go_error + SysStatus) \<times> 'w" where
  "GetSysStatus cn w = callDec cn ''Sys.GetStatus'' None decSysStatus w"

text \<open>types.go and probe.go\<close>

record DeviceInfo =
  di_id :: string
  di_mac :: string
  di_model :: string
  di_gen :: int
  di_firmware :: string
  di_app :: string
  di_authEnabled :: bool
  di_name :: string

definition decDeviceInfo :: "json \<Rightarrow> go_error + DeviceInfo" where
  "decDeviceInfo v =
     ebind (decStruct v) (\<lambda>m.
     ebind (decStr (jfield m ''id'')) (\<lambda>i.
     ebind (decStr (jfield m ''mac'')) (\<lambda>mac.
     ebind (decStr (jfield m ''model'')) (\<lambda>model.
     ebind (decInt (jfield m ''gen'')) (\<lambda>gen.
     ebind (decStr (jfield m ''fw_id'')) (\<lambda>fw.
     ebind (decStr (jfield m ''app'')) (\<lambda>app.
     ebind (decBool (jfield m ''auth_en'')) (\<lambda>auth.
     ebind (decStr (jfield m ''name'')) (\<lambda>name.
       Inr \<lparr>di_id = i, di_mac = mac, di_model = model, di_gen = gen, di_firmware = fw,
            di_app = app, di_authEnabled = auth, di_name = name\<rparr>)))))))))"

definition Probe :: "'e sysops \<Rightarrow> string \<Rightarrow> 'e world \<Rightarrow> (go_error + DeviceInfo) \<times> 'e world" where
  "Probe S host w =
     (let (r, w) = httpW S \<lparr>rq_method = ''GET'', rq_host = host, rq_path = ''/shelly'', rq_auth = [],
                            rq_body = JNull\<rparr> w;
          p = ''shelly: probe '' @ host @ '': ''
      in (case r of
            Inl err \<Rightarrow> Inl (ErrWrap p err)
          | Inr resp \<Rightarrow>
              if rs_code resp \<noteq> 200 then Inl (ErrText (p @ ''unexpected status '' @ rs_status resp))
              else
                (case rs_body resp of
                   None \<Rightarrow> Inl (ErrText (p @ ''decode: invalid character in JSON text''))
                 | Some v \<Rightarrow>
                     (case decDeviceInfo v of
                        Inl err \<Rightarrow> Inl (ErrWrap (p @ ''decode: '') err)
                      | Inr info \<Rightarrow> Inr info)), w))"

end
