(* ===== verification/Fake_Device.thy ===== *)
theory Fake_Device
  imports Shelly_Client
begin

text \<open>
  \<open>internal/shelly/shellytest/server.go\<close>: the device emulator the repository tests its client
  and controllers against. It is the one description of a device the sources contain: HTTP
  dispatch, digest authentication, configuration with merge-on-write, schedule jobs and system
  status. Here it is the device that the interfaces of the client and of the controller are
  interpreted on.
\<close>

section \<open>State\<close>

record fakeDevice =
  fd_ID :: string
  fd_MAC :: string
  fd_Model :: string
  fd_App :: string
  fd_Gen :: int
  fd_Firmware :: string
  fd_Name :: string
  fd_RestartOnSetConfig :: bool
  fd_SetConfigError :: string
  fd_IgnoreSetConfig :: bool
  fd_GetConfigErrorAfter :: int
  fd_AvailableUpdates :: jmap
  fd_RestartRequired :: bool
  fd_UpdateError :: string
  fd_UpdateDropConnection :: bool
  fd_ha1 :: string
  fd_config :: "jmap gomap"
  fd_calls :: "(string \<times> json option) list"
  fd_challengesSent :: nat
  fd_getConfigCalls :: int
  fd_schedules :: "jmap list"
  fd_scheduleRev :: int
  fd_nextSchedID :: int

abbreviation testNonce :: string where
  "testNonce \<equiv> ''testnonce1''"

section \<open>Merging\<close>

fun merge :: "jmap \<Rightarrow> jmap \<Rightarrow> jmap" where
  "merge out [] = out"
| "merge out ((k, v) # src) =
     merge (AList.update k
              (case v of
                 JObj sm \<Rightarrow> JObj (merge (asMap (map_of out k)) sm)
               | _ \<Rightarrow> v) out) src"

text \<open>
  \<open>New\<close>: the given fields, the initial configuration and schedules copied, the schedule ids
  counted from 1 and the credential hash derived from the initial password.
\<close>

fun seedSchedules :: "int \<Rightarrow> jmap list \<Rightarrow> jmap list" where
  "seedSchedules n [] = []"
| "seedSchedules n (j # js) = AList.update ''id'' (jInt n) (merge [] j) # seedSchedules (n + 1) js"

definition New :: "golib \<Rightarrow> fakeDevice \<Rightarrow> string \<Rightarrow> jmap gomap \<Rightarrow> jmap list \<Rightarrow> fakeDevice" where
  "New G d password initialConfig initialSchedules =
     d\<lparr>fd_config := map (\<lambda>(comp, cfg). (comp, merge [] cfg)) initialConfig,
       fd_schedules := seedSchedules 1 initialSchedules,
       fd_nextSchedID := 1 + int (length initialSchedules),
       fd_ha1 := if password = [] then [] else sha256hex G (''admin:'' @ fd_ID d @ '':'' @ password)\<rparr>"

section \<open>Handlers\<close>

definition rpcResult :: "int \<Rightarrow> json \<Rightarrow> json" where
  "rpcResult i result = JObj [(''id'', jInt i), (''result'', result)]"

definition rpcError :: "int \<Rightarrow> int \<Rightarrow> string \<Rightarrow> json" where
  "rpcError i code msg =
     JObj [(''id'', jInt i), (''error'', JObj [(''code'', jInt code), (''message'', JStr msg)])]"

definition deviceInfo :: "fakeDevice \<Rightarrow> json" where
  "deviceInfo d =
     JObj [(''id'', JStr (fd_ID d)), (''mac'', JStr (fd_MAC d)), (''model'', JStr (fd_Model d)),
           (''gen'', jInt (fd_Gen d)), (''fw_id'', JStr (fd_Firmware d)), (''app'', JStr (fd_App d)),
           (''auth_en'', JBool (fd_ha1 d \<noteq> [])),
           (''name'', if fd_Name d \<noteq> [] then JStr (fd_Name d) else JNull)]"

text \<open>Decoding a pointer field: nil when missing or null.\<close>

definition decOpt :: "(json \<Rightarrow> go_error + 'a) \<Rightarrow> json \<Rightarrow> go_error + 'a option" where
  "decOpt dec v = (if v = JNull then Inr None else ebind (dec v) (\<lambda>a. Inr (Some a)))"

text \<open>\<open>json.Unmarshal(params, ...)\<close> on the raw parameters, which are empty when absent.\<close>

definition decParams :: "json option \<Rightarrow> go_error + jmap" where
  "decParams params =
     (case params of None \<Rightarrow> Inl (ErrText ''unexpected end of JSON input'') | Some v \<Rightarrow> decStruct v)"

definition handleGetConfig :: "int \<Rightarrow> fakeDevice \<Rightarrow> json \<times> fakeDevice" where
  "handleGetConfig i d =
     (if fd_GetConfigErrorAfter d > 0 \<and> fd_getConfigCalls d \<ge> fd_GetConfigErrorAfter d
      then (rpcError i (-108) ''config read failed'', d)
      else (rpcResult i (JObj (map (\<lambda>(k, m). (k, JObj m)) (fd_config d))),
            d\<lparr>fd_getConfigCalls := fd_getConfigCalls d + 1\<rparr>))"

definition handleSetAuth :: "int \<Rightarrow> json option \<Rightarrow> fakeDevice \<Rightarrow> json \<times> fakeDevice" where
  "handleSetAuth i params d =
     (let bad = (rpcError i (-103) ''invalid SetAuth params'', d)
      in case ebind (decParams params) (\<lambda>m.
              ebind (decStr (jfield m ''user'')) (\<lambda>user.
              ebind (decStr (jfield m ''realm'')) (\<lambda>realm.
              ebind (decOpt decStr (jfield m ''ha1'')) (\<lambda>ha1. Inr (user, realm, ha1))))) of
           Inl err \<Rightarrow> bad
         | Inr (user, realm, ha1) \<Rightarrow>
             if user \<noteq> ''admin'' \<or> realm \<noteq> fd_ID d then bad
             else if ha1 = Some [] then bad
             else (rpcResult i JNull,
                   d\<lparr>fd_ha1 := (case ha1 of None \<Rightarrow> [] | Some h \<Rightarrow> h)\<rparr>))"

definition handleSysGetStatus :: "int \<Rightarrow> fakeDevice \<Rightarrow> json \<times> fakeDevice" where
  "handleSysGetStatus i d =
     (rpcResult i (JObj [(''available_updates'', JObj (fd_AvailableUpdates d)),
                         (''restart_required'', JBool (fd_RestartRequired d))]), d)"

definition handleReboot :: "int \<Rightarrow> fakeDevice \<Rightarrow> json \<times> fakeDevice" where
  "handleReboot i d = (rpcResult i (JObj []), d\<lparr>fd_RestartRequired := False\<rparr>)"

definition handleUpdate :: "int \<Rightarrow> fakeDevice \<Rightarrow> json \<times> fakeDevice" where
  "handleUpdate i d =
     (if fd_UpdateError d \<noteq> [] then (rpcError i (-114) (fd_UpdateError d), d)
      else (rpcResult i JNull, d\<lparr>fd_AvailableUpdates := []\<rparr>))"

definition handleScheduleList :: "int \<Rightarrow> fakeDevice \<Rightarrow> json \<times> fakeDevice" where
  "handleScheduleList i d =
     (rpcResult i (JObj [(''jobs'', JArr (map JObj (fd_schedules d))),
                         (''rev'', jInt (fd_scheduleRev d))]), d)"

definition handleScheduleCreate :: "int \<Rightarrow> json option \<Rightarrow> fakeDevice \<Rightarrow> json \<times> fakeDevice" where
  "handleScheduleCreate i params d =
     (let bad = (rpcError i (-103) ''invalid Schedule.Create params'', d)
      in case decParams params of
           Inl err \<Rightarrow> bad
         | Inr p \<Rightarrow>
             if jfield p ''timespec'' = JNull \<or> jfield p ''calls'' = JNull then bad
             else
               (let job = AList.update ''id'' (jInt (fd_nextSchedID d)) (merge [] p);
                    rev = fd_scheduleRev d + 1
                in (rpcResult i (JObj [(''id'', jInt (fd_nextSchedID d)), (''rev'', jInt rev)]),
                    d\<lparr>fd_schedules := fd_schedules d @ [job], fd_nextSchedID := fd_nextSchedID d + 1,
                      fd_scheduleRev := rev\<rparr>)))"

text \<open>\<open>idOf\<close>: \<open>int(n)\<close> truncates a fractional number towards zero.\<close>

definition idOf :: "json \<Rightarrow> int" where
  "idOf v =
     (case v of
        JNum (Fin r) \<Rightarrow> if r < 0 then \<lceil>r\<rceil> else \<lfloor>r\<rfloor>
      | _ \<Rightarrow> -1)"

fun findJob :: "int \<Rightarrow> jmap list \<Rightarrow> nat option" where
  "findJob i [] = None"
| "findJob i (j # js) =
     (if idOf (jfield j ''id'') = i then Some 0 else map_option Suc (findJob i js))"

definition handleScheduleUpdate :: "int \<Rightarrow> json option \<Rightarrow> fakeDevice \<Rightarrow> json \<times> fakeDevice" where
  "handleScheduleUpdate i params d =
     (let bad = (rpcError i (-103) ''invalid Schedule.Update params'', d)
      in case ebind (decParams params) (\<lambda>m.
              ebind (decOpt decInt (jfield m ''id'')) (\<lambda>pid.
              ebind (decOpt decBool (jfield m ''enable'')) (\<lambda>_.
              ebind (decOpt decStr (jfield m ''timespec'')) (\<lambda>_. Inr (pid, m))))) of
           Inl err \<Rightarrow> bad
         | Inr (None, m) \<Rightarrow> bad
         | Inr (Some pid, raw) \<Rightarrow>
             (case findJob pid (fd_schedules d) of
                None \<Rightarrow> (rpcError i (-103) (''schedule job '' @ itoa pid @ '' not found''), d)
              | Some idx \<Rightarrow>
                  (let rev = fd_scheduleRev d + 1
                   in (rpcResult i (JObj [(''rev'', jInt rev)]),
                       d\<lparr>fd_schedules := (fd_schedules d)[idx := merge (fd_schedules d ! idx) raw],
                         fd_scheduleRev := rev\<rparr>))))"

definition handleScheduleDelete :: "int \<Rightarrow> json option \<Rightarrow> fakeDevice \<Rightarrow> json \<times> fakeDevice" where
  "handleScheduleDelete i params d =
     (let bad = (rpcError i (-103) ''invalid Schedule.Delete params'', d)
      in case ebind (decParams params) (\<lambda>m. decOpt decInt (jfield m ''id'')) of
           Inl err \<Rightarrow> bad
         | Inr None \<Rightarrow> bad
         | Inr (Some pid) \<Rightarrow>
             (case findJob pid (fd_schedules d) of
                None \<Rightarrow> (rpcError i (-103) (''schedule job '' @ itoa pid @ '' not found''), d)
              | Some idx \<Rightarrow>
                  (let rev = fd_scheduleRev d + 1
                   in (rpcResult i (JObj [(''rev'', jInt rev)]),
                       d\<lparr>fd_schedules := take idx (fd_schedules d) @ drop (idx + 1) (fd_schedules d),
                         fd_scheduleRev := rev\<rparr>))))"

definition handleSetConfig :: "int \<Rightarrow> string \<Rightarrow> json option \<Rightarrow> fakeDevice \<Rightarrow> json \<times> fakeDevice" where
  "handleSetConfig i rpc params d =
     (let done = rpcResult i (JObj [(''restart_required'', JBool (fd_RestartOnSetConfig d))])
      in if fd_SetConfigError d \<noteq> [] then (rpcError i (-114) (fd_SetConfigError d), d)
         else if fd_IgnoreSetConfig d then (done, d)
         else
           (let comp = toLower (trimSuffix rpc ''.SetConfig'')
            in case ebind (decParams params) (\<lambda>m.
                    ebind (decOpt decInt (jfield m ''id'')) (\<lambda>pid.
                    ebind (decOpt decMap (jfield m ''config'')) (\<lambda>config. Inr (pid, config)))) of
                 Inr (pid, Some config) \<Rightarrow>
                   (let comp = (case pid of None \<Rightarrow> comp | Some n \<Rightarrow> comp @ '':'' @ itoa n);
                        old = (case map_of (fd_config d) comp of None \<Rightarrow> [] | Some m \<Rightarrow> m)
                    in (done, d\<lparr>fd_config := AList.update comp (merge old config) (fd_config d)\<rparr>))
               | _ \<Rightarrow> (rpcError i (-103) ''invalid params'', d)))"

text \<open>The \<open>switch\<close> of \<open>handleRPC\<close>; \<open>None\<close> when the connection is dropped without an answer.\<close>

definition dispatch :: "int \<Rightarrow> string \<Rightarrow> json option \<Rightarrow> fakeDevice \<Rightarrow> json option \<times> fakeDevice" where
  "dispatch i rpc params d =
     (if rpc = ''Shelly.GetDeviceInfo'' then (Some (rpcResult i (deviceInfo d)), d)
      else if rpc = ''Shelly.GetConfig'' then apfst Some (handleGetConfig i d)
      else if rpc = ''Shelly.SetAuth'' then apfst Some (handleSetAuth i params d)
      else if rpc = ''Sys.GetStatus'' then apfst Some (handleSysGetStatus i d)
      else if rpc = ''Shelly.Reboot'' then apfst Some (handleReboot i d)
      else if rpc = ''Shelly.Update'' \<and> fd_UpdateDropConnection d then (None, d)
      else if rpc = ''Shelly.Update'' then apfst Some (handleUpdate i d)
      else if rpc = ''Schedule.List'' then apfst Some (handleScheduleList i d)
      else if rpc = ''Schedule.Create'' then apfst Some (handleScheduleCreate i params d)
      else if rpc = ''Schedule.Update'' then apfst Some (handleScheduleUpdate i params d)
      else if rpc = ''Schedule.Delete'' then apfst Some (handleScheduleDelete i params d)
      else if hasSuffix rpc ''.SetConfig'' then apfst Some (handleSetConfig i rpc params d)
      else (Some (rpcError i 404 (''No handler for '' @ rpc)), d))"

definition authorized :: "golib \<Rightarrow> fakeDevice \<Rightarrow> http_request \<Rightarrow> bool" where
  "authorized G d rq =
     (let h = rq_auth rq
      in if \<not> hasPrefix h ''Digest '' then False
         else
           (let f = fieldsMap h
            in if mgetS f ''username'' \<noteq> ''admin'' \<or> mgetS f ''realm'' \<noteq> fd_ID d
                  \<or> mgetS f ''nonce'' \<noteq> testNonce \<or> mgetS f ''uri'' \<noteq> rq_path rq
               then False
               else
                 (let ha2 = sha256hex G (rq_method rq @ '':'' @ mgetS f ''uri'');
                      want = sha256hex G (joinStrings [fd_ha1 d, mgetS f ''nonce'', mgetS f ''nc'',
                               mgetS f ''cnonce'', ''auth'', ha2] '':'')
                  in mgetS f ''response'' \<noteq> [] \<and> mgetS f ''response'' = want)))"

definition okResponse :: "json \<Rightarrow> http_response" where
  "okResponse v = \<lparr>rs_code = 200, rs_status = ''200 OK'', rs_authenticate = [], rs_body = Some v, rs_text = []\<rparr>"

definition challengeHeader :: "string \<Rightarrow> string" where
  "challengeHeader realm =
     ''Digest qop='' @ quoted ''auth'' @ '', realm='' @ quoted realm @ '', nonce='' @ quoted testNonce
     @ '', algorithm=SHA-256''"

definition handleRPC :: "golib \<Rightarrow> http_request \<Rightarrow> fakeDevice \<Rightarrow> http_response option \<times> fakeDevice" where
  "handleRPC G rq d =
     (if fd_ha1 d \<noteq> [] \<and> \<not> authorized G d rq
      then (Some \<lparr>rs_code = 401, rs_status = ''401 Unauthorized'',
                  rs_authenticate = challengeHeader (fd_ID d), rs_body = None, rs_text = []\<rparr>,
            d\<lparr>fd_challengesSent := fd_challengesSent d + 1\<rparr>)
      else
        (case ebind (decStruct (rq_body rq)) (\<lambda>m.
              ebind (decInt (jfield m ''id'')) (\<lambda>i.
              ebind (decStr (jfield m ''method'')) (\<lambda>rpc. Inr (i, rpc, map_of m ''params'')))) of
           Inl err \<Rightarrow>
             (Some \<lparr>rs_code = 400, rs_status = ''400 Bad Request'', rs_authenticate = [],
                    rs_body = None, rs_text = errText err @ [CHR 0x0A]\<rparr>, d)
         | Inr (i, rpc, params) \<Rightarrow>
             apfst (map_option okResponse)
               (dispatch i rpc params (d\<lparr>fd_calls := fd_calls d @ [(rpc, params)]\<rparr>))))"

definition handleProbe :: "fakeDevice \<Rightarrow> http_response" where
  "handleProbe d = okResponse (deviceInfo d)"

text \<open>The mux of \<open>New\<close>: the two routes, and the answers of \<open>net/http\<close> for everything else.\<close>

definition serve :: "golib \<Rightarrow> http_request \<Rightarrow> fakeDevice \<Rightarrow> http_response option \<times> fakeDevice" where
  "serve G rq d =
     (if rq_path rq = ''/shelly'' \<and> rq_method rq = ''GET'' then (Some (handleProbe d), d)
      else if rq_path rq = ''/rpc'' \<and> rq_method rq = ''POST'' then handleRPC G rq d
      else if rq_path rq = ''/shelly'' \<or> rq_path rq = ''/rpc''
      then (Some \<lparr>rs_code = 405, rs_status = ''405 Method Not Allowed'', rs_authenticate = [],
                  rs_body = None, rs_text = ''Method Not Allowed'' @ [CHR 0x0A]\<rparr>, d)
      else (Some \<lparr>rs_code = 404, rs_status = ''404 Not Found'', rs_authenticate = [],
                  rs_body = None, rs_text = ''404 page not found'' @ [CHR 0x0A]\<rparr>, d))"

text \<open>
  A connection straight to the handlers, past HTTP and authentication: what a call means to a
  caller whose credentials are accepted.
\<close>

definition directCall :: "string \<Rightarrow> string \<Rightarrow> json option \<Rightarrow> fakeDevice
    \<Rightarrow> (go_error + json option) \<times> fakeDevice" where
  "directCall host rpc params d =
     (let p = callPrefix rpc host;
          (a, d) = dispatch 1 rpc params (d\<lparr>fd_calls := fd_calls d @ [(rpc, params)]\<rparr>)
      in (case a of
            None \<Rightarrow> Inl (ErrWrap p (ErrText ''EOF''))
          | Some v \<Rightarrow>
              (case decodeResponse (Some v) of
                 Inl err \<Rightarrow> Inl (ErrWrap (p @ ''decode: '') err)
               | Inr (result, Some err) \<Rightarrow> Inl (ErrWrap p err)
               | Inr (result, None) \<Rightarrow> Inr result), d))"

definition directConn :: "string \<Rightarrow> fakeDevice conn" where
  "directConn host = \<lparr>cn_host = host, cn_call = directCall host\<rparr>"

section \<open>What merging does\<close>

lemma merge_wfjm: "wfjm out \<Longrightarrow> wfjm src \<Longrightarrow> wfjm (merge out src)"
proof (induction out src rule: merge.induct)
  case (2 out k v src)
  have "wfj (case v of JObj sm \<Rightarrow> JObj (merge (asMap (map_of out k)) sm) | _ \<Rightarrow> v)"
    using 2 by (cases v) (auto simp: wfjm_asMap)
  then show ?case using 2 by simp
qed simp

definition mergeVal :: "json option \<Rightarrow> json \<Rightarrow> json" where
  "mergeVal old v = (case v of JObj sm \<Rightarrow> JObj (merge (asMap old) sm) | _ \<Rightarrow> v)"

lemma mergeVal_simps [simp]:
  "mergeVal old (JObj sm) = JObj (merge (asMap old) sm)"
  "\<not> is_JObj v \<Longrightarrow> mergeVal old v = v"
  by (simp_all add: mergeVal_def is_JObj_def split: json.splits)

lemma merge_Cons: "merge out ((k, v) # src) = merge (AList.update k (mergeVal (map_of out k) v) out) src"
  by (simp add: mergeVal_def)

lemma map_of_merge_json:
  "wfmap src \<Longrightarrow>
   map_of (merge out src) k =
     (case map_of src k of None \<Rightarrow> map_of out k | Some v \<Rightarrow> Some (mergeVal (map_of out k) v))"
proof (induction src arbitrary: out)
  case (Cons p src)
  obtain k' v where p: "p = (k', v)" by (cases p)
  have "map_of src k' = None" using Cons.prems by (simp add: p map_of_eq_None_iff)
  then show ?case
    using Cons.IH [of "AList.update k' (mergeVal (map_of out k') v) out"] Cons.prems
    by (cases "k = k'") (simp_all add: p merge_Cons map_of_update del: merge.simps split: option.split)
qed simp

lemma merge_leaf:
  "wfjm src \<Longrightarrow> leafAt src ks v \<Longrightarrow> jget (merge out src) ks = Some v"
proof (induction src ks arbitrary: out rule: jget.induct)
  case (2 m k)
  then show ?case by (simp add: map_of_merge_json wfjm_wfmap)
next
  case (3 m k k' ks)
  then obtain sm where sm: "map_of m k = Some (JObj sm)"
    by (cases "map_of m k"; cases "the (map_of m k)"; simp)
  then have "wfjm sm" using wfjm_lookup [OF 3(2) sm] by simp
  then have "jget (merge (asMap (map_of out k)) sm) (k' # ks) = Some v"
    using 3 sm by simp
  then show ?case using sm 3(2) by (simp add: map_of_merge_json wfjm_wfmap)
qed simp

text \<open>Values the source does not reach through are kept.\<close>

fun touches :: "jmap \<Rightarrow> string list \<Rightarrow> bool" where
  "touches m [] \<longleftrightarrow> False"
| "touches m (k # ks) \<longleftrightarrow>
     (case map_of m k of
        None \<Rightarrow> False
      | Some (JObj sm) \<Rightarrow> ks = [] \<or> touches sm ks
      | Some _ \<Rightarrow> True)"

lemma merge_frame:
  "wfjm src \<Longrightarrow> \<not> touches src ks \<Longrightarrow> jget (merge out src) ks = jget out ks"
proof (induction src ks arbitrary: out rule: jget.induct)
  case (2 m k)
  then show ?case
    by (auto simp: map_of_merge_json wfjm_wfmap split: option.splits json.splits)
next
  case (3 m k k' ks)
  show ?case
  proof (cases "map_of m k")
    case None
    then show ?thesis using 3(2) by (simp add: map_of_merge_json wfjm_wfmap)
  next
    case (Some v)
    then obtain sm where sm: "map_of m k = Some (JObj sm)" "\<not> touches sm (k' # ks)"
      using 3(3) by (cases v) (simp_all del: touches.simps(2), simp_all)
    have "wfjm sm" using wfjm_lookup [OF 3(2) sm(1)] by simp
    then show ?thesis using 3(1) [of "asMap (map_of out k)"] sm 3(2)
      by (simp add: map_of_merge_json wfjm_wfmap del: touches.simps(2))
  qed
qed simp

section \<open>What tests read\<close>

definition RecordedCalls :: "fakeDevice \<Rightarrow> (string \<times> json option) list" where
  "RecordedCalls d = fd_calls d"

definition ConfigSnapshot :: "fakeDevice \<Rightarrow> jmap gomap" where
  "ConfigSnapshot d = map (\<lambda>(comp, cfg). (comp, merge [] cfg)) (fd_config d)"

definition ScheduleSnapshot :: "fakeDevice \<Rightarrow> jmap list" where
  "ScheduleSnapshot d = map (merge []) (fd_schedules d)"

definition Challenges :: "fakeDevice \<Rightarrow> int" where
  "Challenges d = fd_challengesSent d"

definition AuthEnabled :: "fakeDevice \<Rightarrow> bool" where
  "AuthEnabled d \<longleftrightarrow> fd_ha1 d \<noteq> []"

text \<open>Merging into nothing copies, so the snapshots show the state as it is.\<close>

lemma update_absent: "k \<notin> fst ` set al \<Longrightarrow> AList.update k v al = al @ [(k, v)]"
  by (induction al) auto

lemma merge_absent:
  "wfjm src \<Longrightarrow> fst ` set out \<inter> fst ` set src = {} \<Longrightarrow> merge out src = out @ src"
proof (induction out src rule: merge.induct)
  case (2 out k v src)
  have k: "k \<notin> fst ` set out" "k \<notin> fst ` set src" using 2(3,4) by (auto simp: wfjm_Cons)
  then have "map_of out k = None" by (simp add: map_of_eq_None_iff)
  moreover have "merge [] sm = sm" if "v = JObj sm" for sm
    using 2(1) [OF that] 2(3) that calculation by (simp add: wfjm_Cons asMap_simps)
  ultimately have v: "mergeVal (map_of out k) v = v" by (cases v) (simp_all add: mergeVal_def asMap_simps)
  have "merge (out @ [(k, v)]) src = (out @ [(k, v)]) @ src"
    using 2(2) 2(3,4) k v by (simp add: merge_Cons update_absent mergeVal_def wfjm_Cons)
  then show ?case using k(1) v by (simp add: merge_Cons update_absent del: merge.simps)
qed simp

lemma snapshots_exact:
  "list_all (\<lambda>(comp, cfg). wfjm cfg) (fd_config d) \<Longrightarrow> ConfigSnapshot d = fd_config d"
  "list_all wfjm (fd_schedules d) \<Longrightarrow> ScheduleSnapshot d = fd_schedules d"
  by (auto simp: ConfigSnapshot_def ScheduleSnapshot_def list_all_iff merge_absent intro!: map_idI)

end
