(* ===== verification/Effects.thy ===== *)
theory Effects
  imports Shelly_Client
begin

text \<open>
  What the operator's actions leave in the trace. \<open>ext P w w'\<close> says that going from \<open>w\<close> to \<open>w'\<close>
  appended only effects that the policy \<open>P\<close> allows; the locale \<open>confined_conn\<close> is the contract of
  a connection whose allowed methods keep to a policy, and the connections of the client keep it.
\<close>

section \<open>Requests of one call\<close>

definition rpcHttp :: "Client \<Rightarrow> json \<Rightarrow> string \<Rightarrow> http_request" where
  "rpcHttp c payload auth =
     \<lparr>rq_method = ''POST'', rq_host = cl_host c, rq_path = ''/rpc'', rq_auth = auth, rq_body = payload\<rparr>"

text \<open>A request this client sends for this payload.\<close>

definition isPost :: "Client \<Rightarrow> json \<Rightarrow> effect \<Rightarrow> bool" where
  "isPost c payload x \<longleftrightarrow> (\<exists>auth. x = Http (rpcHttp c payload auth))"

lemma authHeader_state:
  assumes "authHeader S G c w = (h, c', w')"
  shows "w_trace w' = w_trace w \<and> cl_host c' = cl_host c \<and> cl_password c' = cl_password c"
  using assms by (auto simp: authHeader_def askEnv_def Let_def split_beta split: option.splits if_splits)

lemma setChallenge_state:
  "setChallenge c h = Inr c' \<Longrightarrow> cl_host c' = cl_host c \<and> cl_password c' = cl_password c"
  by (auto simp: setChallenge_def Let_def split: if_splits)

lemma sendRpc_trace:
  "sendRpc S c payload h w = (r, w') \<Longrightarrow> w_trace w' = w_trace w @ [Http (rpcHttp c payload h)]"
  using trace_httpW [of S "rpcHttp c payload h" w] by (simp add: sendRpc_def rpcHttp_def)

lemma isPost_host: "cl_host c' = cl_host c \<Longrightarrow> isPost c' payload = isPost c payload"
  by (simp add: isPost_def rpcHttp_def fun_eq_iff)

lemma isPost_rpcHttp [simp]: "isPost c payload (Http (rpcHttp c payload h))"
  by (auto simp: isPost_def)

text \<open>One \<open>post\<close> sends one request, or two when it answers a challenge.\<close>

lemma post_trace:
  assumes "post S G c payload w = (r, c', w')"
  shows "cl_host c' = cl_host c \<and>
    (\<exists>xs. w_trace w' = w_trace w @ xs \<and> xs \<noteq> [] \<and> length xs \<le> 2 \<and> list_all (isPost c payload) xs)"
proof -
  obtain h c1 w1 where h1: "authHeader S G c w = (h, c1, w1)" by (metis prod_cases3)
  note f1 = authHeader_state [OF h1]
  obtain r2 w2 where s2: "sendRpc S c1 payload h w1 = (r2, w2)" by force
  have t2: "w_trace w2 = w_trace w @ [Http (rpcHttp c1 payload h)]"
    using sendRpc_trace [OF s2] f1 by simp
  have ip: "isPost c payload (Http (rpcHttp x payload g))" if "cl_host x = cl_host c" for x g
    using that by (auto simp: isPost_def rpcHttp_def)
  show ?thesis
  proof (cases "\<exists>resp c3. r2 = Inr resp \<and> rs_code resp = 401 \<and> cl_password c1 \<noteq> [] \<and>
      setChallenge c1 (rs_authenticate resp) = Inr c3")
    case False
    then have "c' = c1" "w' = w2"
      using assms by (auto simp: post_def h1 s2 split: sum.splits if_splits)
    then show ?thesis using f1 t2 ip [of c1 h] by simp
  next
    case True
    then obtain resp c3 where c3: "r2 = Inr resp" "rs_code resp = 401" "cl_password c1 \<noteq> []"
        "setChallenge c1 (rs_authenticate resp) = Inr c3" by blast
    obtain h4 c4 w4 where h4: "authHeader S G c3 w2 = (h4, c4, w4)" by (metis prod_cases3)
    obtain r5 w5 where s5: "sendRpc S c4 payload h4 w4 = (r5, w5)" by force
    have "c' = c4" "w' = w5" using assms c3 by (auto simp: post_def h1 s2 h4 s5)
    moreover have "w_trace w5 = w_trace w @ [Http (rpcHttp c1 payload h), Http (rpcHttp c4 payload h4)]"
      using sendRpc_trace [OF s5] authHeader_state [OF h4] t2 by simp
    moreover have "cl_host c4 = cl_host c"
      using f1 setChallenge_state [OF c3(4)] authHeader_state [OF h4] by simp
    ultimately show ?thesis using f1 ip [of c1 h] ip [of c4 h4] by simp
  qed
qed

lemma postLoop_trace:
  assumes "postLoop k S G delay c payload w = (r, c', w')"
  shows "cl_host c' = cl_host c \<and>
    (\<exists>xs. w_trace w' = w_trace w @ xs \<and> xs \<noteq> [] \<and> length xs \<le> 2 * Suc k \<and> list_all (isPost c payload) xs)"
  using assms
proof (induction k arbitrary: c w)
  case 0
  obtain r1 c1 w1 where p: "post S G c payload w = (r1, c1, w1)" by (metis prod_cases3)
  have "c' = c1" "w' = w1" using 0 by (auto simp: postLoop.simps [of 0] p split: sum.splits if_splits)
  then show ?case using post_trace [OF p] by simp
next
  case (Suc k)
  obtain r1 c1 w1 where p: "post S G c payload w = (r1, c1, w1)" by (metis prod_cases3)
  obtain ended w2 where e: "askEnv (waitRetry S delay) w1 = (ended, w2)" by force
  have t2: "w_trace w2 = w_trace w1" using trace_askEnv [of "waitRetry S delay" w1] by (simp add: e)
  from post_trace [OF p] obtain xs where xs: "cl_host c1 = cl_host c" "w_trace w1 = w_trace w @ xs"
      "xs \<noteq> []" "length xs \<le> 2" "list_all (isPost c payload) xs" by blast
  show ?case
  proof (cases "\<exists>resp. r1 = Inr resp \<and> rs_code resp = 429 \<and> ended = None")
    case False
    then have "c' = c1" "w_trace w' = w_trace w1"
      using Suc.prems t2 by (auto simp: postLoop.simps [of "Suc k"] p e split: sum.splits if_splits option.splits)
    then show ?thesis using xs by (intro conjI exI [of _ xs]) simp_all
  next
    case True
    then have rec: "postLoop k S G delay c1 payload w2 = (r, c', w')"
      using Suc.prems by (auto simp: postLoop.simps [of "Suc k"] p e)
    from Suc.IH [OF rec] obtain ys where "cl_host c' = cl_host c1" "w_trace w' = w_trace w2 @ ys"
        "length ys \<le> 2 * Suc k" "list_all (isPost c1 payload) ys" by blast
    then show ?thesis
      using xs t2 isPost_host [OF xs(1), of payload] by (intro conjI exI [of _ "xs @ ys"]) simp_all
  qed
qed

lemma Call_trace:
  assumes "Call S G c rpc params w = (r, c', w')"
  shows "cl_host c' = cl_host c \<and>
    (\<exists>xs. w_trace w' = w_trace w @ xs \<and> xs \<noteq> [] \<and> length xs \<le> 6 \<and>
       list_all (isPost c (rpcRequest rpc params)) xs)"
proof -
  obtain r0 c1 w1 where p: "postLoop 2 S G (if cl_retryDelay c \<le> 0 then defaultRetryDelay else cl_retryDelay c)
      c (rpcRequest rpc params) w = (r0, c1, w1)" by (metis prod_cases3)
  have "c' = c1" "w' = w1"
    using assms by (simp_all add: Call_def postRetrying_def p Let_def split del: if_split)
  then show ?thesis using postLoop_trace [OF p] by simp
qed

section \<open>Extending a trace under a policy\<close>

definition ext :: "(effect \<Rightarrow> bool) \<Rightarrow> 'e world \<Rightarrow> 'e world \<Rightarrow> bool" where
  "ext P w w' \<longleftrightarrow> (\<exists>xs. w_trace w' = w_trace w @ xs \<and> list_all P xs)"

named_theorems traced "operations that extend the trace under a policy"

lemma extI: "w_trace w' = w_trace w @ xs \<Longrightarrow> list_all P xs \<Longrightarrow> ext P w w'"
  by (auto simp: ext_def)

lemma ext_same: "w_trace w' = w_trace w \<Longrightarrow> ext P w w'"
  by (simp add: ext_def)

lemma ext_refl [simp]: "ext P w w"
  by (simp add: ext_same)

lemma ext_trans [trans]: "ext P w w1 \<Longrightarrow> ext P w1 w2 \<Longrightarrow> ext P w w2"
  by (auto simp: ext_def)

lemma ext_mono: "ext P w w' \<Longrightarrow> (\<And>x. P x \<Longrightarrow> Q x) \<Longrightarrow> ext Q w w'"
  by (auto simp: ext_def list_all_iff)

lemma ext_askEnv: "askEnv f w = (a, w') \<Longrightarrow> ext P w w'"
  using trace_askEnv [of f w] by (simp add: ext_same)

lemma ext_emit: "P (Event a b c) \<Longrightarrow> ext P w (emit a b c w)"
  by (rule extI [of _ _ "[Event a b c]"]) simp_all

text \<open>
  The discipline of the device controller. Requests carry one of the given methods (the
  unauthenticated probe counts as a method of its own). A patch of
  the status keeps the fields that discovery owns. A patch of the object changes only labels and
  the annotation that belong to the registry.
\<close>

definition discoveryKept :: "ShellyDevice \<Rightarrow> ShellyDevice \<Rightarrow> bool" where
  "discoveryKept b d \<longleftrightarrow>
     (let s = d_status b; t = d_status d
      in st_address t = st_address s \<and> st_mac t = st_mac s \<and> st_model t = st_model s \<and> st_app t = st_app s \<and>
         st_gen t = st_gen s \<and> st_firmware t = st_firmware s \<and> st_authEnabled t = st_authEnabled s \<and>
         st_deviceName t = st_deviceName s \<and> st_online t = st_online s \<and> st_lastSeen t = st_lastSeen s)"

definition registryKey :: "string \<Rightarrow> bool" where
  "registryKey k \<longleftrightarrow> k = LabelRoom \<or> k = LabelAppliance \<or> hasPrefix k LabelRegistryPrefix"

definition foreignKept :: "ObjectMeta \<Rightarrow> ObjectMeta \<Rightarrow> bool" where
  "foreignKept m n \<longleftrightarrow>
     (\<forall>k. \<not> registryKey k \<longrightarrow> map_of (m_labels n) k = map_of (m_labels m) k) \<and>
     (\<forall>k. k \<noteq> AnnotationNote \<longrightarrow> map_of (m_annotations n) k = map_of (m_annotations m) k)"

abbreviation probeMethod :: string where "probeMethod \<equiv> ''GET /shelly''"

definition confined :: "string set \<Rightarrow> effect \<Rightarrow> bool" where
  "confined A x \<longleftrightarrow>
     (case x of
        Http rq \<Rightarrow>
          (\<exists>c rpc params auth. rpc \<in> A \<and> rq = rpcHttp c (rpcRequest rpc params) auth) \<or>
          probeMethod \<in> A \<and> rq_method rq = ''GET'' \<and> rq_path rq = ''/shelly''
      | StatusPatch b d ok \<Rightarrow> d_meta d = d_meta b \<and> d_spec d = d_spec b \<and> discoveryKept b d
      | ObjectPatch b d ok \<Rightarrow> d_spec d = d_spec b \<and> d_status d = d_status b \<and> foreignKept (d_meta b) (d_meta d)
      | Event t r m \<Rightarrow> True
      | _ \<Rightarrow> False)"

lemma confined_Event [simp]: "confined A (Event t r m)"
  by (simp add: confined_def)

lemma confined_patches:
  "confined A (StatusPatch b d ok) \<longleftrightarrow> d_meta d = d_meta b \<and> d_spec d = d_spec b \<and> discoveryKept b d"
  "confined A (ObjectPatch b d ok) \<longleftrightarrow>
     d_spec d = d_spec b \<and> d_status d = d_status b \<and> foreignKept (d_meta b) (d_meta d)"
  by (simp_all add: confined_def)

lemma confined_mono: "confined A x \<Longrightarrow> A \<subseteq> B \<Longrightarrow> confined B x"
  unfolding confined_def by (cases x) (simp_all, blast)

lemma confined_quiet: "confined {} x \<Longrightarrow> confined A x"
  using confined_mono [of "{}" x A] by simp

lemma confined_none: "confined {} x \<Longrightarrow> x \<noteq> Http rq"
  by (auto simp: confined_def)

lemma isPost_confined: "isPost c (rpcRequest rpc params) x \<Longrightarrow> rpc \<in> A \<Longrightarrow> confined A x"
  unfolding isPost_def confined_def by fastforce

lemma ext_Probe:
  assumes "Probe S host w = (r, w')" "probeMethod \<in> A"
  shows "ext (confined A) w w'"
proof -
  let ?rq = "\<lparr>rq_method = ''GET'', rq_host = host, rq_path = ''/shelly'', rq_auth = [], rq_body = JNull\<rparr>"
  have "snd (Probe S host w) = snd (httpW S ?rq w)" by (simp add: Probe_def Let_def split_beta)
  then have "w_trace w' = w_trace w @ [Http ?rq]" using assms(1) trace_httpW [of S ?rq w] by simp
  then show ?thesis using assms(2) by (auto simp: confined_def intro: extI)
qed

lemma ext_confined_mono: "ext (confined A) w w' \<Longrightarrow> A \<subseteq> B \<Longrightarrow> ext (confined B) w w'"
  by (erule ext_mono) (rule confined_mono)

lemma ext_quiet: "ext (confined {}) w w' \<Longrightarrow> ext (confined A) w w'"
  by (rule ext_confined_mono) auto

lemma ext_patchStatus:
  assumes "patchStatusW S base dev w = (r, w')"
    and "d_meta dev = d_meta base" "d_spec dev = d_spec base" "discoveryKept base dev"
  shows "ext (confined A) w w'"
  using trace_patchStatusW [of S base dev w] assms by (auto simp: confined_patches intro: extI)

lemma ext_patchObject:
  assumes "patchObjectW S base dev w = (r, w')"
    and "d_spec dev = d_spec base" "d_status dev = d_status base" "foreignKept (d_meta base) (d_meta dev)"
  shows "ext (confined A) w w'"
  using trace_patchObjectW [of S base dev w] assms by (auto simp: confined_patches intro: extI)

section \<open>Connections that keep to a policy\<close>

locale confined_conn =
  fixes cn :: "'e world conn" and allowed :: "string set"
  assumes call_ext: "cn_call cn rpc params w = (r, w') \<Longrightarrow> rpc \<in> allowed \<Longrightarrow> ext (confined allowed) w w'"
begin

lemma callDec_ext: "callDec cn rpc params dec w = (r, w') \<Longrightarrow> rpc \<in> allowed \<Longrightarrow> ext (confined allowed) w w'"
  by (auto simp: callDec_def Let_def split: prod.splits sum.splits dest: call_ext)

lemma callVoid_ext: "callVoid cn rpc params w = (r, w') \<Longrightarrow> rpc \<in> allowed \<Longrightarrow> ext (confined allowed) w w'"
  by (auto simp: callVoid_def Let_def split: prod.splits dest: call_ext)

lemma read_ext:
  "GetConfig cn w = (r1, w') \<Longrightarrow> ''Shelly.GetConfig'' \<in> allowed \<Longrightarrow> ext (confined allowed) w w'"
  "GetSysStatus cn w = (r2, w') \<Longrightarrow> ''Sys.GetStatus'' \<in> allowed \<Longrightarrow> ext (confined allowed) w w'"
  "ListSchedules cn w = (r3, w') \<Longrightarrow> ''Schedule.List'' \<in> allowed \<Longrightarrow> ext (confined allowed) w w'"
  by (simp_all add: GetConfig_def GetSysStatus_def ListSchedules_def callDec_ext)

lemma act_ext:
  "Reboot cn w = (e1, w') \<Longrightarrow> ''Shelly.Reboot'' \<in> allowed \<Longrightarrow> ext (confined allowed) w w'"
  "Update cn stage w = (e2, w') \<Longrightarrow> ''Shelly.Update'' \<in> allowed \<Longrightarrow> ext (confined allowed) w w'"
  by (simp_all add: Reboot_def Update_def callVoid_ext)

end

end
