(* ===== verification/Client_Device.thy ===== *)
theory Client_Device
  imports Fake_Device Effects
begin

text \<open>
  The client against the device: what \<open>Call\<close> over HTTP with digest authentication amounts to,
  the bounds on the requests it sends, and the classification of its errors.
\<close>

section \<open>Reading back a digest header\<close>

text \<open>Text that \<open>%q\<close> leaves as it is between its quotes.\<close>

definition plainText :: "string \<Rightarrow> bool" where
  "plainText s \<longleftrightarrow> list_all (\<lambda>c. quoteByte c = [c]) s"

lemma plain_byte: "quoteByte c = [c] \<Longrightarrow> c \<noteq> CHR 0x22"
  by (auto simp: quoteByte_def)

lemma concat_quoteByte: "plainText s \<Longrightarrow> concat (map quoteByte s) = s"
  by (induction s) (simp_all add: plainText_def)

lemma quoted_plain: "plainText s \<Longrightarrow> quoted s = CHR 0x22 # s @ [CHR 0x22]"
  by (simp add: quoted_def concat_quoteByte)

lemma takeWhile_no_quote: "plainText v \<Longrightarrow>
    takeWhile (\<lambda>d. d \<noteq> CHR 0x22) (v @ CHR 0x22 # rest) = v \<and>
    dropWhile (\<lambda>d. d \<noteq> CHR 0x22) (v @ CHR 0x22 # rest) = CHR 0x22 # rest"
  by (induction v) (auto simp: plainText_def dest: plain_byte)

lemma fieldValue_quoted: "plainText v \<Longrightarrow> fieldValue (quoted v @ rest) = Some (v, rest)"
  by (simp add: fieldValue_def quoted_plain takeWhile_no_quote Let_def)

lemma digestFields_Nil [simp]: "digestFields [] = []"
  by (simp add: digestFields.simps)

lemma digestFields_skip: "\<not> isWordByte c \<Longrightarrow> digestFields (c # s) = digestFields s"
  by (simp add: digestFields.simps [of "c # s"] digestFields.simps [of s])

lemma word_split:
  assumes "list_all isWordByte name" "name \<noteq> []" "rest = [] \<or> \<not> isWordByte (hd rest)"
  shows "dropWhile (\<lambda>c. \<not> isWordByte c) (name @ rest) = name @ rest"
    and "takeWhile isWordByte (name @ rest) = name" "dropWhile isWordByte (name @ rest) = rest"
proof -
  show "dropWhile (\<lambda>c. \<not> isWordByte c) (name @ rest) = name @ rest"
    using assms(1,2) by (cases name) auto
  have "takeWhile isWordByte rest = [] \<and> dropWhile isWordByte rest = rest"
    using assms(3) by (cases rest) auto
  then show "takeWhile isWordByte (name @ rest) = name" "dropWhile isWordByte (name @ rest) = rest"
    using assms(1) by (induction name) auto
qed

text \<open>One field at the front of the input, and one word that is no field.\<close>

lemma digestFields_field:
  assumes "list_all isWordByte name" "name \<noteq> []" "fieldValue s = Some (v, rest)"
  shows "digestFields (name @ CHR ''='' # s) = (name, v) # digestFields rest"
proof -
  have eq: "\<not> isWordByte CHR ''=''" by code_simp
  show ?thesis
    using assms word_split [OF assms(1,2), of "CHR ''='' # s"] eq
    by (subst digestFields.simps) (simp add: Let_def)
qed

lemma digestFields_word:
  assumes "list_all isWordByte name" "name \<noteq> []" "\<not> isWordByte c" "c \<noteq> CHR ''=''"
  shows "digestFields (name @ c # s) = digestFields s"
  using assms word_split [OF assms(1,2), of "c # s"]
  by (subst digestFields.simps) (simp add: Let_def digestFields_skip)

definition bareByte :: "char \<Rightarrow> bool" where
  "bareByte d \<longleftrightarrow> d \<noteq> CHR 0x22 \<and> d \<noteq> CHR '','' \<and> \<not> isSpaceByte d"

lemma fieldValue_bare:
  assumes "list_all bareByte v" "v \<noteq> []" "rest = [] \<or> \<not> bareByte (hd rest)"
  shows "fieldValue (v @ rest) = Some (v, rest)"
proof -
  have "takeWhile bareByte rest = [] \<and> dropWhile bareByte rest = rest"
    using assms(3) by (cases rest) auto
  then have "takeWhile bareByte (v @ rest) = v" "dropWhile bareByte (v @ rest) = rest"
    using assms(1) by (induction v) auto
  moreover have "hd v \<noteq> CHR 0x22" using assms(1,2) by (cases v) (auto simp: bareByte_def)
  ultimately show ?thesis
    using assms(2) by (cases v) (simp_all add: fieldValue_def bareByte_def [abs_def] Let_def)
qed

lemma hexDigit_range: "n < 16 \<Longrightarrow> byte (hexDigit n) \<in> {48..57} \<union> {97..102}"
  by (auto simp: hexDigit_def byte_def)

definition hexByte :: "char \<Rightarrow> bool" where
  "hexByte c \<longleftrightarrow> byte c \<in> {48..57} \<union> {97..102}"

lemma no_hexByte:
  "\<not> hexByte CHR 0x22" "\<not> hexByte CHR 0x5C" "\<not> hexByte CHR 0x0A" "\<not> hexByte CHR 0x0D"
  "\<not> hexByte CHR 0x09" "\<not> hexByte CHR 0x0C" "\<not> hexByte CHR '' ''" "\<not> hexByte CHR '',''"
  by code_simp+

lemma hexByte_bare: "hexByte c \<Longrightarrow> bareByte c"
  using no_hexByte by (auto simp: bareByte_def isSpaceByte_def)

lemma hexByte_plain: "hexByte c \<Longrightarrow> quoteByte c = [c]"
  using no_hexByte by (auto simp: quoteByte_def)

lemma hex8_hex: "list_all hexByte (hex8 n)" "hex8 n \<noteq> []"
  using hexDigit_range by (simp_all add: hex8_def list_all_iff hexByte_def del: Un_iff)

text \<open>The steps of reading a header, in the shape the headers are put together.\<close>

lemma digestFields_steps:
  "digestFields ('', '' @ s) = digestFields s"
  "digestFields (''Digest '' @ s) = digestFields s"
  "list_all isWordByte name \<Longrightarrow> name \<noteq> [] \<Longrightarrow> plainText v \<Longrightarrow>
     digestFields (name @ ''='' @ quoted v @ s) = (name, v) # digestFields s"
  "list_all isWordByte name \<Longrightarrow> name \<noteq> [] \<Longrightarrow> list_all bareByte v \<Longrightarrow> v \<noteq> [] \<Longrightarrow>
     digestFields (name @ ''='' @ v @ '', '' @ s) = (name, v) # digestFields s"
  "list_all isWordByte name \<Longrightarrow> name \<noteq> [] \<Longrightarrow> list_all bareByte v \<Longrightarrow> v \<noteq> [] \<Longrightarrow>
     digestFields (name @ ''='' @ v) = [(name, v)]"
proof -
  have w: "\<not> isWordByte CHR '',''" "\<not> isWordByte CHR '' ''" "\<not> bareByte CHR '',''"
    "list_all isWordByte ''Digest''"
    by code_simp+
  show sep: "digestFields ('', '' @ s) = digestFields s" using w by (simp add: digestFields_skip)
  show "digestFields (''Digest '' @ s) = digestFields s"
    using w digestFields_word [of "''Digest''" "CHR '' ''" s] by simp
  assume name: "list_all isWordByte name" "name \<noteq> []"
  show "digestFields (name @ ''='' @ quoted v @ s) = (name, v) # digestFields s" if "plainText v"
    using digestFields_field [OF name fieldValue_quoted [OF that]] by simp
  assume v: "list_all bareByte v" "v \<noteq> []"
  show "digestFields (name @ ''='' @ v @ '', '' @ s) = (name, v) # digestFields s"
    using digestFields_field [OF name fieldValue_bare [OF v, of "'', '' @ s"]] sep w by simp
  show "digestFields (name @ ''='' @ v) = [(name, v)]"
    using digestFields_field [OF name fieldValue_bare [OF v, of "[]"]] by simp
qed

text \<open>The fields of the header the client sends, as the device reads them.\<close>

lemma digestFields_digestHeader:
  assumes "plainText realm" "plainText nonce" "plainText response" "plainText cnonce"
    and "list_all hexByte nc" "nc \<noteq> []"
  shows "digestFields (digestHeader realm nonce response nc cnonce) =
    [(''username'', ''admin''), (''realm'', realm), (''nonce'', nonce), (''uri'', ''/rpc''),
     (''response'', response), (''qop'', ''auth''), (''nc'', nc), (''cnonce'', cnonce),
     (''algorithm'', ''SHA-256'')]"
proof -
  have names: "list_all (\<lambda>n. list_all isWordByte n \<and> n \<noteq> [])
      [''username'', ''realm'', ''nonce'', ''uri'', ''response'', ''qop'', ''nc'', ''cnonce'', ''algorithm'']"
    by code_simp
  have lits: "plainText ''admin''" "plainText ''/rpc''" "list_all bareByte ''auth''" "list_all bareByte ''SHA-256''"
    by code_simp+
  have nc: "list_all bareByte nc" using assms(5) by (auto simp: list_all_iff intro: hexByte_bare)
  have "digestHeader realm nonce response nc cnonce =
    ''Digest '' @ ''username'' @ ''='' @ quoted ''admin'' @ '', '' @ ''realm'' @ ''='' @ quoted realm @ '', ''
    @ ''nonce'' @ ''='' @ quoted nonce @ '', '' @ ''uri'' @ ''='' @ quoted ''/rpc'' @ '', ''
    @ ''response'' @ ''='' @ quoted response @ '', '' @ ''qop'' @ ''='' @ ''auth'' @ '', ''
    @ ''nc'' @ ''='' @ nc @ '', '' @ ''cnonce'' @ ''='' @ quoted cnonce @ '', '' @ ''algorithm'' @ ''='' @ ''SHA-256''"
    by (simp add: digestHeader_def)
  then show ?thesis
    using names lits nc assms
    by (simp add: digestFields_steps del: append.simps)
qed

lemma digestFields_challenge:
  assumes "plainText realm"
  shows "digestFields (challengeHeader realm) =
    [(''qop'', ''auth''), (''realm'', realm), (''nonce'', testNonce), (''algorithm'', ''SHA-256'')]"
proof -
  have names: "list_all (\<lambda>n. list_all isWordByte n \<and> n \<noteq> []) [''realm'', ''nonce'', ''qop'', ''algorithm'']"
    by code_simp
  have lits: "plainText ''auth''" "plainText testNonce" "list_all bareByte ''SHA-256''"
    by code_simp+
  have "challengeHeader realm =
    ''Digest '' @ ''qop'' @ ''='' @ quoted ''auth'' @ '', '' @ ''realm'' @ ''='' @ quoted realm @ '', ''
    @ ''nonce'' @ ''='' @ quoted testNonce @ '', '' @ ''algorithm'' @ ''='' @ ''SHA-256''"
    by (simp add: challengeHeader_def)
  then show ?thesis
    using names lits assms by (simp add: digestFields_steps del: append.simps)
qed

section \<open>A call over HTTP and digest authentication\<close>

text \<open>The network delivers every request to the device, and random bytes come out as hex digits.\<close>

definition servesFake :: "golib \<Rightarrow> fakeDevice sysops \<Rightarrow> bool" where
  "servesFake G S \<longleftrightarrow>
     (\<forall>rq d. doHttp S rq d =
        (case serve G rq d of
           (Some r, d') \<Rightarrow> (Inr r, d')
         | (None, d') \<Rightarrow> (Inl (ErrText ''EOF''), d'))) \<and>
     (\<forall>d. list_all hexByte (fst (randomHex8 S d)) \<and> snd (randomHex8 S d) = d)"

definition hexDigest :: "golib \<Rightarrow> bool" where
  "hexDigest G \<longleftrightarrow> (\<forall>s. sha256hex G s \<noteq> [] \<and> list_all hexByte (sha256hex G s))"

lemma hex_plain: "list_all hexByte s \<Longrightarrow> plainText s"
  by (auto simp: plainText_def list_all_iff intro: hexByte_plain)

text \<open>The device's answer to a request it does not challenge.\<close>

definition rawAnswer :: "string \<Rightarrow> json option \<Rightarrow> fakeDevice \<Rightarrow> (go_error + http_response) \<times> fakeDevice" where
  "rawAnswer rpc params d =
     (case dispatch 1 rpc params (d\<lparr>fd_calls := fd_calls d @ [(rpc, params)]\<rparr>) of
        (None, d') \<Rightarrow> (Inl (ErrText ''EOF''), d')
      | (Some v, d') \<Rightarrow> (Inr (okResponse v), d'))"

abbreviation challenged :: "fakeDevice \<Rightarrow> fakeDevice" where
  "challenged d \<equiv> d\<lparr>fd_challengesSent := Suc (fd_challengesSent d)\<rparr>"

lemma decInt_one: "decInt (JNum (Fin 1)) = Inr 1"
  using decInt_jInt [of 1] by (simp add: jInt_def int64_def)

lemma handleRPC_rpcRequest:
  "handleRPC G (rpcHttp c (rpcRequest rpc params) auth) d =
     (if fd_ha1 d \<noteq> [] \<and> \<not> authorized G d (rpcHttp c (rpcRequest rpc params) auth)
      then (Some \<lparr>rs_code = 401, rs_status = ''401 Unauthorized'',
                  rs_authenticate = challengeHeader (fd_ID d), rs_body = None, rs_text = []\<rparr>, challenged d)
      else apfst (map_option okResponse)
             (dispatch 1 rpc params (d\<lparr>fd_calls := fd_calls d @ [(rpc, params)]\<rparr>)))"
  by (cases params) (simp_all add: handleRPC_def rpcHttp_def rpcRequest_def decInt_one orNull_def)

lemma sendRpc_fake:
  assumes "servesFake G S"
  shows "sendRpc S c (rpcRequest rpc params) auth w =
    (let rq = rpcHttp c (rpcRequest rpc params) auth; d = w_env w; w1 = record_effect (Http rq) w
     in if fd_ha1 d \<noteq> [] \<and> \<not> authorized G d rq
        then (Inr \<lparr>rs_code = 401, rs_status = ''401 Unauthorized'',
                   rs_authenticate = challengeHeader (fd_ID d), rs_body = None, rs_text = []\<rparr>,
              w1\<lparr>w_env := challenged d\<rparr>)
        else (fst (rawAnswer rpc params d), w1\<lparr>w_env := snd (rawAnswer rpc params d)\<rparr>))"
proof -
  let ?rq = "rpcHttp c (rpcRequest rpc params) auth"
  have "serve G ?rq (w_env w) = handleRPC G ?rq (w_env w)" by (simp add: serve_def rpcHttp_def)
  moreover have "sendRpc S c (rpcRequest rpc params) auth w = httpW S ?rq w"
    by (simp add: sendRpc_def rpcHttp_def)
  ultimately show ?thesis
    using assms
    by (auto simp: httpW_def askEnv_def servesFake_def handleRPC_rpcRequest rawAnswer_def Let_def
        split: prod.splits option.splits)
qed

lemma authHeader_frame:
  assumes "servesFake G S" "authHeader S G c w = (h, c', w')"
  shows "w_env w' = w_env w \<and> w_trace w' = w_trace w \<and> cl_host c' = cl_host c \<and> cl_password c' = cl_password c"
proof -
  have "snd (randomHex8 S d) = d" for d using assms(1) by (simp add: servesFake_def)
  then show ?thesis
    using assms(2) by (auto simp: authHeader_def askEnv_def Let_def split_beta split: option.splits if_splits)
qed

text \<open>A header made from the device's own challenge and the password behind its hash is accepted.\<close>

lemma authHeader_authorized:
  assumes "servesFake G S" "hexDigest G" "plainText (fd_ID d)"
    and "fd_ha1 d = sha256hex G (''admin:'' @ fd_ID d @ '':'' @ cl_password c)" "cl_password c \<noteq> []"
    and "cl_auth c = Some \<lparr>dg_realm = fd_ID d, dg_nonce = testNonce, dg_nc = n\<rparr>"
    and "authHeader S G c w = (h, c', w')"
  shows "authorized G d (rpcHttp c0 payload h)"
proof -
  obtain cnonce e where r: "randomHex8 S (w_env w) = (cnonce, e)" by force
  let ?nc = "hex8 (n + 1)"
  let ?resp = "digestResponse G (fd_ha1 d) testNonce ?nc cnonce"
  have h: "h = digestHeader (fd_ID d) testNonce ?resp ?nc cnonce"
    using assms(4-7) r by (auto simp: authHeader_def askEnv_def Let_def)
  have pl: "plainText testNonce" by code_simp
  have "list_all hexByte cnonce" using assms(1) r by (metis fst_conv servesFake_def)
  moreover have "?resp \<noteq> []" "list_all hexByte ?resp"
    using assms(2) by (simp_all add: digestResponse_def hexDigest_def)
  ultimately have "digestFields h =
      [(''username'', ''admin''), (''realm'', fd_ID d), (''nonce'', testNonce), (''uri'', ''/rpc''),
       (''response'', ?resp), (''qop'', ''auth''), (''nc'', ?nc), (''cnonce'', cnonce),
       (''algorithm'', ''SHA-256'')]" and "?resp \<noteq> []"
    unfolding h using digestFields_digestHeader assms(3) pl hex8_hex by (simp_all add: hex_plain)
  moreover have "hasPrefix h ''Digest ''" by (simp add: h digestHeader_def hasPrefix_def)
  ultimately show ?thesis
    by (simp add: authorized_def rpcHttp_def fieldsMap_def mgetS_def digestResponse_def Let_def)
qed
text \<open>The client knows the password of a device that asks for one.\<close>

definition credentialsMatch :: "golib \<Rightarrow> Client \<Rightarrow> fakeDevice \<Rightarrow> bool" where
  "credentialsMatch G c d \<longleftrightarrow>
     plainText (fd_ID d) \<and> fd_ID d \<noteq> [] \<and>
     (fd_ha1 d \<noteq> [] \<longrightarrow>
        cl_password c \<noteq> [] \<and> fd_ha1 d = sha256hex G (''admin:'' @ fd_ID d @ '':'' @ cl_password c))"

lemma setChallenge_fake:
  assumes "plainText (fd_ID d)" "fd_ID d \<noteq> []"
  shows "setChallenge c (challengeHeader (fd_ID d)) =
    Inr (c\<lparr>cl_auth := Some \<lparr>dg_realm = fd_ID d, dg_nonce = testNonce, dg_nc = 0\<rparr>\<rparr>)"
  using assms by (simp add: setChallenge_def fieldsMap_def digestFields_challenge mgetS_def)

lemma rawAnswer_not_401: "fst (rawAnswer rpc params d) = Inr r \<Longrightarrow> rs_code r = 200"
  by (auto simp: rawAnswer_def okResponse_def split: prod.splits option.splits)

lemma post_fake:
  assumes "servesFake G S" "hexDigest G" "credentialsMatch G c (w_env w)"
    and "post S G c (rpcRequest rpc params) w = (r, c', w')"
  shows "\<exists>d. (d = w_env w \<or> d = challenged (w_env w)) \<and>
    r = fst (rawAnswer rpc params d) \<and> w_env w' = snd (rawAnswer rpc params d) \<and> cl_host c' = cl_host c"
proof -
  obtain h c1 w1 where h1: "authHeader S G c w = (h, c1, w1)" by (metis prod_cases3)
  note f1 = authHeader_frame [OF assms(1) h1]
  let ?rq = "rpcHttp c1 (rpcRequest rpc params) h"
  let ?d = "w_env w"
  show ?thesis
  proof (cases "fd_ha1 ?d \<noteq> [] \<and> \<not> authorized G ?d ?rq")
    case False
    then have s: "sendRpc S c1 (rpcRequest rpc params) h w1 =
        (fst (rawAnswer rpc params ?d), (record_effect (Http ?rq) w1)\<lparr>w_env := snd (rawAnswer rpc params ?d)\<rparr>)"
      using f1 by (auto simp: sendRpc_fake [OF assms(1)] Let_def)
    then have "r = fst (rawAnswer rpc params ?d)" "w_env w' = snd (rawAnswer rpc params ?d)" "c' = c1"
      using assms(4) rawAnswer_not_401 [of rpc params ?d]
      by (auto simp: post_def h1 s split: sum.splits if_splits)
    then show ?thesis using f1 by auto
  next
    case True
    let ?w2 = "(record_effect (Http ?rq) w1)\<lparr>w_env := challenged ?d\<rparr>"
    let ?c2 = "c1\<lparr>cl_auth := Some \<lparr>dg_realm = fd_ID ?d, dg_nonce = testNonce, dg_nc = 0\<rparr>\<rparr>"
    obtain h3 c3 w3 where h3: "authHeader S G ?c2 ?w2 = (h3, c3, w3)" by (metis prod_cases3)
    note f3 = authHeader_frame [OF assms(1) h3]
    have cm: "plainText (fd_ID ?d)" "fd_ID ?d \<noteq> []" "cl_password c \<noteq> []"
        "fd_ha1 ?d = sha256hex G (''admin:'' @ fd_ID ?d @ '':'' @ cl_password c)"
      using assms(3) True by (auto simp: credentialsMatch_def)
    have "authorized G (challenged ?d) (rpcHttp c3 (rpcRequest rpc params) h3)"
      using authHeader_authorized [OF assms(1,2), of "challenged ?d" ?c2 0 ?w2 h3 c3 w3] cm f1 h3 by simp
    then have s: "sendRpc S c3 (rpcRequest rpc params) h3 w3 =
        (fst (rawAnswer rpc params (challenged ?d)),
         (record_effect (Http (rpcHttp c3 (rpcRequest rpc params) h3)) w3)\<lparr>w_env := snd (rawAnswer rpc params (challenged ?d))\<rparr>)"
      using f3 by (simp add: sendRpc_fake [OF assms(1)] Let_def)
    have s1: "sendRpc S c1 (rpcRequest rpc params) h w1 =
        (Inr \<lparr>rs_code = 401, rs_status = ''401 Unauthorized'',
              rs_authenticate = challengeHeader (fd_ID ?d), rs_body = None, rs_text = []\<rparr>, ?w2)"
      using True f1 by (simp add: sendRpc_fake [OF assms(1)] Let_def)
    have "r = fst (rawAnswer rpc params (challenged ?d)) \<and> w_env w' = snd (rawAnswer rpc params (challenged ?d)) \<and> c' = c3"
      using assms(4) f1 cm by (auto simp: post_def h1 s1 setChallenge_fake h3 s)
    then show ?thesis using f1 f3 by auto
  qed
qed

lemma Call_direct:
  assumes "servesFake G S" "hexDigest G" "credentialsMatch G c (w_env w)"
    and "Call S G c rpc params w = (r, c', w')"
  shows "\<exists>d. (d = w_env w \<or> d = challenged (w_env w)) \<and>
    (r, w_env w') = directCall (cl_host c) rpc params d"
proof -
  obtain r0 c1 w1 where p: "post S G c (rpcRequest rpc params) w = (r0, c1, w1)" by (metis prod_cases3)
  obtain d where d: "d = w_env w \<or> d = challenged (w_env w)" "r0 = fst (rawAnswer rpc params d)"
      "w_env w1 = snd (rawAnswer rpc params d)" "cl_host c1 = cl_host c"
    using post_fake [OF assms(1-3) p] by blast
  have "r0 = Inr resp \<Longrightarrow> rs_code resp = 200" for resp
    using d(2) rawAnswer_not_401 by metis
  then have "postRetrying S G c (rpcRequest rpc params) w = (r0, c1, w1)"
    by (cases r0) (auto simp: postRetrying_def postLoop.simps [of 2] p Let_def)
  then have "(r, w_env w') = directCall (cl_host c) rpc params d"
    using assms(4) d
    by (auto simp: Call_def directCall_def rawAnswer_def is_AuthError_def okResponse_def Let_def
        split: prod.splits option.splits)
  then show ?thesis using d(1) by blast
qed

text \<open>
  C7: Against the emulated device a client that knows the password of the device (or a device
  that asks for none) is transparent: whatever challenge the client has cached, \<open>Call\<close> returns
  exactly what the device's handler answers and leaves the device as the handler leaves it,
  having provoked at most one digest challenge and executed the method exactly once.
\<close>

theorem Call_transparent:
  assumes "servesFake G S" "hexDigest G" "credentialsMatch G c (w_env w)"
    and "Call S G c rpc params w = (r, c', w')"
  shows "\<exists>d. (d = w_env w \<or> d = challenged (w_env w)) \<and>
    (r, w_env w') = directCall (cl_host c) rpc params d"
  using assms by (rule Call_direct)
text \<open>A concrete network, clock and digest for the witnesses.\<close>

definition hexText :: "string \<Rightarrow> string" where
  "hexText s = ''0'' @ concat (map (\<lambda>c. [hexDigit (byte c div 16), hexDigit (byte c mod 16)]) s)"

definition hexLib :: golib where
  "hexLib = exampleLib\<lparr>sha256hex := hexText\<rparr>"

definition fakeOps :: "golib \<Rightarrow> fakeDevice sysops" where
  "fakeOps G = \<lparr>
     doHttp = (\<lambda>rq d. case serve G rq d of
        (Some r, d') \<Rightarrow> (Inr r, d') | (None, d') \<Rightarrow> (Inl (ErrText ''EOF''), d')),
     randomHex8 = (\<lambda>d. (''0123456789abcdef'', d)),
     waitRetry = (\<lambda>t d. (None, d)),
     timeNow = (\<lambda>d. (0, d)),
     getDevice = (\<lambda>ns n d. (Inl (ApiError NotFound n), d)),
     listDevices = (\<lambda>ns d. (Inr [], d)),
     listProfiles = (\<lambda>ns d. (Inr [], d)),
     getConfigMap = (\<lambda>ns n d. (Inl (ApiError NotFound n), d)),
     getSecret = (\<lambda>ns n d. (Inl (ApiError NotFound n), d)),
     patchStatus = (\<lambda>b n d. (Inr n, d)),
     patchObject = (\<lambda>b n d. (Inr n, d)),
     createDevice = (\<lambda>n d. (Inr n, d)), updateDevice = (\<lambda>n d. (Inr n, d)),
     updateStatus = (\<lambda>n d. (Inr n, d)), createConfigMap = (\<lambda>ns n ls data d. (None, d)),
     updateConfigMap = (\<lambda>ns n data d. (None, d)), ctxErr = (\<lambda>d. (None, d))\<rparr>"

definition exampleFake :: fakeDevice where
  "exampleFake = \<lparr>fd_ID = ''shellyplug-1'', fd_MAC = ''A0'', fd_Model = ''S3PL'', fd_App = ''PlugS'', fd_Gen = 3,
     fd_Firmware = ''1.7.4'', fd_Name = [], fd_RestartOnSetConfig = False, fd_SetConfigError = [],
     fd_IgnoreSetConfig = False, fd_GetConfigErrorAfter = 0, fd_AvailableUpdates = [],
     fd_RestartRequired = False, fd_UpdateError = [], fd_UpdateDropConnection = False, fd_ha1 = [],
     fd_config = [], fd_calls = [], fd_challengesSent = 0, fd_getConfigCalls = 0, fd_schedules = [],
     fd_scheduleRev = 0, fd_nextSchedID = 1\<rparr>"

definition freshWorld :: "'e \<Rightarrow> 'e world" where
  "freshWorld e = \<lparr>w_env = e, w_trace = [], w_clients = [], w_lastUpdateStart = None\<rparr>"

lemma hexDigest_hexLib: "hexDigest hexLib"
proof -
  have "hexByte CHR ''0''" by code_simp
  moreover have "hexByte (hexDigit (byte c div 16))" "hexByte (hexDigit (byte c mod 16))" for c
  proof -
    have "byte c < 256" by (simp add: byte_def of_char_def UNIV_char_of_nat char_of_def)
    then show "hexByte (hexDigit (byte c div 16))" by (simp add: hexByte_def hexDigit_range del: Un_iff)
    show "hexByte (hexDigit (byte c mod 16))" by (simp add: hexByte_def hexDigit_range del: Un_iff)
  qed
  ultimately show ?thesis by (auto simp: hexDigest_def hexLib_def hexText_def list_all_iff)
qed

lemma servesFake_fakeOps: "servesFake G (fakeOps G)"
proof -
  have "list_all hexByte ''0123456789abcdef''" by code_simp
  then show ?thesis by (simp add: servesFake_def fakeOps_def)
qed

theorem Call_transparent_witness:
  "\<exists>d. (d = exampleFake\<lparr>fd_ha1 := sha256hex hexLib ''admin:shellyplug-1:pw''\<rparr> \<or>
        d = challenged (exampleFake\<lparr>fd_ha1 := sha256hex hexLib ''admin:shellyplug-1:pw''\<rparr>)) \<and>
     (fst (Call (fakeOps hexLib) hexLib (NewClient ''10.0.0.7'' ''pw'') ''Shelly.Reboot'' None
            (freshWorld (exampleFake\<lparr>fd_ha1 := sha256hex hexLib ''admin:shellyplug-1:pw''\<rparr>))),
      w_env (snd (snd (Call (fakeOps hexLib) hexLib (NewClient ''10.0.0.7'' ''pw'') ''Shelly.Reboot'' None
            (freshWorld (exampleFake\<lparr>fd_ha1 := sha256hex hexLib ''admin:shellyplug-1:pw''\<rparr>)))))) =
      directCall ''10.0.0.7'' ''Shelly.Reboot'' None d"
proof -
  let ?d = "exampleFake\<lparr>fd_ha1 := sha256hex hexLib ''admin:shellyplug-1:pw''\<rparr>"
  have "plainText ''shellyplug-1''" by code_simp
  then have "credentialsMatch hexLib (NewClient ''10.0.0.7'' ''pw'') (w_env (freshWorld ?d))"
    by (simp add: credentialsMatch_def exampleFake_def NewClient_def freshWorld_def)
  moreover obtain r c' w' where C: "Call (fakeOps hexLib) hexLib (NewClient ''10.0.0.7'' ''pw'') ''Shelly.Reboot'' None
      (freshWorld ?d) = (r, c', w')" by (metis prod_cases3)
  ultimately show ?thesis
    using Call_transparent [OF servesFake_fakeOps hexDigest_hexLib _ C]
    by (simp add: C) (simp add: NewClient_def freshWorld_def)
qed

text \<open>
  C37: A client without a password that meets a device asking for one fails with the typed
  authentication error for that host, after a single challenge, and the device executes nothing.
\<close>

theorem Call_without_password:
  assumes "servesFake G S" "cl_password c = []" "fd_ha1 (w_env w) \<noteq> []"
    and "Call S G c rpc params w = (r, c', w')"
  shows "r = Inl (AuthError (cl_host c)) \<and> w_env w' = challenged (w_env w) \<and> c' = c"
proof -
  have h: "authHeader S G c w = ([], c, w)"
    using assms(2) by (simp add: authHeader_def split: option.split)
  have "\<not> authorized G (w_env w) (rpcHttp c (rpcRequest rpc params) [])"
    by (simp add: authorized_def rpcHttp_def hasPrefix_def)
  then have "post S G c (rpcRequest rpc params) w =
      (Inr \<lparr>rs_code = 401, rs_status = ''401 Unauthorized'',
            rs_authenticate = challengeHeader (fd_ID (w_env w)), rs_body = None, rs_text = []\<rparr>, c,
       (record_effect (Http (rpcHttp c (rpcRequest rpc params) [])) w)\<lparr>w_env := challenged (w_env w)\<rparr>)"
    using assms(2,3) by (simp add: post_def h sendRpc_fake [OF assms(1)] Let_def)
  then show ?thesis
    using assms(4) by (auto simp: Call_def postRetrying_def postLoop.simps [of 2] Let_def)
qed

theorem Call_without_password_witness:
  "fst (Call (fakeOps hexLib) hexLib (NewClient ''10.0.0.7'' []) ''Shelly.Reboot'' None
     (freshWorld (exampleFake\<lparr>fd_ha1 := ''ab''\<rparr>))) = Inl (AuthError ''10.0.0.7'')"
proof -
  let ?d = "exampleFake\<lparr>fd_ha1 := ''ab''\<rparr>"
  obtain r c' w' where C: "Call (fakeOps hexLib) hexLib (NewClient ''10.0.0.7'' []) ''Shelly.Reboot'' None
      (freshWorld ?d) = (r, c', w')" by (metis prod_cases3)
  show ?thesis
    using Call_without_password [OF servesFake_fakeOps _ _ C]
    by (simp add: C) (simp add: NewClient_def freshWorld_def)
qed

section \<open>Requests sent\<close>

text \<open>
  C9: Whatever the network answers, one \<open>Call\<close> sends between one and six HTTP requests (three
  attempts of at most two), all of them POSTs of the same encoded call to \<open>/rpc\<close> on the
  client's own host, and has no other effect. The call is one whose parameters can be encoded
  and whose host makes a URL, as \<open>Call\<close> is modelled.
\<close>

theorem Call_bounded:
  "\<exists>xs. w_trace (snd (snd (Call S G c rpc params w))) = w_trace w @ xs \<and> xs \<noteq> [] \<and> length xs \<le> 6 \<and>
     list_all (isPost c (rpcRequest rpc params)) xs"
proof -
  obtain r c' w' where "Call S G c rpc params w = (r, c', w')" by (metis prod_cases3)
  then show ?thesis using Call_trace by fastforce
qed

section \<open>Refusals\<close>

lemma fold_first:
  "List.fold (\<lambda>e acc. case acc of Some x \<Rightarrow> Some x | None \<Rightarrow> f e) es acc = Some x \<Longrightarrow>
   acc = Some x \<or> (\<exists>e \<in> set es. f e = Some x)"
  by (induction es arbitrary: acc) (fastforce split: option.splits)+

lemma errAs_SomeD: "errAs p e = Some x \<Longrightarrow> p x"
  by (induction p e rule: errAs.induct) (auto split: if_splits dest!: fold_first)

text \<open>
  When the device answered, the error of \<open>Call\<close> is classified as a refusal exactly when
  the answer was an HTTP error status or an RPC error; when no answer arrived, it is not a
  refusal (unless the transport itself reported one of the typed errors).
\<close>

theorem Call_refusal:
  assumes "postRetrying S G c (rpcRequest rpc params) w = (answer, c', w')"
    and "fst (Call S G c rpc params w) = Inl err"
  shows "IsRefusal err \<longleftrightarrow>
    (case answer of
       Inl transport \<Rightarrow> IsRefusal transport
     | Inr resp \<Rightarrow> rs_code resp \<noteq> 200 \<or> (\<exists>res e. decodeResponse (rs_body resp) = Inr (res, Some e)))"
proof -
  have rpc: False if "decodeResponse b = Inr (res, Some e)" "errAs is_RPCError e = None" for b res e
  proof -
    have "\<exists>code msg. e = RPCError code msg"
      using that(1)
      by (auto simp: decodeResponse_def ebind_def split: option.splits sum.splits json.splits)
    then show ?thesis using that(2) by (auto simp: is_RPCError_def)
  qed
  have plain: "\<not> IsRefusal e" if "decodeResponse b = Inl e" for b e
    using that
    by (auto simp: decodeResponse_def ebind_def IsRefusal_def decStruct_def decInt_def decStr_def typeMismatch_def
        err_kind_defs split: option.splits sum.splits json.splits)
  have auth: "errAs is_AuthError e \<noteq> None" if "errAs is_AuthError e' = Some e" for e e'
    using errAs_SomeD [OF that] by (auto simp: is_AuthError_def split: go_error.splits)
  show ?thesis
    using assms auth
    by (auto simp: Call_def IsRefusal_def Let_def is_AuthError_def is_StatusError_def is_RPCError_def
        split: sum.splits option.splits if_splits dest: plain)
      (metis rpc)
qed

theorem Call_refusal_witness:
  "IsRefusal (ErrWrap (callPrefix ''Shelly.Update'' ''10.0.0.7'') (RPCError (-114) ''No update info'')) \<and>
   fst (Call (fakeOps hexLib) hexLib (NewClient ''10.0.0.7'' []) ''Shelly.Update'' None
     (freshWorld (exampleFake\<lparr>fd_UpdateError := ''No update info''\<rparr>))) =
   Inl (ErrWrap (callPrefix ''Shelly.Update'' ''10.0.0.7'') (RPCError (-114) ''No update info''))"
proof -
  let ?d = "exampleFake\<lparr>fd_UpdateError := ''No update info''\<rparr>"
  let ?c = "NewClient ''10.0.0.7'' []"
  have i: "decInt (jInt 1) = Inr 1" "decInt (jInt (-114)) = Inr (-114)" by (simp_all add: int64_def)
  have dec: "decodeResponse (Some (rpcError 1 (-114) ''No update info'')) =
      Inr (None, Some (RPCError (-114) ''No update info''))"
    by (simp add: decodeResponse_def rpcError_def orNull_def i)
  have p: "postRetrying (fakeOps hexLib) hexLib ?c (rpcRequest ''Shelly.Update'' None) (freshWorld ?d) =
      (Inr (okResponse (rpcError 1 (-114) ''No update info'')), ?c,
       (record_effect (Http (rpcHttp ?c (rpcRequest ''Shelly.Update'' None) []))
         (freshWorld ?d))\<lparr>w_env := ?d\<lparr>fd_calls := [(''Shelly.Update'', None)]\<rparr>\<rparr>)"
    by (simp add: postRetrying_def postLoop.simps [of 2] post_def authHeader_def NewClient_def
        sendRpc_fake [OF servesFake_fakeOps] freshWorld_def exampleFake_def rawAnswer_def dispatch_def
        handleUpdate_def okResponse_def Let_def)
  then have c: "fst (Call (fakeOps hexLib) hexLib ?c ''Shelly.Update'' None (freshWorld ?d)) =
      Inl (ErrWrap (callPrefix ''Shelly.Update'' ''10.0.0.7'') (RPCError (-114) ''No update info''))"
    by (simp add: Call_def dec okResponse_def Let_def) (simp add: NewClient_def)
  show ?thesis using Call_refusal [OF p c] c dec by (simp add: okResponse_def)
qed
text \<open>What a caller gets from an answer of the device.\<close>

lemma decodeResponse_result [simp]: "decodeResponse (Some (rpcResult 1 v)) = Inr (Some v, None)"
  by (simp add: decodeResponse_def rpcResult_def orNull_def int64_def)

end
