(* ===== verification/Json_Parse.thy ===== *)
theory Json_Parse
  imports Json
begin

text \<open>
  \<open>encoding/json\<close>'s decoder on text, for the one place where the operator parses JSON it was
  given as a string (the registry ConfigMap). A recursive-descent parser whose fuel bounds the
  number of values, members and elements it opens; the length of the text is enough, because
  each of them consumes a byte.
\<close>

section \<open>White space, literals, numbers\<close>

definition isJsonSpace :: "char \<Rightarrow> bool" where
  "isJsonSpace c \<longleftrightarrow> c = CHR '' '' \<or> c = CHR 0x09 \<or> c = CHR 0x0A \<or> c = CHR 0x0D"

abbreviation skipSpace :: "string \<Rightarrow> string" where
  "skipSpace s \<equiv> dropWhile isJsonSpace s"

definition takeDigits :: "string \<Rightarrow> (string \<times> string) option" where
  "takeDigits s =
     (let ds = takeWhile isDigitByte s in if ds = [] then None else Some (ds, dropWhile isDigitByte s))"

definition numFraction :: "string \<Rightarrow> (string \<times> string) option" where
  "numFraction s =
     (case s of
        c # t \<Rightarrow>
          if c = CHR ''.''
          then (case takeDigits t of None \<Rightarrow> None | Some (ds, r) \<Rightarrow> Some (c # ds, r))
          else Some ([], s)
      | [] \<Rightarrow> Some ([], []))"

definition numExponent :: "string \<Rightarrow> (string \<times> string) option" where
  "numExponent s =
     (case s of
        c # t \<Rightarrow>
          if c = CHR ''e'' \<or> c = CHR ''E''
          then (let (sg, t) = (case t of x # y \<Rightarrow> if x = CHR ''+'' \<or> x = CHR ''-'' then ([x], y) else ([], t) | [] \<Rightarrow> ([], []))
                in case takeDigits t of None \<Rightarrow> None | Some (ds, r) \<Rightarrow> Some (c # sg @ ds, r))
          else Some ([], s)
      | [] \<Rightarrow> Some ([], []))"

definition parseNumber :: "golib \<Rightarrow> string \<Rightarrow> (json \<times> string) option" where
  "parseNumber G s =
     (let (sg, s1) = (case s of c # t \<Rightarrow> if c = CHR ''-'' then ([c], t) else ([], s) | [] \<Rightarrow> ([], []))
      in case takeDigits s1 of
           None \<Rightarrow> None
         | Some (ds, r0) \<Rightarrow>
             if hd ds = CHR ''0'' \<and> length ds > 1 then None
             else
               (case numFraction r0 of
                  None \<Rightarrow> None
                | Some (fr, r1) \<Rightarrow>
                    (case numExponent r1 of
                       None \<Rightarrow> None
                     | Some (ex, r2) \<Rightarrow>
                         (case parseFloat G (sg @ ds @ fr @ ex) of
                            None \<Rightarrow> None
                          | Some f \<Rightarrow> Some (JNum f, r2)))))"

section \<open>Strings\<close>

definition hexVal :: "char \<Rightarrow> nat option" where
  "hexVal c =
     (let b = byte c
      in if 48 \<le> b \<and> b \<le> 57 then Some (b - 48)
         else if 97 \<le> b \<and> b \<le> 102 then Some (b - 87)
         else if 65 \<le> b \<and> b \<le> 70 then Some (b - 55)
         else None)"

fun hex4 :: "string \<Rightarrow> (nat \<times> string) option" where
  "hex4 (a # b # c # d # t) =
     (case (hexVal a, hexVal b, hexVal c, hexVal d) of
        (Some w, Some x, Some y, Some z) \<Rightarrow> Some (w * 4096 + x * 256 + y * 16 + z, t)
      | _ \<Rightarrow> None)"
| "hex4 _ = None"

definition utf8 :: "nat \<Rightarrow> string" where
  "utf8 r =
     map char_of
       (if r < 128 then [r]
        else if r < 2048 then [192 + r div 64, 128 + r mod 64]
        else if r < 65536 then [224 + r div 4096, 128 + r div 64 mod 64, 128 + r mod 64]
        else [240 + r div 262144, 128 + r div 4096 mod 64, 128 + r div 64 mod 64, 128 + r mod 64])"

definition escByte :: "char \<Rightarrow> char option" where
  "escByte c =
     map_of [(CHR 0x22, CHR 0x22), (CHR 0x5C, CHR 0x5C), (CHR ''/'', CHR ''/''), (CHR ''b'', CHR 0x08),
             (CHR ''f'', CHR 0x0C), (CHR ''n'', CHR 0x0A), (CHR ''r'', CHR 0x0D), (CHR ''t'', CHR 0x09)] c"

text \<open>
  One escape after its backslash: the decoded bytes and the rest. A high surrogate is combined
  with a following low one; a lone surrogate is U+FFFD.
\<close>

definition parseEscape :: "string \<Rightarrow> (string \<times> string) option" where
  "parseEscape s =
     (case s of
        [] \<Rightarrow> None
      | c # t \<Rightarrow>
          if c = CHR ''u'' then
            (case hex4 t of
               None \<Rightarrow> None
             | Some (r, t1) \<Rightarrow>
                 if 55296 \<le> r \<and> r \<le> 57343 then
                   (case (if hasPrefix t1 [CHR 0x5C, CHR ''u''] then hex4 (drop 2 t1) else None) of
                      Some (r2, t2) \<Rightarrow>
                        if r \<le> 56319 \<and> 56320 \<le> r2 \<and> r2 \<le> 57343
                        then Some (utf8 ((r - 55296) * 1024 + (r2 - 56320) + 65536), t2)
                        else Some (utf8 runeError, t1)
                    | None \<Rightarrow> Some (utf8 runeError, t1))
                 else Some (utf8 r, t1))
          else (case escByte c of None \<Rightarrow> None | Some d \<Rightarrow> Some ([d], t)))"

text \<open>The bytes up to the closing quote.\<close>

fun parseStringBody :: "nat \<Rightarrow> string \<Rightarrow> (string \<times> string) option" where
  "parseStringBody 0 s = None"
| "parseStringBody (Suc n) s =
     (case s of
        [] \<Rightarrow> None
      | c # t \<Rightarrow>
          if c = CHR 0x22 then Some ([], t)
          else if byte c < 32 then None
          else if c = CHR 0x5C then
            (case parseEscape t of
               None \<Rightarrow> None
             | Some (bs, t1) \<Rightarrow>
                 (case parseStringBody n t1 of None \<Rightarrow> None | Some (r, t2) \<Rightarrow> Some (bs @ r, t2)))
          else (case parseStringBody n t of None \<Rightarrow> None | Some (r, t2) \<Rightarrow> Some (c # r, t2)))"

definition parseString :: "string \<Rightarrow> (string \<times> string) option" where
  "parseString s =
     (case s of
        c # t \<Rightarrow> if c = CHR 0x22 then parseStringBody (Suc (length t)) t else None
      | [] \<Rightarrow> None)"

section \<open>Values\<close>

text \<open>A repeated key keeps the last value, as assigning into a Go map does.\<close>

fun parseValue :: "golib \<Rightarrow> nat \<Rightarrow> string \<Rightarrow> (json \<times> string) option"
and parseElems :: "golib \<Rightarrow> nat \<Rightarrow> string \<Rightarrow> (json list \<times> string) option"
and parseMembers :: "golib \<Rightarrow> nat \<Rightarrow> jmap \<Rightarrow> string \<Rightarrow> (jmap \<times> string) option" where
  "parseValue G 0 s = None"
| "parseValue G (Suc n) s =
     (let s = skipSpace s
      in if hasPrefix s ''null'' then Some (JNull, drop 4 s)
         else if hasPrefix s ''true'' then Some (JBool True, drop 4 s)
         else if hasPrefix s ''false'' then Some (JBool False, drop 5 s)
         else if hasPrefix s [CHR 0x22] then map_option (apfst JStr) (parseString s)
         else if hasPrefix s ''['' then
           (let t = skipSpace (tl s)
            in if hasPrefix t '']'' then Some (JArr [], tl t)
               else map_option (apfst JArr) (parseElems G n t))
         else if hasPrefix s ''{'' then
           (let t = skipSpace (tl s)
            in if hasPrefix t ''}'' then Some (JObj [], tl t)
               else map_option (apfst JObj) (parseMembers G n [] t))
         else parseNumber G s)"
| "parseElems G 0 s = None"
| "parseElems G (Suc n) s =
     (case parseValue G n s of
        None \<Rightarrow> None
      | Some (v, r) \<Rightarrow>
          (let r = skipSpace r
           in if hasPrefix r '','' then map_option (apfst ((#) v)) (parseElems G n (tl r))
              else if hasPrefix r '']'' then Some ([v], tl r)
              else None))"
| "parseMembers G 0 m s = None"
| "parseMembers G (Suc n) m s =
     (case parseString (skipSpace s) of
        None \<Rightarrow> None
      | Some (k, r) \<Rightarrow>
          (let r = skipSpace r
           in if \<not> hasPrefix r '':'' then None
              else
                (case parseValue G n (tl r) of
                   None \<Rightarrow> None
                 | Some (v, r) \<Rightarrow>
                     (let m = AList.update k v m; r = skipSpace r
                      in if hasPrefix r '','' then parseMembers G n m (tl r)
                         else if hasPrefix r ''}'' then Some (m, tl r)
                         else None))))"

text \<open>\<open>json.Unmarshal\<close>'s check that nothing but white space follows.\<close>

definition parseJSON :: "golib \<Rightarrow> string \<Rightarrow> go_error + json" where
  "parseJSON G s =
     (case parseValue G (length s + 1) s of
        Some (v, r) \<Rightarrow>
          if skipSpace r = [] then Inr v
          else Inl (ErrText ''invalid character after top-level value'')
      | None \<Rightarrow> Inl (ErrText ''invalid JSON text''))"

declare parseValue.simps [simp del] parseElems.simps [simp del] parseMembers.simps [simp del]

end
