(* ===== verification/Fleet.thy ===== *)
theory Fleet
  imports World Shelly_Client Json_Parse
begin

text \<open>
  \<open>internal/fleet\<close>: label sanitising, and the resolution of registry entries, device names and
  passwords from ConfigMaps and Secrets. The readers are always wired by \<open>cmd/main.go\<close>, so the
  guards against a nil reader have no counterpart here.
\<close>

section \<open>sanitize.go\<close>

definition isAlnum :: "nat \<Rightarrow> bool" where
  "isAlnum r \<longleftrightarrow> (97 \<le> r \<and> r \<le> 122) \<or> (48 \<le> r \<and> r \<le> 57)"

text \<open>The loop over the runes; \<open>prev\<close> is the rune written last.\<close>

fun sanitizeLoop :: "nat \<Rightarrow> nat list \<Rightarrow> string" where
  "sanitizeLoop prev [] = []"
| "sanitizeLoop prev (r # rs) =
     (if isAlnum r \<or> r = 46 \<or> r = 95 then char_of r # sanitizeLoop r rs
      else if prev \<noteq> 45 then CHR ''-'' # sanitizeLoop 45 rs
      else sanitizeLoop prev rs)"

definition SanitizeLabel :: "string \<Rightarrow> string" where
  "SanitizeLabel s =
     (if s = [] then []
      else
        (let v = sanitizeLoop 0 (map lowerRune (goRunes s));
             v = (if length v > 63 then take 63 v else v)
         in trimFunc (\<lambda>r. \<not> isAlnum r) v))"

section \<open>registry.go\<close>

record RegistryEntry =
  re_name :: string
  re_room :: string
  re_type :: string
  re_note :: string
  re_labels :: "string gomap"

definition zeroEntry :: RegistryEntry where
  "zeroEntry = \<lparr>re_name = [], re_room = [], re_type = [], re_note = [], re_labels = []\<rparr>"

definition decLabels :: "json \<Rightarrow> go_error + string gomap" where
  "decLabels v =
     ebind (decMap v) (\<lambda>m. mapE (\<lambda>(k, x). ebind (decStr x) (\<lambda>s. Inr (k, s))) m)"

definition decEntry :: "json \<Rightarrow> go_error + RegistryEntry" where
  "decEntry v =
     ebind (decStruct v) (\<lambda>m.
     ebind (decStr (jfield m ''name'')) (\<lambda>n.
     ebind (decStr (jfield m ''room'')) (\<lambda>r.
     ebind (decStr (jfield m ''type'')) (\<lambda>t.
     ebind (decStr (jfield m ''note'')) (\<lambda>nt.
     ebind (decLabels (jfield m ''labels'')) (\<lambda>ls.
       Inr \<lparr>re_name = n, re_room = r, re_type = t, re_note = nt, re_labels = ls\<rparr>))))))"

definition ResolveRegistry :: "'e sysops \<Rightarrow> golib \<Rightarrow> ShellyDevice \<Rightarrow> string \<Rightarrow> 'e world
    \<Rightarrow> (go_error + RegistryEntry) \<times> 'e world" where
  "ResolveRegistry S G dev registryName w =
     (if registryName = [] then (Inr zeroEntry, w)
      else
        (let ns = m_namespace (d_meta dev); name = m_name (d_meta dev);
             (r, w) = askEnv (getConfigMap S ns registryName) w
         in case r of
              Inl err \<Rightarrow>
                (if isNotFound err then Inr zeroEntry
                 else Inl (ErrWrap (''reading registry '' @ ns @ ''/'' @ registryName @ '': '') err), w)
            | Inr data \<Rightarrow>
                (let raw = mgetS data name
                 in if raw = [] then (Inr zeroEntry, w)
                    else
                      (case ebind (parseJSON G raw) decEntry of
                         Inl err \<Rightarrow> (Inl (ErrWrap (''parsing registry entry for '' @ name @ '': '') err), w)
                       | Inr entry \<Rightarrow> (Inr entry, w)))))"

section \<open>resolve.go\<close>

definition ResolveName :: "'e sysops \<Rightarrow> golib \<Rightarrow> ShellyDevice \<Rightarrow> string \<Rightarrow> string \<Rightarrow> 'e world
    \<Rightarrow> (go_error + string) \<times> 'e world" where
  "ResolveName S G dev nameMapName registryName w =
     (let ns = m_namespace (d_meta dev); name = m_name (d_meta dev);
          fromMap = (\<lambda>w.
            if nameMapName = [] then (Inr [], w)
            else
              (let (r, w) = askEnv (getConfigMap S ns nameMapName) w
               in case r of
                    Inl err \<Rightarrow>
                      (if isNotFound err then Inr []
                       else Inl (ErrWrap (''reading name map '' @ ns @ ''/'' @ nameMapName @ '': '') err), w)
                  | Inr data \<Rightarrow> (Inr (mgetS data name), w)))
      in if ds_displayName (d_spec dev) \<noteq> [] then (Inr (ds_displayName (d_spec dev)), w)
         else if registryName \<noteq> [] then
           (case ResolveRegistry S G dev registryName w of
              (Inl err, w) \<Rightarrow> (Inl err, w)
            | (Inr entry, w) \<Rightarrow> if re_name entry \<noteq> [] then (Inr (re_name entry), w) else fromMap w)
         else fromMap w)"

definition secretValue :: "'e sysops \<Rightarrow> string \<Rightarrow> SecretKeyRef \<Rightarrow> string \<Rightarrow> 'e world
    \<Rightarrow> (go_error + string) \<times> 'e world" where
  "secretValue S namespace ref what w =
     (let full = namespace @ ''/'' @ skr_name ref;
          (r, w) = askEnv (getSecret S namespace (skr_name ref)) w
      in case r of
           Inl err \<Rightarrow> (Inl (ErrWrap (''reading '' @ what @ '' secret '' @ full @ '': '') err), w)
         | Inr data \<Rightarrow>
             (case map_of data (skr_key ref) of
                None \<Rightarrow> (Inl (ErrText (what @ '' secret '' @ full @ '' has no key '' @ quoted (skr_key ref))), w)
              | Some v \<Rightarrow> (Inr v, w)))"

definition ResolvePassword :: "'e sysops \<Rightarrow> string \<Rightarrow> AuthSection option \<Rightarrow> 'e world
    \<Rightarrow> (go_error + string) \<times> 'e world" where
  "ResolvePassword S namespace auth w =
     (case auth of
        None \<Rightarrow> (Inr [], w)
      | Some a \<Rightarrow>
          (case auth_passwordSecretRef a of
             None \<Rightarrow> (Inr [], w)
           | Some ref \<Rightarrow> secretValue S namespace ref ''password'' w))"

record WifiPasswords =
  wp_sta :: string
  wp_sta1 :: string

text \<open>One network's password: nothing is read when it declares no reference.\<close>

definition networkPassword :: "'e sysops \<Rightarrow> string \<Rightarrow> WifiNetwork option \<Rightarrow> string \<Rightarrow> 'e world
    \<Rightarrow> (go_error + string) \<times> 'e world" where
  "networkPassword S namespace net what w =
     (case net of
        None \<Rightarrow> (Inr [], w)
      | Some n \<Rightarrow>
          (case wn_passSecretRef n of
             None \<Rightarrow> (Inr [], w)
           | Some ref \<Rightarrow> secretValue S namespace ref what w))"

definition ResolveWifiPasswords :: "'e sysops \<Rightarrow> string \<Rightarrow> WifiSection option \<Rightarrow> 'e world
    \<Rightarrow> (go_error + WifiPasswords) \<times> 'e world" where
  "ResolveWifiPasswords S namespace wifi w =
     (case wifi of
        None \<Rightarrow> (Inr \<lparr>wp_sta = [], wp_sta1 = []\<rparr>, w)
      | Some net \<Rightarrow>
          (case networkPassword S namespace (wifi_sta net) ''wifi sta password'' w of
             (Inl err, w) \<Rightarrow> (Inl err, w)
           | (Inr sta, w) \<Rightarrow>
               (case networkPassword S namespace (wifi_sta1 net) ''wifi sta1 password'' w of
                  (Inl err, w) \<Rightarrow> (Inl err, w)
                | (Inr sta1, w) \<Rightarrow> (Inr \<lparr>wp_sta = sta, wp_sta1 = sta1\<rparr>, w))))"

section \<open>Label sanitisers\<close>

text \<open>
  The contract of a function whose result is used as a Kubernetes label value: at most 63
  bytes, empty or beginning and ending with an alphanumeric, and only alphanumerics, dots,
  underscores and dashes in between.
\<close>

definition labelByte :: "char \<Rightarrow> bool" where
  "labelByte c \<longleftrightarrow> isAlnumAny (byte c) \<or> c = CHR ''.'' \<or> c = CHR ''_'' \<or> c = CHR ''-''"

definition validLabel :: "string \<Rightarrow> bool" where
  "validLabel v \<longleftrightarrow> length v \<le> 63 \<and> list_all labelByte v \<and>
     (v = [] \<or> isAlnumAny (byte (hd v)) \<and> isAlnumAny (byte (last v)))"

text \<open>
  Both sanitisers map the runes of their input, cut the result at 63 bytes and trim what may
  not stand at either end.
\<close>

locale label_sanitizer =
  fixes runes :: "string \<Rightarrow> string" and keep :: "nat \<Rightarrow> bool"
  assumes runes_label: "c \<in> set (runes s) \<Longrightarrow> labelByte c"
    and keep_alnum: "keep r \<Longrightarrow> isAlnumAny r"
begin

definition sanitize :: "string \<Rightarrow> string" where
  "sanitize s = trimFunc (\<lambda>r. \<not> keep r) (take 63 (runes s))"

lemma set_sanitize: "set (sanitize s) \<subseteq> set (runes s)"
  by (auto simp: sanitize_def trimFunc_def dest!: set_dropWhileD in_set_takeD)

lemma length_sanitize: "length (sanitize s) \<le> 63"
proof -
  have "length (sanitize s) \<le> length (take 63 (runes s))"
    unfolding sanitize_def trimFunc_def
    by (metis length_dropWhile_le length_rev order_trans)
  then show ?thesis by simp
qed

lemma ends_sanitize:
  assumes "sanitize s \<noteq> []"
  shows "keep (byte (hd (sanitize s))) \<and> keep (byte (last (sanitize s)))"
proof -
  define u where "u = dropWhile (\<lambda>c. \<not> keep (byte c)) (take 63 (runes s))"
  define x where "x = dropWhile (\<lambda>c. \<not> keep (byte c)) (rev u)"
  have sx: "sanitize s = rev x" by (simp add: sanitize_def trimFunc_def u_def x_def)
  then have x: "x \<noteq> []" using assms by simp
  then have hx: "keep (byte (hd x))" unfolding x_def by (metis hd_dropWhile)
  have "u \<noteq> []" using x by (auto simp: x_def)
  then have "keep (byte (hd u))" unfolding u_def by (metis hd_dropWhile)
  moreover have "rev u = takeWhile (\<lambda>c. \<not> keep (byte c)) (rev u) @ x" by (simp add: x_def)
  then have "u = rev x @ rev (takeWhile (\<lambda>c. \<not> keep (byte c)) (rev u))"
    by (metis rev_append rev_rev_ident)
  then have "hd u = last x" using x by (metis hd_append2 hd_rev rev_is_Nil_conv)
  ultimately show ?thesis using sx x hx by (simp add: hd_rev last_rev)
qed

lemma valid_sanitize: "validLabel (sanitize s)"
  unfolding validLabel_def list_all_iff
  using set_sanitize [of s] runes_label [of _ s] ends_sanitize [of s] keep_alnum length_sanitize [of s]
  by blast

end

definition labelRunes :: "string \<Rightarrow> string" where
  "labelRunes s =
     map (\<lambda>r. if isAlnumAny r \<or> r = 46 \<or> r = 95 \<or> r = 45 then char_of r else CHR ''_'') (goRunes s)"

lemma byte_char_of: "r < 256 \<Longrightarrow> byte (char_of r) = r"
  by (simp add: byte_def)

lemma char_of_punct: "char_of (46::nat) = CHR ''.''" "char_of (95::nat) = CHR ''_''" "char_of (45::nat) = CHR ''-''"
  by code_simp+

lemma byte_punct: "byte CHR ''.'' = 46" "byte CHR ''_'' = 95" "byte CHR ''-'' = 45"
  by code_simp+

lemma byte_eq_iff: "byte c = byte d \<longleftrightarrow> c = d"
  by (simp add: byte_def)

lemma labelByte_rune:
  "isAlnumAny r \<or> r = 46 \<or> r = 95 \<or> r = 45 \<Longrightarrow> labelByte (char_of r)"
  by (auto simp: labelByte_def char_of_punct byte_char_of isAlnumAny_def)

lemma sanitizeLoop_label: "c \<in> set (sanitizeLoop prev rs) \<Longrightarrow> labelByte c"
  by (induction prev rs rule: sanitizeLoop.induct)
    (auto simp: labelByte_def isAlnum_def isAlnumAny_def char_of_punct byte_char_of split: if_splits)

interpretation dl: label_sanitizer labelRunes isAlnumAny
  by unfold_locales (auto simp: labelRunes_def labelByte_rune, simp add: labelByte_def)

definition registryRunes :: "string \<Rightarrow> string" where
  "registryRunes s = sanitizeLoop 0 (map lowerRune (goRunes s))"

interpretation rl: label_sanitizer registryRunes isAlnum
  by unfold_locales (auto dest: sanitizeLoop_label simp: isAlnum_def isAlnumAny_def registryRunes_def)

lemma sanitizeLabelValue_locale: "sanitizeLabelValue s = dl.sanitize s"
  by (auto simp: sanitizeLabelValue_def labelRunes_def dl.sanitize_def Let_def)

lemma SanitizeLabel_locale: "SanitizeLabel s = rl.sanitize s"
  by (cases s) (simp_all add: SanitizeLabel_def rl.sanitize_def registryRunes_def Let_def
      goRunes_def trimFunc_def)

text \<open>
  C40: Whatever text a device or the registry supplies (any bytes, valid UTF-8 or not), both
  sanitisers return a value the Kubernetes API accepts as a label value.
\<close>

theorem sanitizers_valid:
  "validLabel (SanitizeLabel s) \<and> validLabel (sanitizeLabelValue s)"
  using rl.valid_sanitize dl.valid_sanitize
  by (simp add: SanitizeLabel_locale sanitizeLabelValue_locale)

text \<open>Text that the registry sanitiser leaves alone: its own alphabet, no two dashes in a row.\<close>

definition registryByte :: "char \<Rightarrow> bool" where
  "registryByte c \<longleftrightarrow> isAlnum (byte c) \<or> c = CHR ''.'' \<or> c = CHR ''_'' \<or> c = CHR ''-''"

abbreviation noDashPair :: "string \<Rightarrow> bool" where
  "noDashPair \<equiv> successively (\<lambda>a b. \<not> (a = CHR ''-'' \<and> b = CHR ''-''))"

lemma sanitizeLoop_alphabet: "list_all registryByte (sanitizeLoop prev rs)"
  by (induction prev rs rule: sanitizeLoop.induct)
    (auto simp: registryByte_def isAlnum_def char_of_punct byte_char_of)

lemma sanitizeLoop_noDashPair:
  "noDashPair (sanitizeLoop prev rs) \<and>
   (prev = 45 \<longrightarrow> sanitizeLoop prev rs = [] \<or> hd (sanitizeLoop prev rs) \<noteq> CHR ''-'')"
proof (induction prev rs rule: sanitizeLoop.induct)
  case (2 prev r rs)
  have "char_of r \<noteq> CHR ''-''" if "isAlnum r \<or> r = 46 \<or> r = 95"
  proof -
    have "byte (char_of r) = r" using that by (intro byte_char_of) (auto simp: isAlnum_def)
    moreover have "byte CHR ''-'' = 45" by code_simp
    ultimately show ?thesis using that by (auto simp: isAlnum_def)
  qed
  then show ?case using 2 by (auto simp: successively_Cons)
qed simp

lemma byte_ascii_registry:
  assumes "registryByte c"
  shows "byte c < 128 \<and> lowerRune (byte c) = byte c \<and> char_of (byte c) = c"
proof -
  have "isAlnum (byte c) \<or> byte c \<in> {45, 46, 95}"
    using assms byte_punct by (auto simp: registryByte_def)
  then show ?thesis by (auto simp: isAlnum_def lowerRune_def byte_def)
qed

lemma sanitizeLoop_id:
  assumes "list_all registryByte v" "noDashPair v" "prev = 45 \<longrightarrow> v = [] \<or> hd v \<noteq> CHR ''-''"
  shows "sanitizeLoop prev (map byte v) = v"
  using assms
proof (induction v arbitrary: prev)
  case (Cons c v)
  have b: "char_of (byte c) = c" "byte CHR ''-'' = 45"
    using Cons.prems byte_ascii_registry [of c] by (simp, code_simp)
  have inj: "byte c = 45 \<longleftrightarrow> c = CHR ''-''" "byte c = 46 \<longleftrightarrow> c = CHR ''.''" "byte c = 95 \<longleftrightarrow> c = CHR ''_''"
    using b(2) byte_eq_iff [of c "CHR ''-''"] byte_eq_iff [of c "CHR ''.''"] byte_eq_iff [of c "CHR ''_''"]
      byte_punct by simp_all
  have IH: "sanitizeLoop (byte c) (map byte v) = v"
    using Cons by (intro Cons.IH) (auto simp: successively_Cons inj)
  show ?case
  proof (cases "c = CHR ''-''")
    case True
    then show ?thesis using IH Cons.prems b by (auto simp: isAlnum_def)
  next
    case False
    then have "isAlnum (byte c) \<or> byte c = 46 \<or> byte c = 95"
      using Cons.prems(1) inj by (auto simp: registryByte_def)
    then show ?thesis using IH b by simp
  qed
qed simp

text \<open>
  Sanitising a registry label is idempotent: the stamped label, read back and sanitised
  again, is itself, so a steady registry entry never makes the object look changed.
\<close>

theorem SanitizeLabel_idempotent: "SanitizeLabel (SanitizeLabel s) = SanitizeLabel s"
proof -
  define v where "v = SanitizeLabel s"
  obtain a b where ab: "sanitizeLoop 0 (map lowerRune (goRunes s)) = a @ v @ b"
  proof -
    define t where "t = take 63 (sanitizeLoop 0 (map lowerRune (goRunes s)))"
    define p where "p = (\<lambda>c. \<not> isAlnum (byte c))"
    have v: "v = rev (dropWhile p (rev (dropWhile p t)))"
      by (simp add: v_def SanitizeLabel_locale rl.sanitize_def registryRunes_def trimFunc_def t_def p_def)
    have "rev (dropWhile p t) = takeWhile p (rev (dropWhile p t)) @ rev v" by (simp add: v)
    then have "dropWhile p t = v @ rev (takeWhile p (rev (dropWhile p t)))"
      by (metis rev_append rev_rev_ident)
    then have "t = takeWhile p t @ v @ rev (takeWhile p (rev (dropWhile p t)))"
      by (metis takeWhile_dropWhile_id)
    moreover have "sanitizeLoop 0 (map lowerRune (goRunes s)) =
        t @ drop 63 (sanitizeLoop 0 (map lowerRune (goRunes s)))" by (simp add: t_def)
    ultimately show ?thesis using that by (metis append.assoc)
  qed
  have reg: "list_all registryByte v" "noDashPair v"
    using sanitizeLoop_alphabet [of 0 "map lowerRune (goRunes s)"]
      sanitizeLoop_noDashPair [of 0 "map lowerRune (goRunes s)"]
    unfolding ab by (auto simp: successively_append_iff)
  have r: "goRunes v = map byte v"
    unfolding goRunes_def
    by (rule goRunesB_ascii) (use reg byte_ascii_registry in \<open>auto simp: list_all_iff\<close>)
  have lr: "map lowerRune (map byte v) = map byte v"
    using reg byte_ascii_registry by (auto simp: list_all_iff)
  have len: "length v \<le> 63" by (simp add: v_def SanitizeLabel_locale rl.length_sanitize)
  have ends: "v \<noteq> [] \<Longrightarrow> isAlnum (byte (hd v)) \<and> isAlnum (byte (last v))"
    using rl.ends_sanitize by (simp add: v_def SanitizeLabel_locale)
  have "dropWhile (\<lambda>c. \<not> isAlnum (byte c)) v = v" "dropWhile (\<lambda>c. \<not> isAlnum (byte c)) (rev v) = rev v"
    using ends by (cases v; simp; cases "rev v"; auto simp: hd_rev [symmetric])+
  then have "trimFunc (\<lambda>r. \<not> isAlnum r) v = v" by (simp add: trimFunc_def)
  then have "SanitizeLabel v = v"
    using sanitizeLoop_id [OF reg, of 0] len by (simp add: SanitizeLabel_locale rl.sanitize_def registryRunes_def r lr del: map_map)
  then show ?thesis by (simp add: v_def)
qed

section \<open>Resolution only reads\<close>

lemma ResolveRegistry_trace: "ResolveRegistry S G dev n w = (r, w') \<Longrightarrow> w_trace w' = w_trace w"
  by (auto simp: ResolveRegistry_def Let_def split: if_splits prod.splits sum.splits dest!: askEnv_trace)

lemma ResolveName_trace: "ResolveName S G dev nm rn w = (r, w') \<Longrightarrow> w_trace w' = w_trace w"
  by (auto simp: ResolveName_def Let_def split: if_splits prod.splits sum.splits
      dest!: askEnv_trace ResolveRegistry_trace)

lemma secretValue_trace: "secretValue S ns ref what w = (r, w') \<Longrightarrow> w_trace w' = w_trace w"
  by (auto simp: secretValue_def Let_def split: prod.splits sum.splits option.splits dest!: askEnv_trace)

lemma ResolvePassword_trace: "ResolvePassword S ns auth w = (r, w') \<Longrightarrow> w_trace w' = w_trace w"
  by (auto simp: ResolvePassword_def split: option.splits dest!: secretValue_trace)

lemma networkPassword_trace: "networkPassword S ns net what w = (r, w') \<Longrightarrow> w_trace w' = w_trace w"
  by (auto simp: networkPassword_def split: option.splits dest!: secretValue_trace)

lemma ResolveWifiPasswords_trace: "ResolveWifiPasswords S ns wifi w = (r, w') \<Longrightarrow> w_trace w' = w_trace w"
  by (auto simp: ResolveWifiPasswords_def split: option.splits prod.splits sum.splits dest!: networkPassword_trace)

end
