(* ===== verification/Schedule.thy ===== *)
theory Schedule
  imports Drift Shelly_Client
begin

text \<open>
  \<open>internal/controller/firmware.go\<close> and \<open>internal/controller/schedule.go\<close>: the two pseudo-sections
  that live in the device's schedule jobs. Jobs that call \<open>Shelly.Update\<close> belong to the firmware
  section, all others to the schedule section; each plans and performs its own writes.
\<close>

section \<open>firmware.go\<close>

abbreviation sectionFirmware :: string where "sectionFirmware \<equiv> ''firmware''"
abbreviation autoUpdateTimespec :: string where "autoUpdateTimespec \<equiv> ''0 0 0 * * SUN,MON,TUE,WED,THU,FRI,SAT''"
abbreviation shellyUpdateMethod :: string where "shellyUpdateMethod \<equiv> ''Shelly.Update''"

definition firmwareEnableOf :: "ShellyProfile \<Rightarrow> bool option" where
  "firmwareEnableOf p =
     (case pc_firmware (ps_config (p_spec p)) of None \<Rightarrow> None | Some f \<Rightarrow> fw_autoUpdate f)"

definition isUpdateJob :: "ScheduleJob \<Rightarrow> bool" where
  "isUpdateJob j = list_ex (\<lambda>c. sc_method c = shellyUpdateMethod) (j_calls j)"

definition hasNonStableUpdateCall :: "ScheduleJob \<Rightarrow> bool" where
  "hasNonStableUpdateCall j =
     list_ex (\<lambda>c. sc_method c = shellyUpdateMethod \<and>
        (case map_of (sc_params c) ''stage'' of
           None \<Rightarrow> False
         | Some stage \<Rightarrow> stage \<noteq> JStr ''stable'')) (j_calls j)"

fun firmwareOffenders :: "bool \<Rightarrow> ScheduleJob list \<Rightarrow> int list \<times> bool" where
  "firmwareOffenders want [] = ([], False)"
| "firmwareOffenders want (j # js) =
     (let (offenders, hasCompliant) = firmwareOffenders want js
      in if \<not> isUpdateJob j then (offenders, hasCompliant)
         else if want \<and> j_enable j \<and> \<not> hasNonStableUpdateCall j then (offenders, True)
         else (j_id j # offenders, hasCompliant))"

definition firmwareFinding :: "string \<Rightarrow> json \<Rightarrow> json \<Rightarrow> Finding" where
  "firmwareFinding path want hv = \<lparr>f_section = sectionFirmware, f_path = path, f_want = want, f_have = hv\<rparr>"

definition jobFinding :: "bool \<Rightarrow> ScheduleJob \<Rightarrow> Finding list" where
  "jobFinding want j =
     (let path = ''job:'' @ itoa (j_id j)
      in if \<not> isUpdateJob j then []
         else if hasNonStableUpdateCall j
         then [firmwareFinding path (JStr ''no non-stable Shelly.Update job'') (JStr ''non-stable stage'')]
         else if \<not> want then [firmwareFinding path (JStr ''no Shelly.Update job'') (JStr ''present'')]
         else if \<not> j_enable j then [firmwareFinding path (JStr ''enabled'') (JStr ''disabled'')]
         else [])"

definition firmwareFindings :: "bool \<Rightarrow> ScheduleJob list \<Rightarrow> Finding list" where
  "firmwareFindings want jobs =
     concat (map (jobFinding want) jobs) @
     (let (_, hasCompliant) = firmwareOffenders want jobs
      in if want \<and> \<not> hasCompliant then [firmwareFinding ''autoUpdate'' (JBool True) (JBool False)] else [])"

definition appendFirmwareFindings :: "'w conn \<Rightarrow> ShellyProfile \<Rightarrow> Finding list \<Rightarrow> 'w
    \<Rightarrow> (go_error + Finding list) \<times> 'w" where
  "appendFirmwareFindings cn profile fs w =
     (case firmwareEnableOf profile of
        None \<Rightarrow> (Inr fs, w)
      | Some want \<Rightarrow>
          (case ListSchedules cn w of
             (Inl err, w) \<Rightarrow> (Inl err, w)
           | (Inr jobs, w) \<Rightarrow> (Inr (fs @ firmwareFindings want jobs), w)))"

fun deleteJobs :: "'w conn \<Rightarrow> int list \<Rightarrow> 'w \<Rightarrow> go_error option \<times> 'w" where
  "deleteJobs cn [] w = (None, w)"
| "deleteJobs cn (i # is) w =
     (case DeleteSchedule cn i w of
        (Some err, w) \<Rightarrow> (Some (ErrWrap (''deleting schedule job '' @ itoa i @ '': '') err), w)
      | (None, w) \<Rightarrow> deleteJobs cn is w)"

definition autoUpdateJob :: ScheduleJob where
  "autoUpdateJob = \<lparr>j_id = 0, j_enable = True, j_timespec = autoUpdateTimespec,
     j_calls = [\<lparr>sc_method = shellyUpdateMethod, sc_params = [(''stage'', JStr ''stable'')]\<rparr>]\<rparr>"

definition applyFirmware :: "'w conn \<Rightarrow> bool \<Rightarrow> 'w \<Rightarrow> go_error option \<times> 'w" where
  "applyFirmware cn want w =
     (case ListSchedules cn w of
        (Inl err, w) \<Rightarrow> (Some (ErrWrap ''listing schedule jobs: '' err), w)
      | (Inr jobs, w) \<Rightarrow>
          (let (offenders, hasCompliant) = firmwareOffenders want jobs
           in case deleteJobs cn offenders w of
                (Some err, w) \<Rightarrow> (Some err, w)
              | (None, w) \<Rightarrow>
                  if want \<and> \<not> hasCompliant then
                    (case CreateSchedule cn autoUpdateJob w of
                       (Inl err, w) \<Rightarrow> (Some (ErrWrap ''creating auto-update job: '' err), w)
                     | (Inr _, w) \<Rightarrow> (None, w))
                  else (None, w)))"

section \<open>schedule.go\<close>

abbreviation sectionSchedule :: string where "sectionSchedule \<equiv> ''schedule''"

definition specIsUpdateJob :: "ScheduleJobSpec \<Rightarrow> bool" where
  "specIsUpdateJob spec = list_ex (\<lambda>c. equalFold (cs_method c) shellyUpdateMethod) (js_calls spec)"

datatype actionKind = ActionCreate | ActionDelete | ActionUpdate

record scheduleAction =
  a_kind :: actionKind
  a_id :: int
  a_job :: ScheduleJob
  a_finding :: Finding

definition scheduleSectionOf :: "ShellyProfile \<Rightarrow> ScheduleSection option" where
  "scheduleSectionOf p = pc_schedules (ps_config (p_spec p))"

definition enableOf :: "ScheduleJobSpec \<Rightarrow> bool" where
  "enableOf spec = (case js_enable spec of None \<Rightarrow> True | Some b \<Rightarrow> b)"

definition specCall :: "ScheduleCallSpec \<Rightarrow> go_error + ScheduleCall" where
  "specCall c =
     (case cs_params c of
        None \<Rightarrow> Inr \<lparr>sc_method = cs_method c, sc_params = []\<rparr>
      | Some raw \<Rightarrow>
          (case unmarshalMap raw of
             Inl err \<Rightarrow> Inl (ErrWrap (''schedule: unmarshalling params for '' @ cs_method c @ '': '') err)
           | Inr ps \<Rightarrow> Inr \<lparr>sc_method = cs_method c, sc_params = ps\<rparr>))"

definition specCalls :: "ScheduleCallSpec list \<Rightarrow> go_error + ScheduleCall list" where
  "specCalls calls = mapE specCall calls"

definition normaliseParams :: "golib \<Rightarrow> jmap \<Rightarrow> string" where
  "normaliseParams G p =
     (if p = [] then ''{}''
      else jsonMarshal G (JObj (map (\<lambda>k. (k, orNull (map_of p k))) (sortedKeys p))))"

text \<open>The parameters of a declared call; the unmarshal error is ignored and leaves the nil map.\<close>

definition specParams :: "ScheduleCallSpec \<Rightarrow> jmap" where
  "specParams c =
     (case cs_params c of
        None \<Rightarrow> []
      | Some raw \<Rightarrow> (case unmarshalMap raw of Inl _ \<Rightarrow> [] | Inr ps \<Rightarrow> ps))"

definition callsMatch :: "golib \<Rightarrow> ScheduleCall \<Rightarrow> ScheduleCallSpec \<Rightarrow> bool" where
  "callsMatch G deviceCall spec =
     (if sc_method deviceCall \<noteq> cs_method spec then False
      else normaliseParams G (sc_params deviceCall) = normaliseParams G (specParams spec))"

definition jobSpecMatchesDevice :: "golib \<Rightarrow> ScheduleJob \<Rightarrow> ScheduleJobSpec \<Rightarrow> bool" where
  "jobSpecMatchesDevice G job spec =
     (if j_timespec job \<noteq> js_timespec spec then False
      else if length (j_calls job) \<noteq> length (js_calls spec) then False
      else list_all (\<lambda>(c, s). callsMatch G c s) (zip (j_calls job) (js_calls spec)))"

definition scheduleFinding :: "string \<Rightarrow> json \<Rightarrow> json \<Rightarrow> Finding" where
  "scheduleFinding path want hv = \<lparr>f_section = sectionSchedule, f_path = path, f_want = want, f_have = hv\<rparr>"

definition updateAction :: "ScheduleJobSpec \<Rightarrow> ScheduleJob \<Rightarrow> scheduleAction list" where
  "updateAction spec dj =
     (let wantEnable = enableOf spec
      in if j_enable dj = wantEnable then []
         else [\<lparr>a_kind = ActionUpdate, a_id = j_id dj, a_job = dj\<lparr>j_enable := wantEnable\<rparr>,
                a_finding = scheduleFinding (''job:'' @ itoa (j_id dj) @ '':enable'')
                  (JBool wantEnable) (JBool (j_enable dj))\<rparr>])"

text \<open>The first pass over the declared jobs: the update actions and the two lists of flags.\<close>

definition findMatch :: "golib \<Rightarrow> ScheduleJobSpec \<Rightarrow> ScheduleJob list \<Rightarrow> bool list \<Rightarrow> nat option" where
  "findMatch G spec owned deviceMatched =
     find (\<lambda>di. \<not> deviceMatched ! di \<and> jobSpecMatchesDevice G (owned ! di) spec) [0..<length owned]"

fun firstPass :: "golib \<Rightarrow> ScheduleJobSpec list \<Rightarrow> ScheduleJob list \<Rightarrow> bool list
    \<Rightarrow> scheduleAction list \<times> bool list \<times> bool list" where
  "firstPass G [] owned deviceMatched = ([], [], deviceMatched)"
| "firstPass G (spec # specs) owned deviceMatched =
     (case (if specIsUpdateJob spec then None else findMatch G spec owned deviceMatched) of
        None \<Rightarrow>
          (let (as, matched, dm) = firstPass G specs owned deviceMatched in (as, False # matched, dm))
      | Some di \<Rightarrow>
          (let (as, matched, dm) = firstPass G specs owned (deviceMatched[di := True])
           in (updateAction spec (owned ! di) @ as, True # matched, dm)))"

definition createAction :: "int \<Rightarrow> ScheduleJobSpec \<Rightarrow> scheduleAction" where
  "createAction si spec =
     \<lparr>a_kind = ActionCreate, a_id = 0,
      a_job = \<lparr>j_id = -1 - si, j_enable = enableOf spec, j_timespec = js_timespec spec, j_calls = []\<rparr>,
      a_finding = scheduleFinding (''spec:'' @ itoa si @ '':timespec='' @ js_timespec spec)
        (JStr ''present'') (JStr ''absent'')\<rparr>"

fun createActions :: "int \<Rightarrow> ScheduleJobSpec list \<Rightarrow> bool list \<Rightarrow> scheduleAction list" where
  "createActions si [] matched = []"
| "createActions si (spec # specs) matched =
     (if hd matched \<or> specIsUpdateJob spec then [] else [createAction si spec])
     @ createActions (si + 1) specs (tl matched)"

definition deleteAction :: "ScheduleJob \<Rightarrow> scheduleAction" where
  "deleteAction dj =
     \<lparr>a_kind = ActionDelete, a_id = j_id dj, a_job = dj,
      a_finding = scheduleFinding (''job:'' @ itoa (j_id dj)) (JStr ''absent'') (JStr ''present'')\<rparr>"

definition deleteActions :: "ScheduleJob list \<Rightarrow> bool list \<Rightarrow> scheduleAction list" where
  "deleteActions owned deviceMatched =
     map (\<lambda>(dj, m). deleteAction dj) (filter (\<lambda>(dj, m). \<not> m) (zip owned deviceMatched))"

definition ownedJobs :: "ScheduleJob list \<Rightarrow> ScheduleJob list" where
  "ownedJobs deviceJobs = filter (\<lambda>j. \<not> isUpdateJob j) deviceJobs"

definition scheduleActions :: "golib \<Rightarrow> ScheduleSection option \<Rightarrow> ScheduleJob list \<Rightarrow> scheduleAction list" where
  "scheduleActions G sec deviceJobs =
     (case sec of
        None \<Rightarrow> []
      | Some s \<Rightarrow>
          (let owned = ownedJobs deviceJobs;
               (updates, matched, deviceMatched) =
                 firstPass G (ss_jobs s) owned (replicate (length owned) False)
           in updates @ createActions 0 (ss_jobs s) matched @ deleteActions owned deviceMatched))"

definition appendScheduleFindings :: "golib \<Rightarrow> 'w conn \<Rightarrow> ShellyProfile \<Rightarrow> Finding list \<Rightarrow> 'w
    \<Rightarrow> (go_error + Finding list) \<times> 'w" where
  "appendScheduleFindings G cn profile fs w =
     (case scheduleSectionOf profile of
        None \<Rightarrow> (Inr fs, w)
      | Some sec \<Rightarrow>
          (case ListSchedules cn w of
             (Inl err, w) \<Rightarrow> (Inl err, w)
           | (Inr jobs, w) \<Rightarrow> (Inr (fs @ map a_finding (scheduleActions G (Some sec) jobs)), w)))"

text \<open>One action; a created job is built from the spec its sentinel id points back to.\<close>

definition runAction :: "'w conn \<Rightarrow> ScheduleJobSpec list \<Rightarrow> scheduleAction \<Rightarrow> 'w \<Rightarrow> go_error option \<times> 'w" where
  "runAction cn specs a w =
     (case a_kind a of
        ActionCreate \<Rightarrow>
          (let si = -1 - j_id (a_job a)
           in if si < 0 \<or> si \<ge> int (length specs)
              then (Some (ErrText (''schedule: internal: invalid spec index '' @ itoa si)), w)
              else
                (let spec = specs ! nat si
                 in case specCalls (js_calls spec) of
                      Inl err \<Rightarrow> (Some err, w)
                    | Inr calls \<Rightarrow>
                        (case CreateSchedule cn \<lparr>j_id = 0, j_enable = enableOf spec,
                                j_timespec = js_timespec spec, j_calls = calls\<rparr> w of
                           (Inl err, w) \<Rightarrow>
                             (Some (ErrWrap (''creating schedule job '' @ quoted (js_timespec spec) @ '': '') err), w)
                         | (Inr _, w) \<Rightarrow> (None, w))))
      | ActionUpdate \<Rightarrow>
          (case UpdateSchedule cn (a_job a) w of
             (Some err, w) \<Rightarrow> (Some (ErrWrap (''updating schedule job '' @ itoa (a_id a) @ '': '') err), w)
           | (None, w) \<Rightarrow> (None, w))
      | ActionDelete \<Rightarrow>
          (case DeleteSchedule cn (a_id a) w of
             (Some err, w) \<Rightarrow> (Some (ErrWrap (''deleting schedule job '' @ itoa (a_id a) @ '': '') err), w)
           | (None, w) \<Rightarrow> (None, w)))"

fun runActions :: "'w conn \<Rightarrow> ScheduleJobSpec list \<Rightarrow> scheduleAction list \<Rightarrow> 'w \<Rightarrow> go_error option \<times> 'w" where
  "runActions cn specs [] w = (None, w)"
| "runActions cn specs (a # as) w =
     (case runAction cn specs a w of
        (Some err, w) \<Rightarrow> (Some err, w)
      | (None, w) \<Rightarrow> runActions cn specs as w)"

definition applySchedule :: "golib \<Rightarrow> 'w conn \<Rightarrow> ShellyProfile \<Rightarrow> 'w \<Rightarrow> go_error option \<times> 'w" where
  "applySchedule G cn profile w =
     (case scheduleSectionOf profile of
        None \<Rightarrow> (None, w)
      | Some sec \<Rightarrow>
          (case ListSchedules cn w of
             (Inl err, w) \<Rightarrow> (Some (ErrWrap ''listing schedule jobs: '' err), w)
           | (Inr jobs, w) \<Rightarrow> runActions cn (ss_jobs sec) (scheduleActions G (Some sec) jobs) w))"

end
