(* ===== verification/Window.thy ===== *)
theory Window
  imports Shelly_Client
begin

text \<open>
  \<open>internal/controller/rebootwindow.go\<close>: the daily maintenance window. A time is a number of
  nanoseconds since the Unix epoch; a location gives the offset of its wall clock from UTC, in
  seconds, at a time.
\<close>

text \<open>
  \<open>time.Parse("15:04", s)\<close>: an hour of one or two digits below 24, a colon, exactly two digits
  of minutes below 60, and nothing after them.
\<close>

definition parseHHMM :: "string \<Rightarrow> go_error + int" where
  "parseHHMM s =
     (let bad = Inl (ErrText (quoted s @ '' is not HH:MM''));
          h = (if length s \<ge> 2 \<and> isDigitByte (s ! 0) \<and> isDigitByte (s ! 1) then take 2 s
               else if s \<noteq> [] \<and> isDigitByte (s ! 0) then take 1 s else []);
          rest = drop (length h) s;
          hour = foldl (\<lambda>n c. 10 * n + int (digitVal c)) 0 h
      in if h = [] \<or> hour \<ge> 24 then bad
         else
           (case rest of
              [c, a, b] \<Rightarrow>
                if c = CHR '':'' \<and> isDigitByte a \<and> isDigitByte b \<and> digitVal a < 6
                then Inr (hour * 60 + 10 * int (digitVal a) + int (digitVal b))
                else bad
            | _ \<Rightarrow> bad))"

definition minutesOfDay :: "(time \<Rightarrow> int) \<Rightarrow> time \<Rightarrow> int" where
  "minutesOfDay offset now = ((now div 1000000000 + offset now) mod 86400) div 60"

definition withinRebootWindow :: "golib \<Rightarrow> time \<Rightarrow> RebootWindow option \<Rightarrow> go_error + bool" where
  "withinRebootWindow G now w =
     (case w of
        None \<Rightarrow> Inr True
      | Some w \<Rightarrow>
          (case (if rw_timeZone w \<noteq> [] then loadLocation G (rw_timeZone w) else Some (\<lambda>t. 0)) of
             None \<Rightarrow> Inl (ErrText (''reboot window timeZone '' @ quoted (rw_timeZone w) @ '': unknown time zone ''
                          @ rw_timeZone w))
           | Some loc \<Rightarrow>
               (case parseHHMM (rw_start w) of
                  Inl err \<Rightarrow> Inl (ErrWrap ''reboot window start: '' err)
                | Inr start \<Rightarrow>
                    (case parseHHMM (rw_end w) of
                       Inl err \<Rightarrow> Inl (ErrWrap ''reboot window end: '' err)
                     | Inr end \<Rightarrow>
                         (let mins = minutesOfDay loc now
                          in if start = end
                             then Inl (ErrText (''reboot window start and end are both '' @ quoted (rw_start w)
                                       @ '', which never opens''))
                             else if start < end then Inr (start \<le> mins \<and> mins < end)
                             else Inr (start \<le> mins \<or> mins < end))))))"

lemma digitVal_bound: "isDigitByte c \<Longrightarrow> digitVal c < 10"
  by (auto simp: isDigitByte_def digitVal_def)

lemma parse_range:
  assumes "parseHHMM s = Inr m"
  shows "0 \<le> m \<and> m < 1440"
proof -
  from assms obtain h a b where m: "m = h * 60 + 10 * int (digitVal a) + int (digitVal b)"
      "h < 24" "digitVal a < 6" "isDigitByte b" and
      h: "h = foldl (\<lambda>n c. 10 * n + int (digitVal c)) 0
          (if length s \<ge> 2 \<and> isDigitByte (s ! 0) \<and> isDigitByte (s ! 1) then take 2 s
           else if s \<noteq> [] \<and> isDigitByte (s ! 0) then take 1 s else [])"
    by (auto simp: parseHHMM_def Let_def split: list.splits if_splits)
  have "0 \<le> foldl (\<lambda>n c. 10 * n + int (digitVal c)) k xs" if "0 \<le> k" for k xs
    using that by (induction xs arbitrary: k) simp_all
  then have "0 \<le> h" by (simp only: h)
  then show ?thesis using m digitVal_bound [OF m(4)] by simp
qed

text \<open>Adding days does not matter: the clock of the window is circular.\<close>

definition minutesAfter :: "int \<Rightarrow> int \<Rightarrow> int" where
  "minutesAfter start m = (m - start) mod 1440"

lemma minutesOfDay_range: "0 \<le> minutesOfDay offset now \<and> minutesOfDay offset now < 1440"
proof -
  define x where "x = (now div 1000000000 + offset now) mod 86400"
  have "0 \<le> x" "x < 86400" by (simp_all add: x_def)
  then have "0 \<le> x div 60" "x div 60 < 1440" by auto
  then show ?thesis by (simp add: minutesOfDay_def x_def)
qed

lemma minutesAfter_cases:
  assumes "0 \<le> s" "s < 1440" "0 \<le> x" "x < 1440"
  shows "minutesAfter s x = (if s \<le> x then x - s else x - s + 1440)"
proof (cases "s \<le> x")
  case True
  then show ?thesis using assms by (simp add: minutesAfter_def)
next
  case False
  have "(x - s) mod 1440 = (x - s + 1440) mod 1440" by (metis mod_add_self2)
  also have "\<dots> = x - s + 1440" using False assms by (intro mod_pos_pos_trivial) auto
  finally show ?thesis using False by (simp add: minutesAfter_def)
qed

text \<open>
  C33: A window is a circular interval of the day, half-open at its end: with bounds that
  parse and differ, a time is inside exactly when, counting minutes from the start around the
  clock, it comes before the end. This covers windows that wrap over midnight.
\<close>

theorem withinRebootWindow_circular:
  assumes "parseHHMM (rw_start w) = Inr s" "parseHHMM (rw_end w) = Inr e" "s \<noteq> e"
    and "(if rw_timeZone w = [] then Some (\<lambda>t. 0) else loadLocation G (rw_timeZone w)) = Some loc"
  shows "withinRebootWindow G now (Some w) =
    Inr (minutesAfter s (minutesOfDay loc now) < minutesAfter s e)"
proof -
  have b: "0 \<le> s" "s < 1440" "0 \<le> e" "e < 1440"
    using parse_range [OF assms(1)] parse_range [OF assms(2)] by auto
  have l: "(if rw_timeZone w \<noteq> [] then loadLocation G (rw_timeZone w) else Some (\<lambda>t. 0)) = Some loc"
    using assms(4) by (simp split: if_splits)
  let ?m = "minutesOfDay loc now"
  have m: "0 \<le> ?m" "?m < 1440" using minutesOfDay_range [of loc now] by auto
  show ?thesis
    unfolding withinRebootWindow_def option.case l assms(1,2) sum.case Let_def
    using assms(3) b m by (auto simp: minutesAfter_cases)
qed

theorem withinRebootWindow_circular_witness:
  "withinRebootWindow exampleLib 0 (Some \<lparr>rw_start = ''23:00'', rw_end = ''01:00'', rw_timeZone = []\<rparr>) = Inr True"
proof -
  let ?w = "\<lparr>rw_start = ''23:00'', rw_end = ''01:00'', rw_timeZone = []\<rparr>"
  have p: "parseHHMM (rw_start ?w) = Inr 1380" "parseHHMM (rw_end ?w) = Inr 60" by code_simp+
  have n: "(1380::int) \<noteq> 60" by simp
  have l: "(if rw_timeZone ?w = [] then Some (\<lambda>t. 0) else loadLocation exampleLib (rw_timeZone ?w)) = Some (\<lambda>t. 0)"
    by simp
  show ?thesis using withinRebootWindow_circular [OF p n l, of 0]
    by (simp add: minutesAfter_def minutesOfDay_def)
qed

text \<open>
  C34: A window that cannot be understood (an unknown time zone, a bound that is no clock time,
  or equal bounds) is an error, never "open".
\<close>

theorem withinRebootWindow_fails_closed:
  "(\<exists>err. withinRebootWindow G now (Some w) = Inl err) \<longleftrightarrow>
     (rw_timeZone w \<noteq> [] \<and> loadLocation G (rw_timeZone w) = None) \<or>
     (\<exists>err. parseHHMM (rw_start w) = Inl err) \<or> (\<exists>err. parseHHMM (rw_end w) = Inl err) \<or>
     parseHHMM (rw_start w) = parseHHMM (rw_end w)"
  by (auto simp: withinRebootWindow_def Let_def split: option.splits sum.splits if_splits)


end
