(* ===== verification/Schedule_Store.thy ===== *)
theory Schedule_Store
  imports Schedule Client_Device
begin

text \<open>
  The interface both schedule sections rely on: a store of jobs reached through the four typed
  calls. The convergence of \<open>applyFirmware\<close> and \<open>applySchedule\<close> is proved once for every such
  store, and the store is then interpreted on the emulated device.
\<close>

section \<open>The planning functions\<close>

lemma findings_iff:
  "firmwareFindings want jobs = [] \<longleftrightarrow>
     fst (firmwareOffenders want jobs) = [] \<and> (want = False \<or> snd (firmwareOffenders want jobs))"
proof -
  have "concat (map (jobFinding want) jobs) = [] \<longleftrightarrow> fst (firmwareOffenders want jobs) = []"
  proof (induction jobs)
    case (Cons j js)
    then show ?case
      by (auto simp: jobFinding_def split_beta Let_def split: if_splits)
  qed simp
  then show ?thesis
    by (auto simp: firmwareFindings_def split_beta Let_def)
qed

lemma offenders_ids: "fst (firmwareOffenders want jobs) =
    map j_id (filter (\<lambda>j. isUpdateJob j \<and> \<not> (want \<and> j_enable j \<and> \<not> hasNonStableUpdateCall j)) jobs)"
  by (induction jobs) (auto simp: split_beta Let_def)

lemma offenders_compliant: "snd (firmwareOffenders want jobs) \<longleftrightarrow>
    (\<exists>j \<in> set jobs. isUpdateJob j \<and> want \<and> j_enable j \<and> \<not> hasNonStableUpdateCall j)"
  by (induction jobs) (auto simp: split_beta Let_def)

text \<open>Two declared or reported jobs match when these keys are equal.\<close>

definition jobKey :: "golib \<Rightarrow> ScheduleJob \<Rightarrow> string \<times> (string \<times> string) list" where
  "jobKey G j = (j_timespec j, map (\<lambda>c. (sc_method c, normaliseParams G (sc_params c))) (j_calls j))"

definition specKey :: "golib \<Rightarrow> ScheduleJobSpec \<Rightarrow> string \<times> (string \<times> string) list" where
  "specKey G s = (js_timespec s, map (\<lambda>c. (cs_method c, normaliseParams G (specParams c))) (js_calls s))"

lemma matches_keys: "jobSpecMatchesDevice G j s \<longleftrightarrow> jobKey G j = specKey G s"
proof -
  have "length cs = length ss \<Longrightarrow>
      list_all (\<lambda>(c, s). callsMatch G c s) (zip cs ss) \<longleftrightarrow>
      map (\<lambda>c. (sc_method c, normaliseParams G (sc_params c))) cs =
      map (\<lambda>c. (cs_method c, normaliseParams G (specParams c))) ss" for cs ss
    by (induction cs ss rule: list_induct2) (auto simp: callsMatch_def)
  moreover have "map f cs = map g ss \<Longrightarrow> length cs = length ss"
    for f :: "ScheduleCall \<Rightarrow> string \<times> string" and g cs and ss :: "ScheduleCallSpec list"
    by (metis length_map)
  ultimately show ?thesis
    by (auto simp: jobSpecMatchesDevice_def jobKey_def specKey_def)
qed

lemma jobKey_enable [simp]: "jobKey G (j\<lparr>j_enable := b\<rparr>) = jobKey G j" "jobKey G (j\<lparr>j_id := i\<rparr>) = jobKey G j"
  by (simp_all add: jobKey_def)

lemma isUpdateJob_enable [simp]: "isUpdateJob (j\<lparr>j_enable := b\<rparr>) = isUpdateJob j"
    "isUpdateJob (j\<lparr>j_id := i\<rparr>) = isUpdateJob j"
  by (simp_all add: isUpdateJob_def)

text \<open>
  Observing and enforcing the firmware section agree: a finding is reported exactly when
  enforcement would delete a job or create the standard one.
\<close>

theorem firmwareFindings_iff:
  "firmwareFindings want jobs = [] \<longleftrightarrow>
     fst (firmwareOffenders want jobs) = [] \<and> (want = False \<or> snd (firmwareOffenders want jobs))"
  by (rule findings_iff)

section \<open>What the first pass assigns\<close>

text \<open>
  The plan seen from the declaration: which reported job (by id) is to carry which enable flag,
  and which declared jobs find no partner.
\<close>

fun assign :: "golib \<Rightarrow> ScheduleJobSpec list \<Rightarrow> ScheduleJob list \<Rightarrow> (int \<Rightarrow> bool option)
    \<Rightarrow> (int \<Rightarrow> bool option) \<times> ScheduleJobSpec list" where
  "assign G [] owned A = (A, [])"
| "assign G (s # ss) owned A =
     (if specIsUpdateJob s then assign G ss owned A
      else
        (case find (\<lambda>j. A (j_id j) = None \<and> jobKey G j = specKey G s) owned of
           None \<Rightarrow> apsnd ((#) s) (assign G ss owned A)
         | Some j \<Rightarrow> assign G ss owned (A(j_id j \<mapsto> enableOf s))))"

definition replaceJob :: "ScheduleJob \<Rightarrow> ScheduleJob list \<Rightarrow> ScheduleJob list" where
  "replaceJob job J = map (\<lambda>j. if j_id j = j_id job then job else j) J"

definition setEnable :: "(int \<Rightarrow> bool option) \<Rightarrow> ScheduleJob \<Rightarrow> ScheduleJob" where
  "setEnable A j = (case A (j_id j) of None \<Rightarrow> j | Some e \<Rightarrow> j\<lparr>j_enable := e\<rparr>)"

lemma setEnable_simps [simp]:
  "j_id (setEnable A j) = j_id j" "jobKey G (setEnable A j) = jobKey G j"
  "isUpdateJob (setEnable A j) = isUpdateJob j"
  by (simp_all add: setEnable_def split: option.split)

lemma find_index:
  "find P xs = map_option ((!) xs) (find (\<lambda>i. P (xs ! i)) [0..<length xs])"
proof (induction xs)
  case (Cons x xs)
  have "find (\<lambda>i. P ((x # xs) ! i)) [0..<length (x # xs)] =
      (if P x then Some 0 else map_option Suc (find (\<lambda>i. P (xs ! i)) [0..<length xs]))"
  proof -
    have "find (\<lambda>i. P ((x # xs) ! i)) (map Suc ns) = map_option Suc (find (\<lambda>i. P (xs ! i)) ns)" for ns
      by (induction ns) auto
    then show ?thesis
      by (simp add: upt_conv_Cons map_Suc_upt [symmetric] del: upt_Suc map_Suc_upt)
  qed
  then show ?case using Cons by (auto simp: option.map_comp comp_def)
qed simp

lemma find_upt: "find Q [0..<n] = Some i \<Longrightarrow> i < n \<and> Q i"
  by (metis atLeastLessThan_iff find_SomeD set_upt)

lemma find_cong_set: "(\<And>x. x \<in> set xs \<Longrightarrow> P x = Q x) \<Longrightarrow> find P xs = find Q xs"
  by (induction xs) auto

text \<open>The flags of the first pass are the domain of the assignment.\<close>

definition flags :: "(int \<Rightarrow> bool option) \<Rightarrow> ScheduleJob list \<Rightarrow> bool list" where
  "flags A owned = map (\<lambda>j. A (j_id j) \<noteq> None) owned"

lemma flags_simps [simp]:
  "length (flags A owned) = length owned"
  "i < length owned \<Longrightarrow> flags A owned ! i \<longleftrightarrow> A (j_id (owned ! i)) \<noteq> None"
  by (simp_all add: flags_def)

lemma findMatch_find:
  "find (\<lambda>j. A (j_id j) = None \<and> jobKey G j = specKey G s) owned =
   map_option ((!) owned) (findMatch G s owned (flags A owned))"
  unfolding findMatch_def
  by (subst find_index) (auto intro!: arg_cong [where f = "map_option ((!) owned)"] find_cong_set simp: matches_keys)

lemma flags_update:
  assumes "distinct (map j_id owned)" "i < length owned"
  shows "(flags A owned)[i := True] = flags (A(j_id (owned ! i) \<mapsto> e)) owned"
proof (rule nth_equalityI)
  fix k assume "k < length ((flags A owned)[i := True])"
  moreover have "j_id (owned ! k) = j_id (owned ! i) \<longleftrightarrow> k = i" if "k < length owned"
    using that assms by (metis length_map nth_eq_iff_index_eq nth_map)
  ultimately show "(flags A owned)[i := True] ! k = flags (A(j_id (owned ! i) \<mapsto> e)) owned ! k"
    by (auto simp: nth_list_update)
qed simp

lemma replaceJob_setEnable:
  assumes "distinct (map j_id J)" "j \<in> set J" "A (j_id j) = None"
  shows "replaceJob (j\<lparr>j_enable := e\<rparr>) (map (setEnable A) J) = map (setEnable (A(j_id j \<mapsto> e))) J"
  unfolding replaceJob_def map_map
proof (rule map_cong [OF refl])
  fix j' assume "j' \<in> set J"
  then show "((\<lambda>x. if j_id x = j_id (j\<lparr>j_enable := e\<rparr>) then j\<lparr>j_enable := e\<rparr> else x) \<circ> setEnable A) j' =
      setEnable (A(j_id j \<mapsto> e)) j'"
    using assms by (auto simp: setEnable_def distinct_map dest: inj_onD split: option.split)
qed

lemma updateAction_setEnable:
  assumes "distinct (map j_id J)" "j \<in> set J" "A (j_id j) = None"
  shows "foldl (\<lambda>J a. replaceJob (a_job a) J) (map (setEnable A) J) (updateAction s j) =
    map (setEnable (A(j_id j \<mapsto> enableOf s))) J"
proof (cases "j_enable j = enableOf s")
  case True
  have "setEnable A j' = setEnable (A(j_id j \<mapsto> enableOf s)) j'" if "j' \<in> set J" for j'
    using that True assms by (auto simp: setEnable_def distinct_map dest!: inj_onD split: option.split)
  then show ?thesis using True by (simp add: updateAction_def)
next
  case False
  then show ?thesis using replaceJob_setEnable [OF assms(1,2), of A] assms(3) by (simp add: updateAction_def Let_def)
qed

text \<open>
  The first pass performs the assignment: the same flags, the unmatched declarations to create,
  and updates that set exactly the enable flags that differ.
\<close>

lemma firstPass_assign:
  assumes "distinct (map j_id J)" "distinct (map j_id owned)" "set owned \<subseteq> set J"
    and "firstPass G ss owned (flags A owned) = (as, ms, dm)" "assign G ss owned A = (A', us)"
  shows "dm = flags A' owned \<and> length ms = length ss \<and>
    us = map fst (filter (\<lambda>(s, m). \<not> m \<and> \<not> specIsUpdateJob s) (zip ss ms)) \<and>
    (\<forall>a \<in> set as. a_kind a = ActionUpdate \<and>
       (\<exists>j \<in> set owned. \<exists>e. a_job a = j\<lparr>j_enable := e\<rparr> \<and> A' (j_id j) = Some e \<and> e \<noteq> j_enable j)) \<and>
    foldl (\<lambda>J a. replaceJob (a_job a) J) (map (setEnable A) J) as = map (setEnable A') J \<and>
    A \<subseteq>\<^sub>m A'"
  using assms(4,5)
proof (induction ss arbitrary: A as ms dm A' us)
  case (Cons s ss)
  show ?case
  proof (cases "specIsUpdateJob s \<or> findMatch G s owned (flags A owned) = None")
    case True
    obtain as1 ms1 dm1 where fp: "firstPass G ss owned (flags A owned) = (as1, ms1, dm1)" by (metis prod_cases3)
    obtain A1 us1 where asg: "assign G ss owned A = (A1, us1)" by force
    have c: "(if specIsUpdateJob s then None else findMatch G s owned (flags A owned)) = None"
      using True by auto
    have "as = as1" "ms = False # ms1" "dm = dm1"
      using Cons.prems(1) fp by (simp_all add: c)
    moreover have "A' = A1" "us = (if specIsUpdateJob s then us1 else s # us1)"
      using True Cons.prems(2) asg by (auto simp: findMatch_find split: if_splits)
    ultimately show ?thesis using Cons.IH [OF fp asg] by simp
  next
    case False
    then obtain di where nu: "\<not> specIsUpdateJob s" and di: "findMatch G s owned (flags A owned) = Some di"
      by auto
    let ?j = "owned ! di" and ?e = "enableOf s"
    let ?A1 = "A(j_id (owned ! di) \<mapsto> enableOf s)"
    have b: "di < length owned" "A (j_id ?j) = None" "jobKey G ?j = specKey G s"
      using find_upt [OF di [unfolded findMatch_def]] by (auto simp: matches_keys)
    obtain as1 ms1 where fp: "firstPass G ss owned (flags ?A1 owned) = (as1, ms1, dm)"
      and as: "as = updateAction s ?j @ as1" "ms = True # ms1"
      using Cons.prems(1) nu di flags_update [OF assms(2) b(1), of A ?e]
      by (auto simp: Let_def split: prod.splits)
    have asg: "assign G ss owned ?A1 = (A', us)"
      using Cons.prems(2) nu di by (simp add: findMatch_find)
    note IH = Cons.IH [OF fp asg]
    have jJ: "?j \<in> set J" using b(1) assms(3) by auto
    note step = updateAction_setEnable [where A = A and s = s, OF assms(1) jJ b(2)]
    have "A \<subseteq>\<^sub>m ?A1" using b(2) by (auto simp: map_le_def)
    then have "A \<subseteq>\<^sub>m A'" using IH map_le_trans by blast
    moreover have "?A1 \<subseteq>\<^sub>m A'" using IH by blast
    then have "?A1 (j_id ?j) = A' (j_id ?j)" unfolding map_le_def by (rule bspec) (simp add: dom_def)
    then have e: "A' (j_id ?j) = Some ?e" by simp
    have "\<forall>a \<in> set (updateAction s ?j). a_kind a = ActionUpdate \<and>
        (\<exists>j \<in> set owned. \<exists>e. a_job a = j\<lparr>j_enable := e\<rparr> \<and> A' (j_id j) = Some e \<and> e \<noteq> j_enable j)"
      using b(1) e by (auto simp: updateAction_def Let_def intro!: bexI [of _ ?j])
    ultimately show ?thesis
      unfolding as using IH step by (auto simp del: fun_upd_apply)
  qed
qed auto

section \<open>Classes of equal content\<close>

text \<open>
  Jobs of one key are matched in order: the assigned jobs of a class form an initial segment of
  it, and carry the flags of the first declarations of the class.
\<close>

abbreviation classOf :: "golib \<Rightarrow> string \<times> (string \<times> string) list \<Rightarrow> ScheduleJob list \<Rightarrow> ScheduleJob list" where
  "classOf G K jobs \<equiv> filter (\<lambda>j. jobKey G j = K) jobs"

abbreviation specClass :: "golib \<Rightarrow> string \<times> (string \<times> string) list \<Rightarrow> ScheduleJobSpec list \<Rightarrow> ScheduleJobSpec list" where
  "specClass G K ss \<equiv> filter (\<lambda>s. \<not> specIsUpdateJob s \<and> specKey G s = K) ss"

definition assigned :: "(int \<Rightarrow> bool option) \<Rightarrow> ScheduleJob list \<Rightarrow> bool list" where
  "assigned A js = map (\<lambda>j. the (A (j_id j))) (filter (\<lambda>j. A (j_id j) \<noteq> None) js)"

definition segmented :: "(int \<Rightarrow> bool option) \<Rightarrow> ScheduleJob list \<Rightarrow> bool" where
  "segmented A js \<longleftrightarrow> (\<exists>xs ys. js = xs @ ys \<and> (\<forall>j \<in> set xs. A (j_id j) \<noteq> None) \<and> (\<forall>j \<in> set ys. A (j_id j) = None))"

lemma find_skip: "\<forall>x \<in> set xs. \<not> P x \<Longrightarrow> find P (xs @ zs) = find P zs"
  by (induction xs) auto

lemma assigned_other:
  assumes "\<forall>j \<in> set js. j_id j \<noteq> i"
  shows "assigned (A(i \<mapsto> e)) js = assigned A js" "segmented (A(i \<mapsto> e)) js \<longleftrightarrow> segmented A js"
proof -
  show "assigned (A(i \<mapsto> e)) js = assigned A js"
    using assms by (induction js) (auto simp: assigned_def)
  have "(\<forall>j \<in> set xs. (A(i \<mapsto> e)) (j_id j) \<noteq> None) \<longleftrightarrow> (\<forall>j \<in> set xs. A (j_id j) \<noteq> None)"
    "(\<forall>j \<in> set ys. (A(i \<mapsto> e)) (j_id j) = None) \<longleftrightarrow> (\<forall>j \<in> set ys. A (j_id j) = None)"
    if "js = xs @ ys" for xs ys
    using that assms by auto
  then show "segmented (A(i \<mapsto> e)) js \<longleftrightarrow> segmented A js" unfolding segmented_def by metis
qed

text \<open>Assigning the first free job of a class extends its segment by one.\<close>

lemma assigned_first:
  assumes "distinct (map j_id js)" "segmented A js" "find (\<lambda>j. A (j_id j) = None) js = Some j"
  shows "assigned (A(j_id j \<mapsto> e)) js = assigned A js @ [e]" "segmented (A(j_id j \<mapsto> e)) js"
proof -
  obtain xs ys where s: "js = xs @ ys" "\<forall>j \<in> set xs. A (j_id j) \<noteq> None" "\<forall>j \<in> set ys. A (j_id j) = None"
    using assms(2) by (auto simp: segmented_def)
  obtain ys' where ys: "ys = j # ys'"
    using assms(3) s find_skip [of xs "\<lambda>j. A (j_id j) = None" ys] by (cases ys) auto
  have d: "\<forall>j' \<in> set xs \<union> set ys'. j_id j' \<noteq> j_id j" using assms(1) s(1) ys by (auto simp: image_iff)
  have "assigned (A(j_id j \<mapsto> e)) xs = assigned A xs" "assigned (A(j_id j \<mapsto> e)) ys' = assigned A ys'"
    using d by (simp_all add: assigned_other)
  moreover have "assigned A ys' = []" "A (j_id j) = None" using s(3) ys by (auto simp: assigned_def)
  ultimately show "assigned (A(j_id j \<mapsto> e)) js = assigned A js @ [e]"
    using s(1) ys by (simp add: assigned_def)
  have "js = (xs @ [j]) @ ys'" "\<forall>x \<in> set (xs @ [j]). (A(j_id j \<mapsto> e)) (j_id x) \<noteq> None"
    "\<forall>y \<in> set ys'. (A(j_id j \<mapsto> e)) (j_id y) = None"
    using s ys d by auto
  then show "segmented (A(j_id j \<mapsto> e)) js" unfolding segmented_def by blast
qed

lemma assigned_all:
  "\<forall>j \<in> set js. A (j_id j) \<noteq> None \<Longrightarrow> A \<subseteq>\<^sub>m A' \<Longrightarrow> assigned A' js = assigned A js"
  by (induction js) (auto simp: assigned_def map_le_def dom_def)

lemma assign_le: "assign G ss owned A = (A', us) \<Longrightarrow> A \<subseteq>\<^sub>m A'"
proof (induction ss arbitrary: A us)
  case (Cons s ss)
  show ?case
  proof (cases "if specIsUpdateJob s then None
      else find (\<lambda>j. A (j_id j) = None \<and> jobKey G j = specKey G s) owned")
    case None
    then obtain us1 where "assign G ss owned A = (A', us1)"
      using Cons.prems by (cases "assign G ss owned A") (auto split: if_splits)
    then show ?thesis by (rule Cons.IH)
  next
    case (Some j)
    then have "assign G ss owned (A(j_id j \<mapsto> enableOf s)) = (A', us)" "A (j_id j) = None"
      using Cons.prems by (auto split: if_splits dest: find_SomeD)
    then show ?thesis using Cons.IH by (auto simp: map_le_def dom_def)
  qed
qed simp

lemma find_filter: "find (\<lambda>x. P x \<and> Q x) xs = find P (filter Q xs)"
  by (induction xs) auto

text \<open>One declaration that finds no job, and one that takes a job, seen from the class of a key.\<close>

lemma assign_class_unmatched:
  assumes "find (\<lambda>j. A (j_id j) = None \<and> jobKey G j = K) owned = None" "A \<subseteq>\<^sub>m A'"
  shows "assigned A' (classOf G K owned) = assigned A (classOf G K owned)"
    and "\<forall>j \<in> set (classOf G K owned). A' (j_id j) \<noteq> None"
proof -
  have all: "\<forall>j \<in> set (classOf G K owned). A (j_id j) \<noteq> None"
    using assms(1) by (auto dest: find_NoneD)
  then show "assigned A' (classOf G K owned) = assigned A (classOf G K owned)"
    using assigned_all assms(2) by blast
  show "\<forall>j \<in> set (classOf G K owned). A' (j_id j) \<noteq> None"
    using all assms(2) by (auto simp: map_le_def dom_def)
qed

lemma classOf_other_id:
  assumes "distinct (map j_id owned)" "j \<in> set owned" "jobKey G j \<noteq> K" "j' \<in> set (classOf G K owned)"
  shows "j_id j' \<noteq> j_id j"
proof -
  have "j' \<in> set owned" "j' \<noteq> j" using assms(3,4) by auto
  then show ?thesis using assms(1,2) by (auto simp: distinct_map dest: inj_onD)
qed

lemma assign_class:
  assumes "distinct (map j_id owned)" "assign G ss owned A = (A', us)" "segmented A (classOf G K owned)"
  shows "segmented A' (classOf G K owned) \<and>
    assigned A' (classOf G K owned) @ map enableOf (specClass G K us) =
      assigned A (classOf G K owned) @ map enableOf (specClass G K ss) \<and>
    (specClass G K us \<noteq> [] \<longrightarrow> (\<forall>j \<in> set (classOf G K owned). A' (j_id j) \<noteq> None))"
  using assms(2,3)
proof (induction ss arbitrary: A us)
  case (Cons s ss)
  have dist: "distinct (map j_id (classOf G K owned))" using assms(1) by (simp add: distinct_map_filter)
  show ?case
  proof (cases "specIsUpdateJob s")
    case True
    then show ?thesis using Cons by simp
  next
    case nu: False
    show ?thesis
    proof (cases "find (\<lambda>j. A (j_id j) = None \<and> jobKey G j = specKey G s) owned")
      case None
      obtain us1 where a1: "assign G ss owned A = (A', us1)" and us: "us = s # us1"
        using Cons.prems(1) nu None by (auto simp: apsnd_def map_prod_def split: prod.splits)
      note IH = Cons.IH [OF a1 Cons.prems(2)]
      show ?thesis
      proof (cases "specKey G s = K")
        case True
        then show ?thesis
          using IH nu assign_class_unmatched [OF None [unfolded True] assign_le [OF a1]] by (simp add: us)
      next
        case False
        then show ?thesis using IH by (simp add: us)
      qed
    next
      case (Some j)
      then have a1: "assign G ss owned (A(j_id j \<mapsto> enableOf s)) = (A', us)"
        using Cons.prems(1) nu by simp
      have j: "jobKey G j = specKey G s" "j \<in> set owned" using find_SomeD [OF Some] by auto
      show ?thesis
      proof (cases "specKey G s = K")
        case True
        have f: "find (\<lambda>j. A (j_id j) = None) (classOf G K owned) = Some j"
          using Some True by (simp add: find_filter)
        note st = assigned_first [OF dist Cons.prems(2) f, of "enableOf s"]
        show ?thesis using Cons.IH [OF a1 st(2)] st(1) nu True by (simp del: fun_upd_apply)
      next
        case False
        then have "\<forall>j' \<in> set (classOf G K owned). j_id j' \<noteq> j_id j"
          using classOf_other_id [OF assms(1) j(2), of G K] unfolding j(1) by blast
        note oth = assigned_other [OF this, of A "enableOf s"]
        show ?thesis using Cons.IH [OF a1] oth Cons.prems(2) False by (simp del: fun_upd_apply)
      qed
    qed
  qed
qed simp

lemma assign_dom: "assign G ss owned A = (A', us) \<Longrightarrow> dom A' \<subseteq> dom A \<union> j_id ` set owned"
proof (induction ss arbitrary: A us)
  case (Cons s ss)
  show ?case
  proof (cases "if specIsUpdateJob s then None
      else find (\<lambda>j. A (j_id j) = None \<and> jobKey G j = specKey G s) owned")
    case None
    then obtain us1 where "assign G ss owned A = (A', us1)"
      using Cons.prems by (cases "assign G ss owned A") (auto split: if_splits)
    then show ?thesis by (rule Cons.IH)
  next
    case (Some j)
    then have "assign G ss owned (A(j_id j \<mapsto> enableOf s)) = (A', us)" "j \<in> set owned"
      using Cons.prems by (auto split: if_splits dest: find_SomeD)
    then have "dom A' \<subseteq> dom (A(j_id j \<mapsto> enableOf s)) \<union> j_id ` set owned" by (intro Cons.IH)
    then show ?thesis using \<open>j \<in> set owned\<close> by (auto simp del: fun_upd_apply)
  qed
qed simp

lemma assign_us: "assign G ss owned A = (A', us) \<Longrightarrow> s \<in> set us \<Longrightarrow> s \<in> set ss \<and> \<not> specIsUpdateJob s"
proof (induction ss arbitrary: A us)
  case (Cons t ss)
  obtain A1 us1 where a1: "assign G ss owned A = (A1, us1)" by force
  show ?case
  proof (cases "specIsUpdateJob t \<or> (find (\<lambda>j. A (j_id j) = None \<and> jobKey G j = specKey G t) owned \<noteq> None)")
    case True
    then obtain B where "assign G ss owned B = (A', us)"
      using Cons.prems(1) by (auto split: if_splits)
    then show ?thesis using Cons.IH Cons.prems(2) by auto
  next
    case False
    then show ?thesis using Cons.prems Cons.IH [of A us1] a1 by auto
  qed
qed simp

lemma assign_key:
  assumes "distinct (map j_id owned)" "assign G ss owned A = (A', us)" "j \<in> set owned"
  shows "A' (j_id j) = A (j_id j) \<or> jobKey G j \<in> specKey G ` set (filter (\<lambda>s. \<not> specIsUpdateJob s) ss)"
  using assms(2)
proof (induction ss arbitrary: A us)
  case (Cons s ss)
  show ?case
  proof (cases "if specIsUpdateJob s then None
      else find (\<lambda>j. A (j_id j) = None \<and> jobKey G j = specKey G s) owned")
    case None
    then obtain us1 where "assign G ss owned A = (A', us1)"
      using Cons.prems by (cases "assign G ss owned A") (auto split: if_splits)
    then show ?thesis using Cons.IH by auto
  next
    case (Some j')
    then have a: "assign G ss owned (A(j_id j' \<mapsto> enableOf s)) = (A', us)" "j' \<in> set owned"
        "jobKey G j' = specKey G s" "\<not> specIsUpdateJob s"
      using Cons.prems by (auto split: if_splits dest: find_SomeD)
    show ?thesis
    proof (cases "j_id j = j_id j'")
      case True
      then have "j = j'" using assms(1,3) a(2) by (auto simp: distinct_map dest: inj_onD)
      then show ?thesis using a by auto
    next
      case False
      then show ?thesis using Cons.IH [OF a(1)] by auto
    qed
  qed
qed simp

text \<open>What is left of the jobs once the unassigned ones are deleted.\<close>

lemma final_jobs:
  assumes "distinct (map j_id J)"
    and "J4 = filter (\<lambda>j. j_id j \<notin> j_id ` set (filter (\<lambda>j. A (j_id j) = None) (ownedJobs J))) J3"
    and "J3 = J2 @ new" "J2 = map (setEnable A) J" "distinct (map j_id J3)"
  shows "J4 = map (setEnable A) (filter (\<lambda>j. isUpdateJob j \<or> A (j_id j) \<noteq> None) J) @ new"
proof -
  let ?D = "j_id ` set (filter (\<lambda>j. A (j_id j) = None) (ownedJobs J))"
  have ids: "j_id ` set J2 = j_id ` set J" by (simp add: assms(4) image_image)
  have "?D \<subseteq> j_id ` set J" by (auto simp: ownedJobs_def)
  moreover have "j_id ` set J2 \<inter> j_id ` set new = {}" using assms(3,5) by simp
  ultimately have "\<forall>j \<in> set new. j_id j \<notin> ?D" unfolding ids by blast
  then have "filter (\<lambda>j. j_id j \<notin> ?D) new = new" by (rule filter_True)
  moreover have "j_id j \<notin> ?D \<longleftrightarrow> isUpdateJob j \<or> A (j_id j) \<noteq> None" if "j \<in> set J" for j
  proof -
    have "j' = j" if "j' \<in> set J" "j_id j' = j_id j" for j'
      using that \<open>j \<in> set J\<close> assms(1) by (auto simp: distinct_map dest: inj_onD)
    then have "j_id j \<in> ?D \<longleftrightarrow> j \<in> set (filter (\<lambda>j. A (j_id j) = None) (ownedJobs J))"
      unfolding ownedJobs_def image_iff by auto
    then show ?thesis using that by (simp add: ownedJobs_def)
  qed
  then have "filter (\<lambda>j. j_id j \<notin> ?D) J2 = map (setEnable A) (filter (\<lambda>j. isUpdateJob j \<or> A (j_id j) \<noteq> None) J)"
    by (simp add: assms(4) filter_map comp_def cong: filter_cong)
  ultimately show ?thesis by (simp add: assms(2,3))
qed

text \<open>Of those, the auto-update jobs are the ones there were; the owned ones are the assigned ones and the new ones.\<close>

lemma kept_updates:
  assumes "distinct (map j_id J)" "assign G ss (ownedJobs J) Map.empty = (A, us)"
    and "list_all (\<lambda>j. \<not> isUpdateJob j) new"
  shows "filter isUpdateJob (map (setEnable A) (filter (\<lambda>j. isUpdateJob j \<or> A (j_id j) \<noteq> None) J) @ new) =
    filter isUpdateJob J"
proof -
  have "filter isUpdateJob (filter (\<lambda>j. isUpdateJob j \<or> A (j_id j) \<noteq> None) js) = filter isUpdateJob js" for js
    by (induction js) auto
  moreover have "setEnable A j = j" if "j \<in> set J" "isUpdateJob j" for j
    using assign_dom [OF assms(2)] that assms(1)
    by (auto simp: setEnable_def ownedJobs_def distinct_map dom_def image_iff dest: inj_onD split: option.split)
  then have "map (setEnable A) (filter isUpdateJob J) = filter isUpdateJob J" by (auto intro: map_idI)
  moreover have "filter isUpdateJob new = []" using assms(3) by (auto simp: filter_empty_conv list_all_iff)
  ultimately show ?thesis by (simp add: filter_map comp_def del: filter_filter)
qed

lemma kept_owned:
  assumes "list_all (\<lambda>j. \<not> isUpdateJob j) new"
  shows "ownedJobs (map (setEnable A) (filter (\<lambda>j. isUpdateJob j \<or> A (j_id j) \<noteq> None) J) @ new) =
    map (setEnable A) (filter (\<lambda>j. A (j_id j) \<noteq> None) (ownedJobs J)) @ new"
  using assms
  by (auto simp: ownedJobs_def filter_map comp_def list_all_iff
      intro!: arg_cong [where f = "map (setEnable A)"] filter_cong)

text \<open>The reported jobs carry, class by class and in order, the declared flags.\<close>

definition converged :: "golib \<Rightarrow> ScheduleJobSpec list \<Rightarrow> ScheduleJob list \<Rightarrow> bool" where
  "converged G ss owned \<longleftrightarrow>
     (\<forall>K. map j_enable (classOf G K owned) = map enableOf (specClass G K ss))"

lemma segmented_empty: "segmented Map.empty js"
  unfolding segmented_def by (rule exI [of _ "[]"]) auto

lemma assigned_empty [simp]: "assigned Map.empty js = []"
  by (simp add: assigned_def)

lemma converged_after:
  assumes "distinct (map j_id owned)" "assign G ss owned Map.empty = (A', us)"
    and "list_all2 (\<lambda>s j. jobKey G j = specKey G s \<and> j_enable j = enableOf s) us new"
  shows "converged G ss (map (setEnable A') (filter (\<lambda>j. A' (j_id j) \<noteq> None) owned) @ new)"
  unfolding converged_def
proof
  fix K
  have nu: "\<forall>s \<in> set us. \<not> specIsUpdateJob s" using assign_us [OF assms(2)] by blast
  have "map j_enable (classOf G K new) = map enableOf (specClass G K us)"
    using assms(3) nu by (induction us new rule: list_all2_induct) auto
  moreover have "map j_enable (classOf G K (map (setEnable A') (filter (\<lambda>j. A' (j_id j) \<noteq> None) js))) =
      assigned A' (classOf G K js)" for js
  proof (induction js)
    case (Cons j js)
    then show ?case by (cases "A' (j_id j)") (simp_all add: assigned_def, simp add: setEnable_def)
  qed (simp add: assigned_def)
  ultimately show "map j_enable (classOf G K (map (setEnable A') (filter (\<lambda>j. A' (j_id j) \<noteq> None) owned) @ new)) =
      map enableOf (specClass G K ss)"
    using assign_class [OF assms(1,2) segmented_empty, of K] by simp
qed

text \<open>Where the jobs have converged, the assignment is complete and keeps every flag.\<close>

lemma converged_assign:
  assumes "distinct (map j_id owned)" "converged G ss owned" "assign G ss owned Map.empty = (A', us)"
  shows "us = [] \<and> (\<forall>j \<in> set owned. A' (j_id j) = Some (j_enable j))"
proof -
  have cls: "specClass G K us = [] \<and> (\<forall>j \<in> set (classOf G K owned). A' (j_id j) = Some (j_enable j))" for K
  proof -
    let ?C = "classOf G K owned"
    have eq: "assigned A' ?C @ map enableOf (specClass G K us) = map j_enable ?C"
      and imp: "specClass G K us \<noteq> [] \<longrightarrow> (\<forall>j \<in> set ?C. A' (j_id j) \<noteq> None)"
      using assign_class [OF assms(1,3) segmented_empty, of K] assms(2) [unfolded converged_def, THEN spec, of K]
      by simp_all
    have len: "length (assigned A' ?C) + length (specClass G K us) = length ?C"
      using arg_cong [OF eq, of length] by simp
    have full: "length (assigned A' js) = length js \<Longrightarrow> \<forall>j \<in> set js. A' (j_id j) \<noteq> None" for js
      using length_filter_less [of _ js "\<lambda>j. A' (j_id j) \<noteq> None"] by (fastforce simp: assigned_def)
    have none: "specClass G K us = []"
    proof (rule ccontr)
      assume "specClass G K us \<noteq> []"
      moreover from this imp have "filter (\<lambda>j. A' (j_id j) \<noteq> None) ?C = ?C" by (simp only: filter_id_conv simp_thms)
      then have "length (assigned A' ?C) = length ?C" by (simp only: assigned_def length_map)
      ultimately show False using len by simp
    qed
    have vals: "\<forall>j \<in> set js. A' (j_id j) = Some (j_enable j)"
      if "assigned A' js = map j_enable js" "\<forall>j \<in> set js. A' (j_id j) \<noteq> None" for js
    proof -
      have "filter (\<lambda>j. A' (j_id j) \<noteq> None) js = js" using that(2) by (simp only: filter_id_conv)
      then have "map (\<lambda>j. the (A' (j_id j))) js = map j_enable js" using that(1) by (simp only: assigned_def)
      then show ?thesis using that(2) by (metis map_eq_conv option.exhaust_sel)
    qed
    have a: "assigned A' ?C = map j_enable ?C" using eq by (simp only: none list.map append_Nil2)
    have "\<forall>j \<in> set ?C. A' (j_id j) \<noteq> None" by (rule full) (simp only: a length_map)
    then show ?thesis using none vals [OF a] by blast
  qed
  have "us = []"
  proof (rule ccontr)
    assume "us \<noteq> []"
    then obtain s where s: "s \<in> set us" by (cases us) auto
    then have "s \<in> set (specClass G (specKey G s) us)" using assign_us [OF assms(3)] by simp
    then show False using cls [of "specKey G s"] by simp
  qed
  then show ?thesis using cls by auto
qed

lemma createActions_eq:
  "length ms = length ss \<Longrightarrow>
   (createActions si ss ms = [] \<longleftrightarrow> map fst (filter (\<lambda>(s, m). \<not> m \<and> \<not> specIsUpdateJob s) (zip ss ms)) = [])"
  by (induction ss ms arbitrary: si rule: list_induct2') auto

lemma flags_empty: "flags Map.empty owned = replicate (length owned) False"
  by (simp add: flags_def map_replicate_const)

lemma deleteActions_flags:
  "deleteActions owned (flags A owned) = map deleteAction (filter (\<lambda>j. A (j_id j) = None) owned)"
proof -
  have "filter (\<lambda>(dj, m). \<not> m) (zip xs (map f xs)) = map (\<lambda>x. (x, False)) (filter (\<lambda>x. \<not> f x) xs)"
    for xs :: "ScheduleJob list" and f
    by (induction xs) auto
  then show ?thesis by (simp add: deleteActions_def flags_def comp_def)
qed

lemma distinct_owned: "distinct (map j_id jobs) \<Longrightarrow> distinct (map j_id (ownedJobs jobs))"
  by (simp add: ownedJobs_def distinct_map_filter)

lemma scheduleActions_nil:
  assumes "distinct (map j_id jobs)"
  shows "scheduleActions G (Some sec) jobs = [] \<longleftrightarrow> converged G (ss_jobs sec) (ownedJobs jobs)"
proof -
  let ?o = "ownedJobs jobs"
  obtain A' us where asg: "assign G (ss_jobs sec) ?o Map.empty = (A', us)" by force
  obtain as ms dm where fp: "firstPass G (ss_jobs sec) ?o (flags Map.empty ?o) = (as, ms, dm)"
    by (metis prod_cases3)
  have d: "distinct (map j_id ?o)" by (rule distinct_owned [OF assms])
  note f = firstPass_assign [OF d d subset_refl fp asg]
  have acts: "scheduleActions G (Some sec) jobs = [] \<longleftrightarrow>
      as = [] \<and> us = [] \<and> (\<forall>j \<in> set ?o. A' (j_id j) \<noteq> None)"
    using f fp createActions_eq [of ms "ss_jobs sec" 0]
    by (simp add: scheduleActions_def flags_empty deleteActions_flags filter_empty_conv Let_def)
  show ?thesis
  proof
    assume "scheduleActions G (Some sec) jobs = []"
    then have a: "as = []" "us = []" "\<forall>j \<in> set ?o. A' (j_id j) \<noteq> None" using acts by blast+
    have "map (setEnable Map.empty) ?o = ?o" by (simp add: setEnable_def map_idI)
    then have "map (setEnable A') ?o = ?o" using f a(1) by simp
    moreover have "filter (\<lambda>j. A' (j_id j) \<noteq> None) ?o = ?o" using a(3) by (auto simp: filter_id_conv)
    moreover have "converged G (ss_jobs sec) (map (setEnable A') (filter (\<lambda>j. A' (j_id j) \<noteq> None) ?o) @ [])"
      by (rule converged_after [OF d asg]) (simp add: a(2))
    ultimately show "converged G (ss_jobs sec) ?o" by simp
  next
    assume "converged G (ss_jobs sec) ?o"
    note c = converged_assign [OF d this asg]
    have "as = []" using f c by (cases as) auto
    then show "scheduleActions G (Some sec) jobs = []" using c acts by simp
  qed
qed

text \<open>
  The schedule section has nothing to report or to do exactly when it has converged: for
  every content (time specification and calls), the reported jobs that are not firmware jobs
  carry, in order, the enable flags the profile declares for that content.
\<close>

theorem scheduleActions_converged:
  assumes "distinct (map j_id jobs)"
  shows "scheduleActions G (Some sec) jobs = [] \<longleftrightarrow> converged G (ss_jobs sec) (ownedJobs jobs)"
  using assms by (rule scheduleActions_nil)

theorem scheduleActions_converged_witness:
  "scheduleActions exampleLib (Some \<lparr>ss_jobs = []\<rparr>) [autoUpdateJob] = [] \<longleftrightarrow>
   converged exampleLib [] (ownedJobs [autoUpdateJob])"
  using scheduleActions_converged [of "[autoUpdateJob]" exampleLib "\<lparr>ss_jobs = []\<rparr>"] by simp

section \<open>A store of schedule jobs\<close>

text \<open>
  What the sections expect of a device that is reachable: listing reports its jobs, ids are
  unique, and each write does what its name says. \<open>room n\<close> bounds the jobs that can still be
  created, as devices limit their number.
\<close>

locale schedule_store =
  fixes cn :: "'w conn" and jobs :: "'w \<Rightarrow> ScheduleJob list" and room :: "nat \<Rightarrow> 'w \<Rightarrow> bool"
  assumes ids_distinct: "room n w \<Longrightarrow> distinct (map j_id (jobs w))"
    and room_less: "room (Suc n) w \<Longrightarrow> room n w"
    and list_ok: "room n w \<Longrightarrow>
      \<exists>w'. ListSchedules cn w = (Inr (jobs w), w') \<and> jobs w' = jobs w \<and> room n w'"
    and delete_ok: "room n w \<Longrightarrow> i \<in> j_id ` set (jobs w) \<Longrightarrow>
      \<exists>w'. DeleteSchedule cn i w = (None, w') \<and> jobs w' = filter (\<lambda>j. j_id j \<noteq> i) (jobs w) \<and> room n w'"
    and create_ok: "room (Suc n) w \<Longrightarrow> j_calls job \<noteq> [] \<Longrightarrow>
      \<exists>w' i. CreateSchedule cn job w = (Inr i, w') \<and> jobs w' = jobs w @ [job\<lparr>j_id := i\<rparr>] \<and> room n w'"
    and update_ok: "room n w \<Longrightarrow> j_id job \<in> j_id ` set (jobs w) \<Longrightarrow> j_calls job \<noteq> [] \<Longrightarrow>
      \<exists>w'. UpdateSchedule cn job w = (None, w') \<and> jobs w' = replaceJob job (jobs w) \<and> room n w'"
begin

lemma room_le: "room n w \<Longrightarrow> m \<le> n \<Longrightarrow> room m w"
  by (induction n) (auto simp: le_Suc_eq dest: room_less)

lemma deleteJobs_ok:
  assumes "room n w" "distinct is" "set is \<subseteq> j_id ` set (jobs w)"
  shows "\<exists>w'. deleteJobs cn is w = (None, w') \<and> jobs w' = filter (\<lambda>j. j_id j \<notin> set is) (jobs w) \<and> room n w'"
  using assms
proof (induction "is" arbitrary: w)
  case (Cons i "is")
  obtain w1 where w1: "DeleteSchedule cn i w = (None, w1)" "jobs w1 = filter (\<lambda>j. j_id j \<noteq> i) (jobs w)" "room n w1"
    using delete_ok [OF Cons.prems(1), of i] Cons.prems(3) by auto
  have "set is \<subseteq> j_id ` set (jobs w1)" using Cons.prems(2,3) by (force simp: w1(2))
  then obtain w2 where "deleteJobs cn is w1 = (None, w2)"
      "jobs w2 = filter (\<lambda>j. j_id j \<notin> set is) (jobs w1)" "room n w2"
    using Cons.IH [OF w1(3)] Cons.prems(2) by auto
  then show ?case using w1 by (auto intro: filter_cong)
qed auto

lemma applyFirmware_ok:
  assumes "room (Suc n) w"
  shows "\<exists>w'. applyFirmware cn want w = (None, w') \<and> firmwareFindings want (jobs w') = [] \<and>
    filter (\<lambda>j. \<not> isUpdateJob j) (jobs w') = filter (\<lambda>j. \<not> isUpdateJob j) (jobs w) \<and> room n w'"
proof -
  let ?off = "\<lambda>j. isUpdateJob j \<and> \<not> (want \<and> j_enable j \<and> \<not> hasNonStableUpdateCall j)"
  obtain offs hc where oc: "firmwareOffenders want (jobs w) = (offs, hc)" by force
  have offs: "offs = map j_id (filter ?off (jobs w))" and hc: "hc \<longleftrightarrow>
      (\<exists>j \<in> set (jobs w). isUpdateJob j \<and> want \<and> j_enable j \<and> \<not> hasNonStableUpdateCall j)"
    using offenders_ids [of want "jobs w"] offenders_compliant [of want "jobs w"] oc by simp_all
  obtain w1 where w1: "ListSchedules cn w = (Inr (jobs w), w1)" "jobs w1 = jobs w" "room (Suc n) w1"
    using list_ok [OF assms] by blast
  have dist: "distinct (map j_id (jobs w))" using ids_distinct [OF assms] .
  have "distinct offs" using dist by (simp add: offs distinct_map_filter)
  then obtain w2 where w2: "deleteJobs cn offs w1 = (None, w2)"
      "jobs w2 = filter (\<lambda>j. j_id j \<notin> set offs) (jobs w1)" "room (Suc n) w2"
    using deleteJobs_ok [OF w1(3), of offs] by (auto simp: w1(2) offs)
  have "j_id j \<notin> set offs \<longleftrightarrow> \<not> ?off j" if "j \<in> set (jobs w)" for j
    using that dist by (auto simp: offs distinct_map dest: inj_onD)
  then have j2: "jobs w2 = filter (\<lambda>j. \<not> ?off j) (jobs w)"
    unfolding w2(2) w1(2) by (rule filter_cong [OF refl])
  have nonupd: "filter (\<lambda>j. \<not> isUpdateJob j) (jobs w2) = filter (\<lambda>j. \<not> isUpdateJob j) (jobs w)"
    unfolding j2 by (auto intro: filter_cong)
  have no_off: "filter ?off (jobs w2) = []" unfolding j2 by (auto simp: filter_empty_conv)
  show ?thesis
  proof (cases "want \<and> \<not> hc")
    case False
    have "firmwareFindings want (jobs w2) = []"
      using no_off False
      by (auto simp: findings_iff offenders_ids offenders_compliant j2 hc)
    then show ?thesis
      using w1 w2 oc False nonupd room_less [OF w2(3)] by (auto simp: applyFirmware_def)
  next
    case True
    obtain w3 i where w3: "CreateSchedule cn autoUpdateJob w2 = (Inr i, w3)"
        "jobs w3 = jobs w2 @ [autoUpdateJob\<lparr>j_id := i\<rparr>]" "room n w3"
      using create_ok [OF w2(3), of autoUpdateJob] by (auto simp: autoUpdateJob_def)
    have auto: "isUpdateJob (autoUpdateJob\<lparr>j_id := i\<rparr>)" "j_enable (autoUpdateJob\<lparr>j_id := i\<rparr>)"
        "\<not> hasNonStableUpdateCall (autoUpdateJob\<lparr>j_id := i\<rparr>)"
      by (simp_all add: autoUpdateJob_def isUpdateJob_def hasNonStableUpdateCall_def)
    then have "firmwareFindings want (jobs w3) = []"
      using no_off True by (auto simp: findings_iff offenders_ids offenders_compliant w3(2))
    moreover have "applyFirmware cn want w = (None, w3)"
      using w1(1) oc w2(1) w3(1) True by (simp add: applyFirmware_def)
    ultimately show ?thesis using w3 auto nonupd by auto
  qed
qed

end

text \<open>The declared jobs can be written: each has calls, and its parameters are objects.\<close>

definition writable :: "ScheduleJobSpec \<Rightarrow> bool" where
  "writable s \<longleftrightarrow> specIsUpdateJob s \<or> (js_calls s \<noteq> [] \<and> isOk (specCalls (js_calls s)))"

lemma isOk_Inr: "isOk r \<Longrightarrow> \<exists>x. r = Inr x"
  by (cases r) (auto simp: isOk_def)

lemma specCalls_keys:
  "specCalls cs = Inr calls \<Longrightarrow>
   map (\<lambda>c. (sc_method c, normaliseParams G (sc_params c))) calls =
   map (\<lambda>c. (cs_method c, normaliseParams G (specParams c))) cs"
  unfolding specCalls_def
proof (induction cs arbitrary: calls)
  case (Cons c cs)
  then obtain x xs where "specCall c = Inr x" "mapE specCall cs = Inr xs" "calls = x # xs"
    by (auto simp: ebind_def split: sum.splits)
  moreover from this(1) have "sc_method x = cs_method c" "sc_params x = specParams c"
    by (auto simp: specCall_def specParams_def split: option.splits sum.splits)
  ultimately show ?case using Cons.IH by simp
qed simp

lemma created_not_update:
  assumes "specCalls (js_calls s) = Inr calls" "\<not> specIsUpdateJob s"
  shows "\<not> list_ex (\<lambda>c. sc_method c = shellyUpdateMethod) calls"
proof -
  have "map sc_method calls = map cs_method (js_calls s)"
    using specCalls_keys [OF assms(1)] arg_cong [of _ _ "map fst"] by (fastforce simp: comp_def)
  moreover have "shellyUpdateMethod \<notin> cs_method ` set (js_calls s)"
    using assms(2) by (auto simp: specIsUpdateJob_def equalFold_def list_ex_iff)
  ultimately have "shellyUpdateMethod \<notin> sc_method ` set calls" by (metis list.set_map)
  then show ?thesis by (force simp: list_ex_iff)
qed

lemma runActions_append:
  "runActions cn specs (as @ bs) w =
     (case runActions cn specs as w of (Some err, w) \<Rightarrow> (Some err, w) | (None, w) \<Rightarrow> runActions cn specs bs w)"
  by (induction as arbitrary: w) (auto split: prod.splits option.splits)

lemma ids_replaceJob [simp]: "map j_id (replaceJob job J) = map j_id J"
  by (simp add: replaceJob_def comp_def)

text \<open>A job that a writable declaration was assigned to has calls, so the device takes it back.\<close>

lemma assigned_calls:
  assumes "distinct (map j_id owned)" "assign G ss owned Map.empty = (A, us)" "list_all writable ss"
    and "j \<in> set owned" "A (j_id j) = Some e"
  shows "j_calls j \<noteq> []"
proof -
  have "jobKey G j \<in> specKey G ` set (filter (\<lambda>s. \<not> specIsUpdateJob s) ss)"
    using assign_key [OF assms(1,2,4)] assms(5) by auto
  then obtain s where s: "s \<in> set ss" "\<not> specIsUpdateJob s" "jobKey G j = specKey G s" by auto
  then have "js_calls s \<noteq> []" using assms(3) by (auto simp: list_all_iff writable_def)
  then show ?thesis using s(3) by (auto simp: jobKey_def specKey_def)
qed

context schedule_store
begin

lemma run_updates:
  assumes "room n w"
    and "\<forall>a \<in> set as. a_kind a = ActionUpdate \<and> j_id (a_job a) \<in> j_id ` set (jobs w) \<and> j_calls (a_job a) \<noteq> []"
  shows "\<exists>w'. runActions cn specs as w = (None, w') \<and>
    jobs w' = foldl (\<lambda>J a. replaceJob (a_job a) J) (jobs w) as \<and> room n w'"
  using assms
proof (induction as arbitrary: w)
  case (Cons a as)
  then obtain w1 where w1: "UpdateSchedule cn (a_job a) w = (None, w1)"
      "jobs w1 = replaceJob (a_job a) (jobs w)" "room n w1"
    using update_ok [OF Cons.prems(1), of "a_job a"] by auto
  have "j_id ` set (jobs w1) = j_id ` set (jobs w)"
    unfolding w1(2) by (metis ids_replaceJob list.set_map)
  then obtain w2 where "runActions cn specs as w1 = (None, w2)"
      "jobs w2 = foldl (\<lambda>J a. replaceJob (a_job a) J) (jobs w1) as" "room n w2"
    using Cons.IH [OF w1(3)] Cons.prems(2) by auto
  then show ?case using w1 Cons.prems(2) by (simp add: runAction_def)
qed auto

lemma run_creates:
  assumes "room (length ss + n) w" "length ms = length ss" "specs = pre @ ss" "list_all writable ss"
  shows "\<exists>w' new. runActions cn specs (createActions (int (length pre)) ss ms) w = (None, w') \<and>
    jobs w' = jobs w @ new \<and> room n w' \<and>
    list_all2 (\<lambda>s j. jobKey G j = specKey G s \<and> j_enable j = enableOf s)
      (map fst (filter (\<lambda>(s, m). \<not> m \<and> \<not> specIsUpdateJob s) (zip ss ms))) new \<and>
    list_all (\<lambda>j. \<not> isUpdateJob j) new"
  using assms
proof (induction ss arbitrary: ms w pre)
  case (Cons s ss)
  then obtain m ms' where ms: "ms = m # ms'" "length ms' = length ss" by (cases ms) auto
  have next_pre: "int (length pre) + 1 = int (length (pre @ [s]))" by simp
  have specs: "specs = (pre @ [s]) @ ss" using Cons.prems(3) by simp
  show ?case
  proof (cases "m \<or> specIsUpdateJob s")
    case True
    have "room (length ss + n) w" using Cons.prems(1) room_le by (metis add_Suc le_SucI length_Cons order_refl)
    then show ?thesis
      using Cons.IH [OF _ ms(2) specs] Cons.prems(4) True ms(1) next_pre by (auto simp: ac_simps)
  next
    case False
    then obtain calls where calls: "specCalls (js_calls s) = Inr calls" "js_calls s \<noteq> []"
      using Cons.prems(4) isOk_Inr by (auto simp: writable_def)
    let ?job = "\<lparr>j_id = 0, j_enable = enableOf s, j_timespec = js_timespec s, j_calls = calls\<rparr>"
    have key: "jobKey G (?job\<lparr>j_id := i\<rparr>) = specKey G s" for i
      using specCalls_keys [OF calls(1)] by (simp add: jobKey_def specKey_def)
    have "calls \<noteq> []" using specCalls_keys [OF calls(1), of G] calls(2) by auto
    moreover have "room (Suc (length ss + n)) w" using Cons.prems(1) by simp
    ultimately obtain w1 i where w1: "CreateSchedule cn ?job w = (Inr i, w1)"
        "jobs w1 = jobs w @ [?job\<lparr>j_id := i\<rparr>]" "room (length ss + n) w1"
      using create_ok [of "length ss + n" w ?job] by auto
    have run: "runAction cn specs (createAction (int (length pre)) s) w = (None, w1)"
      using calls(1) w1(1) Cons.prems(3) by (simp add: runAction_def createAction_def Let_def)
    obtain w2 new where w2: "runActions cn specs (createActions (int (length (pre @ [s]))) ss ms') w1 = (None, w2)"
        "jobs w2 = jobs w1 @ new" "room n w2"
        "list_all2 (\<lambda>s j. jobKey G j = specKey G s \<and> j_enable j = enableOf s)
          (map fst (filter (\<lambda>(s, m). \<not> m \<and> \<not> specIsUpdateJob s) (zip ss ms'))) new"
        "list_all (\<lambda>j. \<not> isUpdateJob j) new"
      using Cons.IH [OF w1(3) ms(2) specs] Cons.prems(4) by auto
    have "\<not> isUpdateJob (?job\<lparr>j_id := i\<rparr>)"
      using created_not_update [OF calls(1)] False by (simp add: isUpdateJob_def)
    then show ?thesis
      using w1 w2 run False ms(1) key next_pre
      by (intro exI [of _ w2] exI [of _ "?job\<lparr>j_id := i\<rparr> # new"]) (simp add: ac_simps)
  qed
qed auto

lemma run_deletes:
  assumes "room n w" "distinct (map j_id js)" "j_id ` set js \<subseteq> j_id ` set (jobs w)"
  shows "\<exists>w'. runActions cn specs (map deleteAction js) w = (None, w') \<and>
    jobs w' = filter (\<lambda>j. j_id j \<notin> j_id ` set js) (jobs w) \<and> room n w'"
  using assms
proof (induction js arbitrary: w)
  case (Cons j js)
  obtain w1 where w1: "DeleteSchedule cn (j_id j) w = (None, w1)"
      "jobs w1 = filter (\<lambda>x. j_id x \<noteq> j_id j) (jobs w)" "room n w1"
    using delete_ok [OF Cons.prems(1), of "j_id j"] Cons.prems(3) by auto
  have "j_id ` set js \<subseteq> j_id ` set (jobs w1)"
  proof
    fix i assume i: "i \<in> j_id ` set js"
    have "j_id j \<notin> j_id ` set js" using Cons.prems(2) by simp
    then have "i \<noteq> j_id j" using i by blast
    moreover have "i \<in> j_id ` set (jobs w)" using i Cons.prems(3) by (metis image_mono set_subset_Cons subsetD)
    ultimately show "i \<in> j_id ` set (jobs w1)" unfolding w1(2) by auto
  qed
  then obtain w2 where "runActions cn specs (map deleteAction js) w1 = (None, w2)"
      "jobs w2 = filter (\<lambda>x. j_id x \<notin> j_id ` set js) (jobs w1)" "room n w2"
    using Cons.IH [OF w1(3)] Cons.prems(2) by auto
  moreover have "runAction cn specs (deleteAction j) w = (None, w1)"
    using w1(1) by (simp add: runAction_def deleteAction_def)
  ultimately show ?case using w1(2) by (auto intro!: filter_cong)
qed auto

lemma applySchedule_ok:
  assumes "room (length (ss_jobs sec) + n) w" "scheduleSectionOf profile = Some sec"
    and "list_all writable (ss_jobs sec)"
  shows "\<exists>w'. applySchedule G cn profile w = (None, w') \<and>
    scheduleActions G (Some sec) (jobs w') = [] \<and>
    filter isUpdateJob (jobs w') = filter isUpdateJob (jobs w) \<and> room n w'"
proof -
  let ?ss = "ss_jobs sec" and ?J = "jobs w" and ?o = "ownedJobs (jobs w)"
  obtain w1 where w1: "ListSchedules cn w = (Inr ?J, w1)" "jobs w1 = ?J" "room (length ?ss + n) w1"
    using list_ok [OF assms(1)] by blast
  obtain A' us where asg: "assign G ?ss ?o Map.empty = (A', us)" by force
  obtain as ms dm where fp: "firstPass G ?ss ?o (flags Map.empty ?o) = (as, ms, dm)" by (metis prod_cases3)
  have dJ: "distinct (map j_id ?J)" using ids_distinct [OF assms(1)] .
  have d: "distinct (map j_id ?o)" by (rule distinct_owned [OF dJ])
  have oJ: "set ?o \<subseteq> set ?J" by (auto simp: ownedJobs_def)
  note f = firstPass_assign [OF dJ d oJ fp asg]
  have "setEnable Map.empty j = j" for j by (simp add: setEnable_def)
  then have start: "map (setEnable Map.empty) ?J = ?J" by (simp add: map_idI)
  obtain w2 where w2: "runActions cn ?ss as w1 = (None, w2)" "room (length ?ss + n) w2"
      "jobs w2 = map (setEnable A') ?J"
  proof -
    have "\<forall>a \<in> set as. a_kind a = ActionUpdate \<and> j_id (a_job a) \<in> j_id ` set (jobs w1) \<and> j_calls (a_job a) \<noteq> []"
    proof
      fix a assume "a \<in> set as"
      then obtain j e where "a_kind a = ActionUpdate" "j \<in> set ?o" "a_job a = j\<lparr>j_enable := e\<rparr>"
          "A' (j_id j) = Some e" "e \<noteq> j_enable j" using f by blast
      then show "a_kind a = ActionUpdate \<and> j_id (a_job a) \<in> j_id ` set (jobs w1) \<and> j_calls (a_job a) \<noteq> []"
        using assigned_calls [OF d asg assms(3)] oJ w1(2) by auto
    qed
    from run_updates [OF w1(3) this, of ?ss] show ?thesis using that f w1(2) start by auto
  qed
  obtain w3 new where w3: "runActions cn ?ss (createActions 0 ?ss ms) w2 = (None, w3)"
      "jobs w3 = jobs w2 @ new" "room n w3"
      "list_all2 (\<lambda>s j. jobKey G j = specKey G s \<and> j_enable j = enableOf s) us new"
      "list_all (\<lambda>j. \<not> isUpdateJob j) new"
    using run_creates [OF w2(2), of ms ?ss "[]" G] f assms(3) by auto
  let ?del = "filter (\<lambda>j. A' (j_id j) = None) ?o"
  have ids3: "distinct (map j_id (jobs w3))" using ids_distinct [OF w3(3)] .
  have idm: "map j_id (jobs w2) = map j_id ?J" by (simp add: w2(3) comp_def)
  have "distinct (map j_id ?del)" using d by (rule distinct_map_filter)
  moreover have "j_id ` set ?del \<subseteq> j_id ` set ?J" by (rule image_mono) (use oJ in auto)
  then have "j_id ` set ?del \<subseteq> j_id ` set (jobs w3)"
    using arg_cong [OF idm, of set] unfolding w3(2) by (auto simp only: set_map set_append image_Un)
  ultimately obtain w4 where w4: "runActions cn ?ss (map deleteAction ?del) w3 = (None, w4)"
      "jobs w4 = filter (\<lambda>j. j_id j \<notin> j_id ` set ?del) (jobs w3)" "room n w4"
    using run_deletes [OF w3(3)] by blast
  have fin: "jobs w4 = map (setEnable A') (filter (\<lambda>j. isUpdateJob j \<or> A' (j_id j) \<noteq> None) ?J) @ new"
    by (rule final_jobs [OF dJ w4(2) w3(2) w2(3) ids3])
  have "filter isUpdateJob (jobs w4) = filter isUpdateJob ?J"
    using kept_updates [OF dJ asg w3(5)] unfolding fin by simp
  moreover have "ownedJobs (jobs w4) = map (setEnable A') (filter (\<lambda>j. A' (j_id j) \<noteq> None) ?o) @ new"
    using kept_owned [OF w3(5)] unfolding fin by simp
  then have "converged G ?ss (ownedJobs (jobs w4))" using converged_after [OF d asg w3(4)] by simp
  then have "scheduleActions G (Some sec) (jobs w4) = []"
    using scheduleActions_nil ids_distinct [OF w4(3)] by blast
  moreover have "applySchedule G cn profile w = (None, w4)"
    using w1(1) w2(1) w3(1) w4(1) f fp assms(2)
    by (simp add: applySchedule_def scheduleActions_def flags_empty deleteActions_flags runActions_append Let_def)
  ultimately show ?thesis using w4(3) by blast
qed

end

section \<open>The emulated device is such a store\<close>

text \<open>One decoded entry of the emulator's job list.\<close>

definition zeroJob :: ScheduleJob where
  "zeroJob = \<lparr>j_id = 0, j_enable = False, j_timespec = [], j_calls = []\<rparr>"

definition jobOf :: "jmap \<Rightarrow> ScheduleJob" where
  "jobOf j = (case decJob (JObj j) of Inr job \<Rightarrow> job | Inl _ \<Rightarrow> zeroJob)"

definition fakeJobs :: "fakeDevice \<Rightarrow> ScheduleJob list" where
  "fakeJobs d = map jobOf (fd_schedules d)"

definition storable :: "jmap \<Rightarrow> bool" where
  "storable j \<longleftrightarrow> decJob (JObj j) = Inr (jobOf j) \<and> jfield j ''id'' = jInt (j_id (jobOf j))"

text \<open>
  The invariant of the emulator's schedule: every entry decodes, ids are distinct and below the
  next one, and \<open>n\<close> more ids fit into an \<open>int\<close>.
\<close>

definition fakeRoom :: "nat \<Rightarrow> fakeDevice \<Rightarrow> bool" where
  "fakeRoom n d \<longleftrightarrow>
     list_all storable (fd_schedules d) \<and> distinct (map j_id (fakeJobs d)) \<and>
     list_all (\<lambda>j. 0 \<le> j_id j \<and> j_id j < fd_nextSchedID d) (fakeJobs d) \<and>
     0 \<le> fd_nextSchedID d \<and> fd_nextSchedID d + int n \<le> 2 ^ 63"

lemma fakeRoom_calls [simp]:
  "fakeRoom n (d\<lparr>fd_calls := cs\<rparr>) = fakeRoom n d" "fakeJobs (d\<lparr>fd_calls := cs\<rparr>) = fakeJobs d"
  "fakeRoom n (d\<lparr>fd_scheduleRev := r\<rparr>) = fakeRoom n d" "fakeJobs (d\<lparr>fd_scheduleRev := r\<rparr>) = fakeJobs d"
  by (simp_all add: fakeRoom_def fakeJobs_def)

lemma idOf_jInt [simp]: "idOf (jInt i) = i"
  by (simp add: idOf_def jInt_def)

lemma mapE_storable: "list_all storable js \<Longrightarrow> mapE decJob (map JObj js) = Inr (map jobOf js)"
  by (induction js) (simp_all add: storable_def)

lemma findJob_storable:
  assumes "list_all storable js" "i \<in> j_id ` set (map jobOf js)"
  shows "\<exists>k. findJob i js = Some k \<and> k < length js \<and> j_id (jobOf (js ! k)) = i"
  using assms
proof (induction js)
  case (Cons j js)
  have id: "idOf (jfield j ''id'') = j_id (jobOf j)" using Cons.prems(1) by (simp add: storable_def)
  show ?case
  proof (cases "j_id (jobOf j) = i")
    case True
    then show ?thesis by (simp add: id)
  next
    case False
    then obtain k where "findJob i js = Some k" "k < length js" "j_id (jobOf (js ! k)) = i"
      using Cons by auto
    then show ?thesis using False by (simp add: id)
  qed
qed simp

lemma remove_nth_filter:
  assumes "distinct (map f xs)" "k < length xs"
  shows "filter (\<lambda>x. f x \<noteq> f (xs ! k)) xs = take k xs @ drop (Suc k) xs"
proof -
  have xs: "xs = take k xs @ xs ! k # drop (Suc k) xs" using assms(2) by (rule id_take_nth_drop)
  have "distinct (map f (take k xs @ xs ! k # drop (Suc k) xs))" using assms(1) xs by simp
  then have "\<forall>x \<in> set (take k xs). f x \<noteq> f (xs ! k)" "\<forall>x \<in> set (drop (Suc k) xs). f x \<noteq> f (xs ! k)"
    by (auto simp: image_iff)
  then have "filter (\<lambda>x. f x \<noteq> f (xs ! k)) (take k xs @ xs ! k # drop (Suc k) xs) = take k xs @ drop (Suc k) xs"
    by (simp only: filter_append filter.simps) (simp add: filter_True)
  then show ?thesis using xs by simp
qed

lemma replace_nth_map:
  assumes "distinct (map f xs)" "k < length xs" "f y = f (xs ! k)"
  shows "xs[k := y] = map (\<lambda>x. if f x = f y then y else x) xs"
proof (rule nth_equalityI)
  fix m assume m: "m < length (xs[k := y])"
  then have "f (xs ! m) = f (xs ! k) \<longleftrightarrow> m = k"
    using assms(1,2) by (metis length_list_update length_map nth_eq_iff_index_eq nth_map)
  then show "xs[k := y] ! m = map (\<lambda>x. if f x = f y then y else x) xs ! m"
    using m assms(3) by (auto simp: nth_list_update)
qed simp

lemma decCall_encCall [simp]: "decCall (encCall c) = Inr c"
  by (simp add: decCall_def encCall_def orNull_def)

text \<open>An entry with these four fields decodes to the job.\<close>

lemma jobOf_fields:
  assumes "jfield m ''id'' = jInt i" "jfield m ''enable'' = JBool (j_enable job)"
    "jfield m ''timespec'' = JStr (j_timespec job)" "jfield m ''calls'' = JArr (map encCall (j_calls job))" "int64 i"
  shows "jobOf m = job\<lparr>j_id := i\<rparr>" "storable m"
proof -
  have "mapE decCall (map encCall (j_calls job)) = Inr (j_calls job)" by (rule mapE_roundtrip) simp
  then have "decJob (JObj m) = Inr (job\<lparr>j_id := i\<rparr>)"
    using assms by (cases job) (simp add: decJob_def)
  then show "jobOf m = job\<lparr>j_id := i\<rparr>" "storable m" using assms(1) by (simp_all add: jobOf_def storable_def)
qed

lemma fakeRoom_ids:
  assumes "fakeRoom n d" "j \<in> set (fakeJobs d)"
  shows "j_id j < fd_nextSchedID d"
  using assms by (simp add: fakeRoom_def list_all_iff)

lemma fake_call:
  "cn_call (directConn h) rpc params d = directCall h rpc params d" "cn_host (directConn h) = h"
  by (simp_all add: directConn_def)

lemma fake_list:
  assumes "fakeRoom n d"
  shows "\<exists>d'. ListSchedules (directConn h) d = (Inr (fakeJobs d), d') \<and> fakeJobs d' = fakeJobs d \<and> fakeRoom n d'"
proof -
  let ?d = "d\<lparr>fd_calls := fd_calls d @ [(''Schedule.List'', None)]\<rparr>"
  have "directCall h ''Schedule.List'' None d =
      (Inr (Some (JObj [(''jobs'', JArr (map JObj (fd_schedules d))), (''rev'', jInt (fd_scheduleRev d))])), ?d)"
    by (simp add: directCall_def dispatch_def handleScheduleList_def Let_def)
  moreover have "mapE decJob (map JObj (fd_schedules d)) = Inr (fakeJobs d)"
    using assms by (simp add: fakeRoom_def fakeJobs_def mapE_storable)
  ultimately have "ListSchedules (directConn h) d = (Inr (fakeJobs d), ?d)"
    by (simp add: ListSchedules_def callDec_def fake_call decJobs_def orNull_def)
  then show ?thesis using assms by simp
qed

lemma decOpt_jInt: "int64 i \<Longrightarrow> decOpt decInt (jInt i) = Inr (Some i)"
  by (simp add: decOpt_def jInt_def [of i]) (simp add: jInt_def [symmetric])

lemma fake_delete:
  assumes "fakeRoom n d" "i \<in> j_id ` set (fakeJobs d)" "int64 i"
  shows "\<exists>d'. DeleteSchedule (directConn h) i d = (None, d') \<and>
    fakeJobs d' = filter (\<lambda>j. j_id j \<noteq> i) (fakeJobs d) \<and> fakeRoom n d'"
proof -
  have st: "list_all storable (fd_schedules d)" "distinct (map j_id (fakeJobs d))"
    using assms(1) by (simp_all add: fakeRoom_def)
  obtain k where k: "findJob i (fd_schedules d) = Some k" "k < length (fd_schedules d)"
      "j_id (jobOf (fd_schedules d ! k)) = i"
    using findJob_storable [OF st(1)] assms(2) by (auto simp: fakeJobs_def)
  let ?p = "Some (JObj [(''id'', jInt i)])"
  let ?js = "take k (fd_schedules d) @ drop (Suc k) (fd_schedules d)"
  let ?d = "d\<lparr>fd_calls := fd_calls d @ [(''Schedule.Delete'', ?p)], fd_schedules := ?js,
      fd_scheduleRev := fd_scheduleRev d + 1\<rparr>"
  have "directCall h ''Schedule.Delete'' ?p d =
      (Inr (Some (JObj [(''rev'', jInt (fd_scheduleRev d + 1))])), ?d)"
    using k decOpt_jInt [OF assms(3)]
    by (simp add: directCall_def dispatch_def handleScheduleDelete_def decParams_def orNull_def Let_def)
  then have call: "DeleteSchedule (directConn h) i d = (None, ?d)"
    by (simp add: DeleteSchedule_def callVoid_def fake_call)
  have jobs: "fakeJobs ?d = filter (\<lambda>j. j_id j \<noteq> i) (fakeJobs d)"
    using remove_nth_filter [OF st(2), of k] k by (simp add: fakeJobs_def take_map drop_map)
  have "distinct (map j_id (fakeJobs ?d))" using st(2) by (simp only: jobs distinct_map_filter)
  moreover have "list_all storable ?js"
    using st(1) by (auto simp: list_all_iff dest: in_set_takeD in_set_dropD)
  moreover have "list_all (\<lambda>j. 0 \<le> j_id j \<and> j_id j < fd_nextSchedID d) (fakeJobs ?d)"
    using assms(1) by (simp only: jobs) (simp add: fakeRoom_def list_all_iff)
  ultimately have "fakeRoom n ?d" using assms(1) by (simp add: fakeRoom_def)
  then show ?thesis using call jobs by blast
qed

lemma fake_create:
  assumes "fakeRoom (Suc n) d" "j_calls job \<noteq> []"
  shows "\<exists>d' i. CreateSchedule (directConn h) job d = (Inr i, d') \<and>
    fakeJobs d' = fakeJobs d @ [job\<lparr>j_id := i\<rparr>] \<and> fakeRoom n d'"
proof -
  let ?i = "fd_nextSchedID d"
  have i: "int64 ?i" "0 \<le> ?i" using assms(1) by (auto simp: fakeRoom_def int64_def)
  let ?p = "Some (JObj (jobParams job))"
  let ?m = "AList.update ''id'' (jInt ?i) (merge [] (jobParams job))"
  let ?d = "d\<lparr>fd_calls := fd_calls d @ [(''Schedule.Create'', ?p)], fd_schedules := fd_schedules d @ [?m],
      fd_nextSchedID := ?i + 1, fd_scheduleRev := fd_scheduleRev d + 1\<rparr>"
  have "directCall h ''Schedule.Create'' ?p d =
      (Inr (Some (JObj [(''id'', jInt ?i), (''rev'', jInt (fd_scheduleRev d + 1))])), ?d)"
    by (simp add: directCall_def dispatch_def handleScheduleCreate_def decParams_def jobParams_def orNull_def Let_def)
  then have call: "CreateSchedule (directConn h) job d = (Inr ?i, ?d)"
    using assms(2) i by (simp add: CreateSchedule_def callDec_def fake_call orNull_def)
  have w: "wfmap (jobParams job)" by (simp add: jobParams_def)
  have m: "jobOf ?m = job\<lparr>j_id := ?i\<rparr>" "storable ?m"
    by (rule jobOf_fields [OF _ _ _ _ i(1)];
        simp add: map_of_update map_of_merge_json [OF w], simp add: jobParams_def orNull_def)+
  have fresh: "?i \<notin> j_id ` set (fakeJobs d)" using fakeRoom_ids [OF assms(1)] by force
  have "fakeJobs ?d = fakeJobs d @ [job\<lparr>j_id := ?i\<rparr>]" by (simp add: fakeJobs_def m)
  moreover from this have "fakeRoom n ?d"
    using assms(1) fresh m i by (auto simp: fakeRoom_def list_all_iff)
  ultimately show ?thesis using call by blast
qed

lemma fake_update:
  assumes "fakeRoom n d" "j_id job \<in> j_id ` set (fakeJobs d)" "j_calls job \<noteq> []" "int64 (j_id job)"
  shows "\<exists>d'. UpdateSchedule (directConn h) job d = (None, d') \<and>
    fakeJobs d' = replaceJob job (fakeJobs d) \<and> fakeRoom n d'"
proof -
  have st: "list_all storable (fd_schedules d)" "distinct (map j_id (fakeJobs d))"
    using assms(1) by (simp_all add: fakeRoom_def)
  obtain k where k: "findJob (j_id job) (fd_schedules d) = Some k" "k < length (fd_schedules d)"
      "j_id (jobOf (fd_schedules d ! k)) = j_id job"
    using findJob_storable [OF st(1)] assms(2) by (auto simp: fakeJobs_def)
  let ?raw = "(''id'', jInt (j_id job)) # jobParams job"
  let ?m = "merge (fd_schedules d ! k) ?raw"
  let ?d = "d\<lparr>fd_calls := fd_calls d @ [(''Schedule.Update'', Some (JObj ?raw))],
      fd_schedules := (fd_schedules d)[k := ?m], fd_scheduleRev := fd_scheduleRev d + 1\<rparr>"
  have w: "wfmap ?raw" by (simp add: jobParams_def)
  have "directCall h ''Schedule.Update'' (Some (JObj ?raw)) d =
      (Inr (Some (JObj [(''rev'', jInt (fd_scheduleRev d + 1))])), ?d)"
    using k decOpt_jInt [OF assms(4)]
    by (simp add: directCall_def dispatch_def handleScheduleUpdate_def decParams_def jobParams_def orNull_def
        decOpt_def [of decBool] decOpt_def [of decStr] Let_def del: merge.simps)
  then have call: "UpdateSchedule (directConn h) job d = (None, ?d)"
    using assms(3) by (simp add: UpdateSchedule_def callVoid_def fake_call del: merge.simps)
  have f: "jfield ?m ''id'' = jInt (j_id job)" "jfield ?m ''enable'' = JBool (j_enable job)"
      "jfield ?m ''timespec'' = JStr (j_timespec job)" "jfield ?m ''calls'' = JArr (map encCall (j_calls job))"
    by (simp_all add: map_of_merge_json [OF w] del: merge.simps) (simp_all add: jobParams_def orNull_def jInt_def)
  have "job\<lparr>j_id := j_id job\<rparr> = job" by simp
  then have m: "jobOf ?m = job" "storable ?m"
    using jobOf_fields [OF f assms(4)] by (simp_all del: merge.simps)
  have "(map jobOf (fd_schedules d))[k := job] = replaceJob job (fakeJobs d)"
    using replace_nth_map [OF st(2), of k job] k by (simp add: fakeJobs_def replaceJob_def)
  then have jobs: "fakeJobs ?d = replaceJob job (fakeJobs d)"
    by (simp add: fakeJobs_def map_update m del: merge.simps)
  have "list_all storable ((fd_schedules d)[k := ?m])"
    using st(1) m(2) by (auto simp: list_all_iff dest!: set_update_subset_insert [THEN subsetD] simp del: merge.simps)
  moreover have "list_all (\<lambda>j. 0 \<le> j_id j \<and> j_id j < fd_nextSchedID d) (fakeJobs ?d)"
  proof -
    have "j_id ` set (fakeJobs ?d) = j_id ` set (fakeJobs d)"
      unfolding jobs by (metis ids_replaceJob list.set_map)
    moreover have "\<forall>i \<in> j_id ` set (fakeJobs d). 0 \<le> i \<and> i < fd_nextSchedID d"
      using assms(1) by (auto simp: fakeRoom_def list_all_iff)
    ultimately have "\<forall>i \<in> j_id ` set (fakeJobs ?d). 0 \<le> i \<and> i < fd_nextSchedID d" by (simp only:)
    then show ?thesis unfolding list_all_iff by blast
  qed
  moreover have "distinct (map j_id (fakeJobs ?d))" using st(2) by (simp only: jobs ids_replaceJob)
  ultimately have "fakeRoom n ?d" using assms(1) by (simp add: fakeRoom_def del: merge.simps)
  then show ?thesis using call jobs by blast
qed

lemma fakeRoom_int64:
  assumes "fakeRoom n d" "i \<in> j_id ` set (fakeJobs d)"
  shows "int64 i"
proof -
  have "0 \<le> i \<and> i < fd_nextSchedID d" "fd_nextSchedID d \<le> 2 ^ 63"
    using assms by (auto simp: fakeRoom_def list_all_iff)
  then show ?thesis by (simp add: int64_def)
qed

interpretation fake: schedule_store "directConn h" fakeJobs fakeRoom
proof unfold_locales
  fix n d
  show "fakeRoom n d \<Longrightarrow> distinct (map j_id (fakeJobs d))" by (simp add: fakeRoom_def)
  show "fakeRoom (Suc n) d \<Longrightarrow> fakeRoom n d" by (auto simp: fakeRoom_def)
  assume r: "fakeRoom n d"
  show "\<exists>w'. ListSchedules (directConn h) d = (Inr (fakeJobs d), w') \<and> fakeJobs w' = fakeJobs d \<and> fakeRoom n w'"
    by (rule fake_list [OF r])
  show "\<exists>w'. DeleteSchedule (directConn h) i d = (None, w') \<and>
      fakeJobs w' = filter (\<lambda>j. j_id j \<noteq> i) (fakeJobs d) \<and> fakeRoom n w'"
    if "i \<in> j_id ` set (fakeJobs d)" for i
    using fake_delete [OF r that fakeRoom_int64 [OF r that]] .
  show "\<exists>w'. UpdateSchedule (directConn h) job d = (None, w') \<and>
      fakeJobs w' = replaceJob job (fakeJobs d) \<and> fakeRoom n w'"
    if "j_id job \<in> j_id ` set (fakeJobs d)" "j_calls job \<noteq> []" for job
    using fake_update [OF r that fakeRoom_int64 [OF r that(1)]] .
next
  fix n d job
  show "fakeRoom (Suc n) d \<Longrightarrow> j_calls job \<noteq> [] \<Longrightarrow>
      \<exists>w' i. CreateSchedule (directConn h) job d = (Inr i, w') \<and> fakeJobs w' = fakeJobs d @ [job\<lparr>j_id := i\<rparr>] \<and> fakeRoom n w'"
    by (rule fake_create)
qed

text \<open>
  C6: Enforcing the firmware section on the emulated device succeeds, leaves no firmware
  finding behind, and does not touch a job that has nothing to do with updates.
\<close>

theorem applyFirmware_converges:
  assumes "fakeRoom 1 d"
  shows "\<exists>d'. applyFirmware (directConn h) want d = (None, d') \<and> firmwareFindings want (fakeJobs d') = [] \<and>
    filter (\<lambda>j. \<not> isUpdateJob j) (fakeJobs d') = filter (\<lambda>j. \<not> isUpdateJob j) (fakeJobs d)"
  using fake.applyFirmware_ok [of 0 d h want] assms by auto

theorem applyFirmware_converges_witness:
  "\<exists>d'. applyFirmware (directConn ''10.0.0.7'') True exampleFake = (None, d') \<and>
     firmwareFindings True (fakeJobs d') = []"
proof -
  have "fakeRoom 1 exampleFake" by (simp add: fakeRoom_def fakeJobs_def exampleFake_def)
  from applyFirmware_converges [OF this, of "''10.0.0.7''" True] show ?thesis by blast
qed

text \<open>
  C5: Enforcing the schedule section on the emulated device succeeds and converges: afterwards
  the plan is empty (so the section reports no drift), and every firmware job is as it was.
\<close>

theorem applySchedule_converges:
  assumes "scheduleSectionOf profile = Some sec" "list_all writable (ss_jobs sec)"
    and "fakeRoom (length (ss_jobs sec)) d"
  shows "\<exists>d'. applySchedule G (directConn h) profile d = (None, d') \<and>
    scheduleActions G (Some sec) (fakeJobs d') = [] \<and>
    filter isUpdateJob (fakeJobs d') = filter isUpdateJob (fakeJobs d)"
  using fake.applySchedule_ok [of sec 0 d profile G h] assms by auto

definition exampleSection :: ScheduleSection where
  "exampleSection = \<lparr>ss_jobs = [\<lparr>js_enable = None, js_timespec = ''0 0 7 * * MON'',
     js_calls = [\<lparr>cs_method = ''Switch.Set'', cs_params = Some (JObj [(''on'', JBool True)])\<rparr>]\<rparr>]\<rparr>"

theorem applySchedule_converges_witness:
  "\<exists>d'. applySchedule exampleLib (directConn ''10.0.0.7'')
       ((exampleProfile ''p'' 0)\<lparr>p_spec := (p_spec (exampleProfile ''p'' 0))\<lparr>ps_config := emptyConfig\<lparr>pc_schedules := Some exampleSection\<rparr>\<rparr>\<rparr>)
       exampleFake = (None, d') \<and>
     scheduleActions exampleLib (Some exampleSection) (fakeJobs d') = []"
proof -
  let ?p = "(exampleProfile ''p'' 0)\<lparr>p_spec := (p_spec (exampleProfile ''p'' 0))\<lparr>ps_config := emptyConfig\<lparr>pc_schedules := Some exampleSection\<rparr>\<rparr>\<rparr>"
  have "scheduleSectionOf ?p = Some exampleSection" by (simp add: scheduleSectionOf_def)
  moreover have "list_all writable (ss_jobs exampleSection)"
    by (simp add: exampleSection_def writable_def specCalls_def specCall_def unmarshalMap_def isOk_def)
  moreover have "fakeRoom (length (ss_jobs exampleSection)) exampleFake"
    by (simp add: fakeRoom_def fakeJobs_def exampleFake_def exampleSection_def)
  ultimately show ?thesis using applySchedule_converges by blast
qed
end
