(* ===== verification/Apply.thy ===== *)
theory Apply
  imports Schedule Fleet
begin

text \<open>
  \<open>internal/controller/apply.go\<close>: writing drifted sections to the device, and the wifi payload
  with its injected passwords. The probe that yields the device id is an argument, as the
  device connection is.
\<close>

abbreviation sectionAuth :: string where "sectionAuth \<equiv> ''auth''"
abbreviation sectionWifi :: string where "sectionWifi \<equiv> ''wifi''"

record applyResult =
  ar_applied :: "string list"
  ar_restartRequired :: bool

section \<open>wifiPayload\<close>

text \<open>
  The copies the source makes keep every value, so that the caller's map is not aliased; values
  here are immutable and the copy of an object is that object.
\<close>

definition injectPass :: "string \<Rightarrow> string \<Rightarrow> jmap \<Rightarrow> jmap" where
  "injectPass key pass out =
     (if pass = [] then out
      else
        (case map_of out key of
           Some (JObj m) \<Rightarrow> AList.update key (JObj (AList.update ''pass'' (JStr pass) m)) out
         | _ \<Rightarrow> out))"

definition wifiPayload :: "jmap \<Rightarrow> WifiPasswords \<Rightarrow> jmap" where
  "wifiPayload rendered pw =
     injectPass ''sta1'' (wp_sta1 pw) (injectPass ''sta'' (wp_sta pw) rendered)"

section \<open>applyFindings\<close>

text \<open>One section: the error, or whether the device asks for a restart.\<close>

definition applyAuth :: "golib \<Rightarrow> 'w conn \<Rightarrow> ('w \<Rightarrow> (go_error + DeviceInfo) \<times> 'w) \<Rightarrow> bool option \<Rightarrow> string \<Rightarrow> 'w
    \<Rightarrow> (go_error + bool) \<times> 'w" where
  "applyAuth G cn probe authEnable password w =
     (let targetOn = (authEnable = Some True)
      in if targetOn \<and> password = []
         then (Inl (ErrText ''auth: no password available (set spec.config.auth.passwordSecretRef)''), w)
         else
           (case probe w of
              (Inl err, w) \<Rightarrow> (Inl (ErrWrap ''auth: probing for device id: '' err), w)
            | (Inr info, w) \<Rightarrow>
                (case SetAuth G cn (di_id info) (if targetOn then password else []) w of
                   (Some err, w) \<Rightarrow> (Inl (ErrWrap ''auth: '' err), w)
                 | (None, w) \<Rightarrow> (Inr False, w))))"

definition wrapErr :: "string \<Rightarrow> (go_error + bool) \<times> 'w \<Rightarrow> (go_error + bool) \<times> 'w" where
  "wrapErr p r = (case r of (Inl err, w) \<Rightarrow> (Inl (ErrWrap p err), w) | (Inr b, w) \<Rightarrow> (Inr b, w))"

definition voidErr :: "string \<Rightarrow> go_error option \<times> 'w \<Rightarrow> (go_error + bool) \<times> 'w" where
  "voidErr p r = (case r of (Some err, w) \<Rightarrow> (Inl (ErrWrap p err), w) | (None, w) \<Rightarrow> (Inr False, w))"

text \<open>\<open>desired[section]\<close> as a parameter: a missing section is the nil map, which encodes as null.\<close>

definition secJson :: "jmap gomap \<Rightarrow> string \<Rightarrow> json" where
  "secJson desired sec = (case map_of desired sec of None \<Rightarrow> JNull | Some m \<Rightarrow> JObj m)"

definition applySection :: "golib \<Rightarrow> 'w conn \<Rightarrow> ('w \<Rightarrow> (go_error + DeviceInfo) \<times> 'w) \<Rightarrow> jmap gomap
    \<Rightarrow> bool option \<Rightarrow> bool option \<Rightarrow> string \<Rightarrow> WifiPasswords \<Rightarrow> ShellyProfile \<Rightarrow> string \<Rightarrow> 'w
    \<Rightarrow> (go_error + bool) \<times> 'w" where
  "applySection G cn probe desired authEnable fwEnable password wifiPw profile sec w =
     (if sec = sectionAuth then applyAuth G cn probe authEnable password w
      else if sec = sectionFirmware then
        (case fwEnable of
           None \<Rightarrow> (Inl (ErrText ''firmware: section drifted but profile does not manage it''), w)
         | Some want \<Rightarrow> voidErr ''firmware: '' (applyFirmware cn want w))
      else if sec = sectionSchedule then
        (if pc_schedules (ps_config (p_spec profile)) = None
         then (Inl (ErrText ''schedule: section drifted but profile does not manage it''), w)
         else voidErr ''schedule: '' (applySchedule G cn profile w))
      else if sec = sectionWifi then
        wrapErr (sec @ '': '') (SetConfig cn sec (JObj (wifiPayload (desiredSec desired sec) wifiPw)) w)
      else if hasPrefix sec ''switch:'' then
        (case atoi (trimPrefix sec ''switch:'') of
           None \<Rightarrow> (Inl (ErrWrap (sec @ '': bad component id: '') (ErrText (''strconv.Atoi: parsing '' @
                      quoted (trimPrefix sec ''switch:'') @ '': invalid syntax''))), w)
         | Some i \<Rightarrow> wrapErr (sec @ '': '') (SetSwitchConfig cn i (secJson desired sec) w))
      else wrapErr (sec @ '': '') (SetConfig cn sec (secJson desired sec) w))"

fun applyLoop :: "(string \<Rightarrow> 'w \<Rightarrow> (go_error + bool) \<times> 'w) \<Rightarrow> string list \<Rightarrow> applyResult \<Rightarrow> 'w
    \<Rightarrow> applyResult \<times> go_error option \<times> 'w" where
  "applyLoop write [] res w = (res, None, w)"
| "applyLoop write (s # ss) res w =
     (case write s w of
        (Inl err, w) \<Rightarrow> (res, Some err, w)
      | (Inr restart, w) \<Rightarrow>
          applyLoop write ss
            (res\<lparr>ar_applied := ar_applied res @ [s],
                 ar_restartRequired := ar_restartRequired res \<or> restart\<rparr>) w)"

definition applyFindings :: "golib \<Rightarrow> 'w conn \<Rightarrow> ('w \<Rightarrow> (go_error + DeviceInfo) \<times> 'w) \<Rightarrow> jmap gomap
    \<Rightarrow> Finding list \<Rightarrow> bool option \<Rightarrow> bool option \<Rightarrow> string \<Rightarrow> WifiPasswords \<Rightarrow> ShellyProfile \<Rightarrow> 'w
    \<Rightarrow> applyResult \<times> go_error option \<times> 'w" where
  "applyFindings G cn probe desired findings authEnable fwEnable password wifiPw profile w =
     applyLoop (applySection G cn probe desired authEnable fwEnable password wifiPw profile)
       (ApplyOrder (Sections findings)) \<lparr>ar_applied = [], ar_restartRequired = False\<rparr> w"

section \<open>Order and progress\<close>

lemma applyLoop_prefix:
  "applyLoop write ss res w = (res', err, w') \<Longrightarrow>
   \<exists>done rest. ss = done @ rest \<and> ar_applied res' = ar_applied res @ done \<and> (err = None \<longleftrightarrow> rest = [])"
proof (induction ss arbitrary: res w)
  case (Cons s ss)
  obtain r w1 where w1: "write s w = (r, w1)" by force
  show ?case
  proof (cases r)
    case (Inl e)
    then show ?thesis using Cons.prems w1 by auto
  next
    case (Inr b)
    let ?res1 = "res\<lparr>ar_applied := ar_applied res @ [s], ar_restartRequired := ar_restartRequired res \<or> b\<rparr>"
    have "applyLoop write ss ?res1 w1 = (res', err, w')" using Cons.prems w1 Inr by simp
    from Cons.IH [OF this] obtain done' rest where
        "ss = done' @ rest" "ar_applied res' = ar_applied ?res1 @ done'" "err = None \<longleftrightarrow> rest = []"
      by blast
    then show ?thesis by (intro exI [of _ "s # done'"] exI [of _ rest]) simp
  qed
qed simp

lemma ApplyOrder_wifi_last:
  assumes "ApplyOrder ss = xs @ ys" "''wifi'' \<in> set xs" "distinct ss"
  shows "ys = []"
proof (rule ccontr)
  assume "ys \<noteq> []"
  then obtain y ys' where ys: "ys = y # ys'" by (cases ys) auto
  have "sorted_wrt (\<lambda>a b. rank a \<le> rank b) (xs @ ys)" using ApplyOrder_sorted [of ss] assms(1) by simp
  then have "rank ''wifi'' \<le> rank y" using assms(2) ys by (auto simp: sorted_wrt_append)
  then have "\<not> rank y \<le> 100" by (simp add: rank_def hasPrefix_def hasSuffix_def)
  then have "y = ''wifi''" by (simp add: rank_wifi)
  moreover have "distinct (xs @ ys)" using distinct_ApplyOrder [of ss] assms(1,3) by simp
  ultimately show False using assms(2) ys by auto
qed

text \<open>
  C8: Enforcement works through the drifted sections in apply order and stops at the first
  failure: the sections reported as applied are a prefix of that order, the whole of it exactly
  when there is no error, and once the wifi section has been written nothing else follows.
\<close>

theorem applyFindings_progress:
  assumes "applyFindings G cn probe desired findings authEnable fwEnable password wifiPw profile w = (res, err, w')"
  shows "\<exists>rest. ApplyOrder (Sections findings) = ar_applied res @ rest \<and> (err = None \<longleftrightarrow> rest = []) \<and>
    (''wifi'' \<in> set (ar_applied res) \<longrightarrow> last (ar_applied res) = ''wifi'' \<and> err = None)"
proof -
  obtain dn rest where r: "ApplyOrder (Sections findings) = dn @ rest" "ar_applied res = dn" "err = None \<longleftrightarrow> rest = []"
    using applyLoop_prefix [OF assms [unfolded applyFindings_def]] by auto
  have "last dn = ''wifi'' \<and> err = None" if "''wifi'' \<in> set dn"
  proof -
    have "rest = []" using ApplyOrder_wifi_last [OF r(1) that] by simp
    moreover from that have "\<exists>xs ys. dn = xs @ ''wifi'' # ys" by (rule split_list)
    then obtain xs ys where xs: "dn = xs @ ''wifi'' # ys" by blast
    moreover have "ys = []"
      using ApplyOrder_wifi_last [of "Sections findings" "xs @ [''wifi'']" "ys @ rest"] r(1) xs by simp
    ultimately show ?thesis using r(3) by simp
  qed
  then show ?thesis using r by blast
qed

definition okConn :: "unit conn" where
  "okConn = \<lparr>cn_host = ''10.0.0.7'', cn_call = (\<lambda>rpc params w. (Inr None, w))\<rparr>"

abbreviation exampleFinding :: "string \<Rightarrow> Finding" where
  "exampleFinding s \<equiv> \<lparr>f_section = s, f_path = ''enable'', f_want = JBool True, f_have = JBool False\<rparr>"

theorem applyFindings_progress_witness:
  "\<exists>rest. ApplyOrder (Sections [exampleFinding ''wifi'', exampleFinding ''cloud'']) = [''cloud'', ''wifi''] @ rest \<and>
     rest = []"
proof -
  have "ApplyOrder (Sections [exampleFinding ''wifi'', exampleFinding ''cloud'']) = [''cloud'', ''wifi'']"
    by code_simp
  then have "applyFindings exampleLib okConn (\<lambda>w. (Inl (ErrText []), w)) [(''wifi'', []), (''cloud'', [])]
      [exampleFinding ''wifi'', exampleFinding ''cloud''] None None [] \<lparr>wp_sta = [], wp_sta1 = []\<rparr>
      (exampleProfile ''p'' 0) () = (\<lparr>ar_applied = [''cloud'', ''wifi''], ar_restartRequired = False\<rparr>, None, ())"
    by (simp add: applyFindings_def applySection_def hasPrefix_def SetConfig_def callDec_def okConn_def
        setConfigResult_def orNull_def wrapErr_def)
  from applyFindings_progress [OF this] show ?thesis by auto
qed

lemma injectPass_other:
  assumes "take 2 ks \<noteq> [key, ''pass'']" "ks \<noteq> [key]"
  shows "jget (injectPass key pass m) ks = jget m ks"
proof (cases ks)
  case (Cons k ks')
  show ?thesis
  proof (cases ks')
    case Nil
    then show ?thesis
      using Cons assms(2) by (auto simp: injectPass_def map_of_update split: option.splits json.splits)
  next
    case (Cons k' ks'')
    with \<open>ks = k # ks'\<close> have ks: "ks = k # k' # ks''" by simp
    have "jget (asMap (map_of (injectPass key pass m) k)) (k' # ks'') = jget (asMap (map_of m k)) (k' # ks'')"
      using assms(1) ks
      by (cases ks'') (auto simp: injectPass_def map_of_update split: option.splits json.splits)
    then show ?thesis by (simp add: ks)
  qed
qed simp

lemma injectPass_pass:
  "jget (injectPass key pass m) [key, ''pass''] =
     (case map_of m key of
        Some (JObj n) \<Rightarrow> if pass = [] then map_of n ''pass'' else Some (JStr pass)
      | _ \<Rightarrow> None)"
  by (auto simp: injectPass_def map_of_update asMap_def split: option.splits json.splits)

lemma map_of_injectPass: "key' \<noteq> key \<Longrightarrow> map_of (injectPass key pass m) key' = map_of m key'"
  by (auto simp: injectPass_def map_of_update split: option.splits json.splits)

text \<open>
  The payload of a wifi write is the rendered section with the resolved passwords of its
  two client networks: each declared network object gets its non-empty password, and under
  every path outside these two leaves the payload holds exactly what was rendered.
\<close>

theorem wifiPayload_exact:
  "(\<forall>ks. take 2 ks \<notin> {[''sta'', ''pass''], [''sta1'', ''pass'']} \<and> ks \<notin> {[''sta''], [''sta1'']} \<longrightarrow>
       jget (wifiPayload rendered pw) ks = jget rendered ks) \<and>
   jget (wifiPayload rendered pw) [''sta'', ''pass''] =
     (case map_of rendered ''sta'' of
        Some (JObj n) \<Rightarrow> if wp_sta pw = [] then map_of n ''pass'' else Some (JStr (wp_sta pw))
      | _ \<Rightarrow> None) \<and>
   jget (wifiPayload rendered pw) [''sta1'', ''pass''] =
     (case map_of rendered ''sta1'' of
        Some (JObj n) \<Rightarrow> if wp_sta1 pw = [] then map_of n ''pass'' else Some (JStr (wp_sta1 pw))
      | _ \<Rightarrow> None)"
proof (intro conjI allI impI)
  fix ks
  assume "take 2 ks \<notin> {[''sta'', ''pass''], [''sta1'', ''pass'']} \<and> ks \<notin> {[''sta''], [''sta1'']}"
  then show "jget (wifiPayload rendered pw) ks = jget rendered ks"
    by (simp add: wifiPayload_def injectPass_other)
next
  have "jget (wifiPayload rendered pw) [''sta'', ''pass''] =
      jget (injectPass ''sta'' (wp_sta pw) rendered) [''sta'', ''pass'']"
    unfolding wifiPayload_def by (rule injectPass_other) simp_all
  then show "jget (wifiPayload rendered pw) [''sta'', ''pass''] =
     (case map_of rendered ''sta'' of
        Some (JObj n) \<Rightarrow> if wp_sta pw = [] then map_of n ''pass'' else Some (JStr (wp_sta pw))
      | _ \<Rightarrow> None)" by (simp only: injectPass_pass)
next
  show "jget (wifiPayload rendered pw) [''sta1'', ''pass''] =
     (case map_of rendered ''sta1'' of
        Some (JObj n) \<Rightarrow> if wp_sta1 pw = [] then map_of n ''pass'' else Some (JStr (wp_sta1 pw))
      | _ \<Rightarrow> None)"
    unfolding wifiPayload_def injectPass_pass by (simp add: map_of_injectPass)
qed

theorem wifiPayload_exact_witness:
  "jget (wifiPayload [(''sta'', JObj [(''ssid'', JStr ''iot'')])] \<lparr>wp_sta = ''pw'', wp_sta1 = []\<rparr>) [''sta'', ''ssid''] =
     Some (JStr ''iot'')"
proof -
  let ?r = "[(''sta'', JObj [(''ssid'', JStr ''iot'')])]"
  have "jget (wifiPayload ?r \<lparr>wp_sta = ''pw'', wp_sta1 = []\<rparr>) [''sta'', ''ssid''] = jget ?r [''sta'', ''ssid'']"
    by (rule wifiPayload_exact [THEN conjunct1, rule_format]) simp
  then show ?thesis by simp
qed

end
