(* ===== verification/Config_Store.thy ===== *)
theory Config_Store
  imports Apply Render Client_Device
begin

text \<open>
  The interface configuration enforcement relies on: a store of component configurations with
  partial writes. Writing the drifted sections of such a store brings it in sync; the emulated
  device is one.
\<close>

section \<open>Section names on the wire\<close>

text \<open>
  The component a section name addresses. \<open>SetConfig\<close> spells the name with its canonical
  capitals or in upper case; the device reads it back in lower case.
\<close>

definition namable :: "string \<Rightarrow> bool" where
  "namable s \<longleftrightarrow> toLower (trimSuffix (configMethod s) ''.SetConfig'') = s"

definition canonicalSwitch :: "string \<Rightarrow> bool" where
  "canonicalSwitch s \<longleftrightarrow>
     hasPrefix s ''switch:'' \<and>
     (case atoi (trimPrefix s ''switch:'') of None \<Rightarrow> False | Some i \<Rightarrow> s = ''switch:'' @ itoa i \<and> int64 i)"

text \<open>The sections of a rendered configuration that a write reaches.\<close>

definition writableSection :: "string \<Rightarrow> bool" where
  "writableSection s \<longleftrightarrow>
     s \<notin> {sectionAuth, sectionFirmware, sectionSchedule} \<and>
     (if hasPrefix s ''switch:'' then canonicalSwitch s else namable s)"

lemma toLower_toUpper: "toLower (toUpper s) = toLower s"
proof -
  have "lowerByte (upperByte c) = lowerByte c" for c
  proof (cases "97 \<le> byte c \<and> byte c \<le> 122")
    case True
    then obtain n where n: "byte c = n + 32" "65 \<le> n" "n \<le> 90"
      using that [of "byte c - 32"] by linarith
    have c: "char_of (byte c) = c" by (simp add: byte_def)
    have "upperByte c = char_of n" using n by (simp add: upperByte_def)
    moreover have "byte (char_of n) = n" using n by (intro byte_char_of) linarith
    then have "lowerByte (char_of n) = char_of (n + 32)" using n by (simp add: lowerByte_def)
    moreover have "lowerByte c = c" using n by (simp add: lowerByte_def)
    ultimately show ?thesis using c n(1) by simp
  next
    case False
    then have "upperByte c = c" unfolding upperByte_def by (simp only: if_False)
    then show ?thesis by simp
  qed
  then show ?thesis by (simp add: toLower_def toUpper_def)
qed

lemma namable_fixed: "s \<in> fixedSections \<Longrightarrow> namable s"
  unfolding namable_def by (elim insertE emptyE; simp; code_simp)

lemma configMethod_suffix: "hasSuffix (configMethod s) ''.SetConfig''"
  by (simp add: configMethod_def)

lemma namable_UI:
  assumes "isUIKey s"
  shows "namable s"
proof -
  have sfx: "hasSuffix s ''_ui''" and mid: "list_all (\<lambda>c. (97 \<le> byte c \<and> byte c \<le> 122) \<or> isDigitByte c) (take (length s - 3) s)"
    using assms by (simp_all add: isUIKey_def)
  have "list_all (\<lambda>k. \<not> hasSuffix k ''_ui'') (map fst componentMethods)" by code_simp
  then have "map_of componentMethods s = None"
    using sfx by (auto simp: list_all_iff map_of_eq_None_iff)
  moreover have "toLower s = s"
  proof -
    have "drop (length s - 3) s = ''_ui''" using sfx by (simp add: hasSuffix_def numeral_3_eq_3)
    then have s: "s = take (length s - 3) s @ ''_ui''" by (metis append_take_drop_id)
    have "map lowerByte (take (length s - 3) s) = take (length s - 3) s"
      using mid by (intro map_idI) (auto simp: list_all_iff lowerByte_def isDigitByte_def)
    moreover have "map lowerByte ''_ui'' = ''_ui''" by code_simp
    ultimately show ?thesis unfolding toLower_def by (metis s map_append)
  qed
  ultimately show ?thesis by (simp add: namable_def configMethod_def toLower_toUpper)
qed

section \<open>Sections in sync\<close>

definition cfgJson :: "jmap gomap \<Rightarrow> json gomap" where
  "cfgJson c = map (\<lambda>(k, m). (k, JObj m)) c"

lemma map_of_cfgJson [simp]: "map_of (cfgJson c) s = map_option JObj (map_of c s)"
  by (induction c) (auto simp: cfgJson_def)

lemma leafEqual_refl:
  assumes "wfj v" "nanFree v"
  shows "leafEqual v v"
  using assms deepEqual_refl [OF assms] by (cases v) (simp_all add: leafEqual_def)

lemma jget_good: "goodMap m \<Longrightarrow> jget m ks = Some v \<Longrightarrow> wfj v \<and> nanFree v"
proof (induction m ks rule: jget.induct)
  case (2 m k)
  then have "(k, v) \<in> set m" by (auto dest: map_of_SomeD)
  then show ?case using 2 wfjm_lookup [of m k v] by (force simp: goodMap_def list_all_iff)
next
  case (3 m k k' ks)
  have "goodMap (asMap (map_of m k))"
  proof (cases "map_of m k")
    case (Some x)
    then have "(k, x) \<in> set m" by (rule map_of_SomeD)
    then have "nanFree x" "wfj x" using 3(2) wfjm_lookup [OF _ Some] by (force simp: goodMap_def list_all_iff)+
    then show ?thesis using Some by (cases x) (simp_all add: goodMap_def)
  qed simp
  then show ?case using 3 by simp
qed simp

text \<open>A section that was written over with (at least) its declared leaves is in sync.\<close>

lemma written_in_sync:
  assumes "goodMap want" "wfjm payload" "\<And>ks v. leafAt want ks v \<Longrightarrow> leafAt payload ks v"
    and "leafAt want ks v"
  shows "leafMet (merge old payload) ks v"
proof -
  have "jget (merge old payload) ks = Some v" by (rule merge_leaf [OF assms(2) assms(3) [OF assms(4)]])
  moreover have "leafEqual v v"
    using jget_good [OF assms(1)] assms(4) by (auto simp: leafAt_def intro: leafEqual_refl)
  ultimately show ?thesis by (simp add: leafMet_def)
qed

lemma secFindings_section: "f \<in> set (secFindings desired actual s) \<Longrightarrow> f_section f = s"
  by (auto simp: secFindings_def absentFinding_def diffMap_mem split: option.splits if_splits)

definition payloadOf :: "jmap gomap \<Rightarrow> WifiPasswords \<Rightarrow> string \<Rightarrow> jmap" where
  "payloadOf desired wifiPw s =
     (if s = sectionWifi then wifiPayload (desiredSec desired s) wifiPw else desiredSec desired s)"

lemma wfjm_injectPass: "wfjm m \<Longrightarrow> wfjm (injectPass key pass m)"
proof (cases "map_of m key")
  case (Some x)
  assume m: "wfjm m"
  then have "wfj x" using Some by (rule wfjm_lookup)
  then show ?thesis using m Some by (cases x) (simp_all add: injectPass_def)
qed (simp add: injectPass_def)

lemma wfjm_payloadOf: "wfjm (desiredSec desired s) \<Longrightarrow> wfjm (payloadOf desired wifiPw s)"
  by (auto simp: payloadOf_def wifiPayload_def intro!: wfjm_injectPass)

text \<open>Nothing is declared under the two password leaves.\<close>

definition noPassLeaf :: "jmap \<Rightarrow> bool" where
  "noPassLeaf m \<longleftrightarrow> (\<forall>ks v. leafAt m ks v \<longrightarrow>
     take 2 ks \<notin> {[''sta'', ''pass''], [''sta1'', ''pass'']} \<and> ks \<notin> {[''sta''], [''sta1'']})"

lemma payloadOf_leaf:
  assumes "s = sectionWifi \<Longrightarrow> noPassLeaf (desiredSec desired s)" "leafAt (desiredSec desired s) ks v"
  shows "leafAt (payloadOf desired wifiPw s) ks v"
proof (cases "s = sectionWifi")
  case True
  then have "take 2 ks \<notin> {[''sta'', ''pass''], [''sta1'', ''pass'']} \<and> ks \<notin> {[''sta''], [''sta1'']}"
    using assms by (auto simp: noPassLeaf_def)
  then have "jget (payloadOf desired wifiPw s) ks = jget (desiredSec desired s) ks"
    using True by (simp add: payloadOf_def wifiPayload_def injectPass_other)
  then show ?thesis using assms(2) by (simp add: leafAt_def)
next
  case False
  then show ?thesis using assms(2) by (simp add: payloadOf_def)
qed

section \<open>Rendered profiles\<close>

lemma noPassLeaf_renderWifi: "noPassLeaf (renderWifi wifi)"
proof -
  have net: "map_of (renderWifiNetwork n) ''pass'' = None" for n
    by (cases n) (auto simp: renderWifiNetwork_def optEntry_def strEntry_def split: option.splits)
  have obj: "map_of (renderWifi wifi) k = Some v \<Longrightarrow> k \<in> {''sta'', ''sta1''} \<Longrightarrow>
      \<exists>n. v = JObj (renderWifiNetwork n)" for k v
    by (cases wifi) (auto simp: renderWifi_def objEntry_def split: if_splits)
  show ?thesis
    unfolding noPassLeaf_def
  proof (intro allI impI)
    fix ks v assume l: "leafAt (renderWifi wifi) ks v"
    show "take 2 ks \<notin> {[''sta'', ''pass''], [''sta1'', ''pass'']} \<and> ks \<notin> {[''sta''], [''sta1'']}"
    proof (cases ks)
      case (Cons k ks')
      show ?thesis
      proof (cases ks')
        case Nil
        then show ?thesis using l Cons obj [of k v] by (auto simp: leafAt_def)
      next
        case (Cons k' ks'')
        then have ks: "ks = k # k' # ks''" using \<open>ks = k # ks'\<close> by simp
        have "False" if k: "k \<in> {''sta'', ''sta1''}" "k' = ''pass''"
        proof (cases "map_of (renderWifi wifi) k")
          case None
          then show False using l ks by simp
        next
          case (Some x)
          then obtain n where "x = JObj (renderWifiNetwork n)" using obj k by blast
          then show False using l ks k Some net by (cases ks'') (auto simp: leafAt_def)
        qed
        then show ?thesis using ks by auto
      qed
    qed simp
  qed
qed

lemma map_of_secEntry: "map_of (secEntry k m) s = (if s = k \<and> m \<noteq> [] then Some m else None)"
  by (simp add: secEntry_def)

lemma Render_lookup_wifi: "desiredSec (Render G cfg n actual) ''wifi'' = renderWifi (pc_wifi cfg)"
proof -
  have u: "\<not> isUIKey ''wifi''" and w: "\<not> isSwitchKey ''wifi''" by (code_simp, code_simp)
  then have sw: "map_of (renderSwitchComponents (pc_switch cfg) actual) ''wifi'' = None"
    unfolding map_of_eq_None_iff by (auto simp: renderSwitchComponents_mem)
  have ui: "map_of (case pc_ui cfg of None \<Rightarrow> [] | Some ui \<Rightarrow>
      let uiKey = discoverUIKey actual in if uiKey = [] then [] else secEntry uiKey (renderUI ui (map_of actual uiKey))) ''wifi'' = None"
    using u discoverUIKey [of actual] by (cases "pc_ui cfg"; cases "discoverUIKey actual = []") (auto simp: map_of_secEntry Let_def)
  show ?thesis
    unfolding Render_def desiredSec_def map_of_append map_add_def sw ui map_of_secEntry by simp
qed

lemma Render_lookup_ui:
  assumes "k = discoverUIKey actual" "k \<noteq> []" "pc_ui cfg = Some ui"
  shows "desiredSec (Render G cfg n actual) k = renderUI ui (map_of actual k)"
proof -
  have u: "isUIKey k" using discoverUIKey [of actual] assms by simp
  then have sw: "map_of (renderSwitchComponents (pc_switch cfg) actual) k = None"
    unfolding map_of_eq_None_iff using section_kinds(1) by (auto simp: renderSwitchComponents_mem)
  have "k \<notin> fixedSections" using u section_kinds(3) by blast
  then show ?thesis
    unfolding Render_def desiredSec_def map_of_append map_add_def sw map_of_secEntry
    using assms by (simp add: map_of_secEntry Let_def)
qed

lemma Render_writable:
  assumes "\<forall>k \<in> fst ` set actual. isSwitchKey k \<longrightarrow> canonicalSwitch k" "s \<in> fst ` set (Render G cfg n actual)"
  shows "writableSection s"
proof -
  from assms(2) obtain m where m: "(s, m) \<in> set (Render G cfg n actual)" by auto
  note rs = rendered_sections [OF m]
  have kinds: "s \<in> fixedSections \<or> (isSwitchKey s \<or> isUIKey s) \<and> s \<in> fst ` set actual"
    using rs [THEN conjunct2, THEN conjunct1] .
  have pseudo: "s \<notin> {''auth'', ''firmware'', ''schedule''}" using rs [THEN conjunct2, THEN conjunct2] .
  from kinds consider "s \<in> fixedSections" | "isSwitchKey s" "s \<in> fst ` set actual" | "isUIKey s" by blast
  then show ?thesis
  proof cases
    case 1
    then have "\<not> hasPrefix s ''switch:''" by (auto simp: hasPrefix_def)
    then show ?thesis using 1 pseudo namable_fixed by (simp add: writableSection_def)
  next
    case 2
    then show ?thesis using assms(1) pseudo by (auto simp: writableSection_def canonicalSwitch_def)
  next
    case 3
    then have "\<not> hasPrefix s ''switch:''" using section_kinds(1) by (auto simp: isSwitchKey_def)
    then show ?thesis using 3 pseudo namable_UI by (simp add: writableSection_def)
  qed
qed

text \<open>
  How the configuration may change when sections are written: keys stay where they are, new
  sections are declared ones, and a section is as it was or has the payload merged in.
\<close>

definition grown :: "jmap gomap \<Rightarrow> WifiPasswords \<Rightarrow> jmap gomap \<Rightarrow> jmap gomap \<Rightarrow> bool" where
  "grown desired wifiPw c c' \<longleftrightarrow>
     (\<exists>ks. map fst c' = map fst c @ ks \<and> set ks \<subseteq> fst ` set desired - fst ` set c) \<and>
     (\<forall>s. map_of c' s = map_of c s \<or> map_of c' s = Some (merge (desiredSec c s) (payloadOf desired wifiPw s)))"

lemma keys_cfgJson [simp]: "map fst (cfgJson c) = map fst c"
  by (simp add: cfgJson_def comp_def split_beta)

lemma keys_merge_known: "fst ` set src \<subseteq> fst ` set out \<Longrightarrow> map fst (merge out src) = map fst out"
proof (induction out src rule: merge.induct)
  case (2 out k v src)
  then show ?case by (simp add: update_keys dom_update insert_absorb)
qed simp

lemma renderUI_merged:
  assumes "wfjm old"
  shows "renderUI ui (Some (JObj (merge old (renderUI ui (Some (JObj old)))))) = renderUI ui (Some (JObj old))"
proof (cases "ui_buttonInMode ui")
  case None
  then show ?thesis by (simp add: renderUI_def)
next
  case (Some inMode)
  let ?p = "renderUI ui (Some (JObj old))" and ?ctl = "renderUIControls inMode (Some (JObj old))"
  let ?out = "asMap (map_of old ''controls'')"
  have wf: "wfmap ?p" using goodMap_renderUI [of "Some (JObj old)" ui] assms
    by (simp add: goodMap_def wfj_JObj wfjm_wfmap)
  have ne: "?ctl \<noteq> []" by (simp add: renderUIControls_def Let_def)
  have "map_of ?p ''controls'' = Some (JObj ?ctl)"
    using ne by (simp add: renderUI_def Some objEntry_def map_add_def)
  then have m: "map_of (merge old ?p) ''controls'' = Some (JObj (merge ?out ?ctl))"
    by (simp add: map_of_merge_json [OF wf])
  have K: "uiControlSwitchKeys (Some (JObj old)) = filter isSwitchKey (map fst ?out)"
    "uiControlSwitchKeys (Some (JObj (merge old ?p))) = filter isSwitchKey (map fst (merge ?out ?ctl))"
    by (simp_all add: uiControlSwitchKeys_def unmarshalMap_def m)
  have rc: "renderUIControls inMode r = map (\<lambda>k. (k, JObj [(''in_mode'', JStr inMode)]))
      (if uiControlSwitchKeys r = [] then [''switch:0''] else uiControlSwitchKeys r)" for r
    by (simp add: renderUIControls_def Let_def)
  have s0: "isSwitchKey ''switch:0''" by code_simp
  have "renderUIControls inMode (Some (JObj (merge old ?p))) = ?ctl"
  proof (cases "filter isSwitchKey (map fst ?out) = []")
    case True
    then have c: "?ctl = [(''switch:0'', JObj [(''in_mode'', JStr inMode)])]"
      by (simp add: renderUIControls_def K(1))
    have "''switch:0'' \<notin> fst ` set ?out" using True s0 by (auto simp: filter_empty_conv)
    then have "filter isSwitchKey (map fst (merge ?out ?ctl)) = [''switch:0'']"
      unfolding c using True s0 by (simp add: update_keys del: filter_map)
    then show ?thesis by (simp only: rc [of "Some (JObj (merge old ?p))"] K(2)) (simp add: c)
  next
    case False
    then have "fst ` set ?ctl \<subseteq> fst ` set ?out" by (force simp: renderUIControls_def K(1))
    then have km: "map fst (merge ?out ?ctl) = map fst ?out" by (rule keys_merge_known)
    show ?thesis
      by (simp only: rc [of "Some (JObj (merge old ?p))"] K(2) km) (simp only: rc [of "Some (JObj old)"] K(1))
  qed
  then show ?thesis by (simp add: renderUI_def Some)
qed

lemma find_append_None: "find P ys = None \<Longrightarrow> find P (xs @ ys) = find P xs"
  by (induction xs) simp_all

lemma section_keys_grown:
  assumes "desired = Render G cfg n (cfgJson c)" "grown desired wifiPw c c'"
  shows "filter isSwitchKey (map fst c') = filter isSwitchKey (map fst c)"
    "find isUIKey (map fst c') = find isUIKey (map fst c)"
proof -
  obtain ks where ks: "map fst c' = map fst c @ ks" "set ks \<subseteq> fst ` set desired - fst ` set c"
    using assms(2) by (auto simp: grown_def)
  have "\<not> isSwitchKey k \<and> \<not> isUIKey k" if "k \<in> set ks" for k
  proof -
    from that ks(2) obtain m where m: "(k, m) \<in> set desired" and new: "k \<notin> fst ` set c" by force
    have "fst ` set (cfgJson c) = fst ` set c" by (metis keys_cfgJson list.set_map)
    then have "k \<in> fixedSections" using rendered_sections [of k m G cfg n "cfgJson c"] m new assms(1) by metis
    then show ?thesis using section_kinds by metis
  qed
  then have "filter isSwitchKey ks = []" "find isUIKey ks = None"
    by (auto simp: filter_empty_conv find_None_iff)
  then show "filter isSwitchKey (map fst c') = filter isSwitchKey (map fst c)"
    "find isUIKey (map fst c') = find isUIKey (map fst c)"
    unfolding ks(1) using find_append_None by simp_all
qed

lemma Render_grown:
  assumes "desired = Render G cfg n (cfgJson c)" "wfjm (cfgJson c)" "grown desired wifiPw c c'"
  shows "Render G cfg n (cfgJson c') = desired"
proof -
  note keys = section_keys_grown [OF assms(1,3)]
  have k: "discoverUIKey (cfgJson c') = discoverUIKey (cfgJson c)" by (simp add: discoverUIKey_def keys)
  have "renderUI ui (map_of (cfgJson c') k) = renderUI ui (map_of (cfgJson c) k)"
    if k: "k = discoverUIKey (cfgJson c)" "k \<noteq> []" "pc_ui cfg = Some ui" for ui k
  proof -
    have "isUIKey k" "k \<in> fst ` set (cfgJson c)" using discoverUIKey [of "cfgJson c"] k by simp_all
    then obtain old where old: "map_of c k = Some old"
      by (metis keys_cfgJson list.set_map map_of_eq_None_iff not_None_eq)
    have "\<not> isUIKey sectionWifi" by code_simp
    then have p: "payloadOf desired wifiPw k = renderUI ui (Some (JObj old))"
      using \<open>isUIKey k\<close> Render_lookup_ui [OF k] assms(1) old by (auto simp: payloadOf_def)
    have "wfjm old" using wfjm_lookup [OF assms(2), of k "JObj old"] old by (simp add: wfj_JObj)
    then show ?thesis
      using assms(3) old p renderUI_merged [of old ui] by (auto simp: grown_def desiredSec_def dest!: spec [of _ k])
  qed
  then show ?thesis
    unfolding assms(1) Render_def renderSwitchComponents_def keys_cfgJson keys k
    by (simp add: Let_def split: option.splits)
qed

text \<open>The configuration after the sections in \<open>ss\<close> were written.\<close>

definition written :: "string set \<Rightarrow> jmap gomap \<Rightarrow> WifiPasswords \<Rightarrow> jmap gomap \<Rightarrow> jmap gomap \<Rightarrow> bool" where
  "written ss desired wifiPw c c' \<longleftrightarrow>
     (\<forall>s. map_of c' s =
        (if s \<in> ss then Some (merge (desiredSec c s) (payloadOf desired wifiPw s)) else map_of c s)) \<and>
     (\<exists>ks. map fst c' = map fst c @ ks \<and> set ks \<subseteq> ss - fst ` set c)"

lemma written_empty: "written {} desired wifiPw c c"
  by (simp add: written_def)

lemma written_insert:
  assumes "c1 = AList.update s (merge (desiredSec c s) (payloadOf desired wifiPw s)) c"
    and "written ss desired wifiPw c1 c'" "s \<notin> ss"
  shows "written (insert s ss) desired wifiPw c c'"
proof -
  have "desiredSec c1 t = desiredSec c t" if "t \<in> ss" for t
    using that assms(3) by (auto simp: desiredSec_def assms(1) map_of_update)
  then have "map_of c' t = (if t \<in> insert s ss then Some (merge (desiredSec c t) (payloadOf desired wifiPw t))
      else map_of c t)" for t
    using assms by (auto simp: map_of_update written_def)
  moreover obtain ks where "map fst c' = map fst c1 @ ks" "set ks \<subseteq> ss - fst ` set c1"
    using assms(2) by (auto simp: written_def)
  then have "\<exists>ks. map fst c' = map fst c @ ks \<and> set ks \<subseteq> insert s ss - fst ` set c"
    by (intro exI [of _ "if s \<in> fst ` set c then ks else s # ks"])
      (simp_all add: assms(1) update_keys dom_update, blast)
  ultimately show ?thesis by (simp add: written_def)
qed

lemma written_grown: "written ss desired wifiPw c c' \<Longrightarrow> ss \<subseteq> fst ` set desired \<Longrightarrow> grown desired wifiPw c c'"
  unfolding grown_def written_def by (metis (no_types, lifting) Diff_mono order_refl subset_trans)

lemma Diff_sections:
  assumes "Diff desired a = Inr fs"
  shows "f_section ` set fs \<subseteq> fst ` set desired"
    "s \<in> set (sortedKeys desired) \<Longrightarrow> s \<notin> f_section ` set fs \<Longrightarrow> secFindings desired a s = []"
proof -
  have fs: "fs = concat (map (secFindings desired a) (sortedKeys desired))"
    using assms by (simp add: Diff_eq split: if_splits)
  show "f_section ` set fs \<subseteq> fst ` set desired" unfolding fs by (auto dest!: secFindings_section)
  assume s: "s \<in> set (sortedKeys desired)" "s \<notin> f_section ` set fs"
  show "secFindings desired a s = []"
  proof (rule ccontr)
    assume "secFindings desired a s \<noteq> []"
    then have f: "hd (secFindings desired a s) \<in> set (secFindings desired a s)" by (rule hd_in_set)
    then have "hd (secFindings desired a s) \<in> set fs" using s(1) unfolding fs by auto
    then show False using s(2) secFindings_section [OF f] by (metis imageI)
  qed
qed

lemma written_Diff:
  assumes "goodDesired desired" "noPassLeaf (desiredSec desired sectionWifi)"
    and "Diff desired (cfgJson c) = Inr fs" "written (f_section ` set fs) desired wifiPw c c'"
  shows "Diff desired (cfgJson c') = Inr []"
proof -
  have sync: "secFindings desired (cfgJson c') s = []" if s: "s \<in> set (sortedKeys desired)" for s
  proof (cases "s \<in> f_section ` set fs")
    case True
    have good: "goodMap (desiredSec desired s)"
      using assms(1) by (auto simp: goodDesired_def desiredSec_def split: option.splits dest: map_of_SomeD)
    then have wfp: "wfjm (payloadOf desired wifiPw s)" by (intro wfjm_payloadOf) (simp add: goodMap_def)
    have lf: "leafAt (payloadOf desired wifiPw s) ks v" if "leafAt (desiredSec desired s) ks v" for ks v
      using payloadOf_leaf [OF _ that] assms(2) by simp
    have "leafMet (merge old (payloadOf desired wifiPw s)) ks v" if "leafAt (desiredSec desired s) ks v" for old ks v
      by (rule written_in_sync [OF good wfp _ that]) (rule lf)
    then show ?thesis using True assms(4) by (auto simp: secFindings_Nil written_def)
  next
    case False
    then have "map_of (cfgJson c') s = map_of (cfgJson c) s" using assms(4) by (simp add: written_def)
    then show ?thesis using Diff_sections(2) [OF assms(3) s False] by (simp only: secFindings_def)
  qed
  have "list_all (secDecodes desired (cfgJson c')) (sortedKeys desired)"
    by (auto simp: list_all_iff secDecodes_def split: option.splits)
  then show ?thesis using sync by (simp add: Diff_eq)
qed

text \<open>What a rendered profile needs of the device's configuration to be enforceable.\<close>

definition enforceable :: "golib \<Rightarrow> ProfileConfig \<Rightarrow> jmap gomap \<Rightarrow> bool" where
  "enforceable G cfg c \<longleftrightarrow>
     wfjm (cfgJson c) \<and> locationSane G cfg \<and> (\<forall>k \<in> fst ` set c. isSwitchKey k \<longrightarrow> canonicalSwitch k)"

lemma enforceable_rendered:
  assumes "enforceable G cfg c" "desired = Render G cfg n (cfgJson c)"
  shows "goodDesired desired" "\<forall>s \<in> fst ` set desired. writableSection s"
    "noPassLeaf (desiredSec desired sectionWifi)"
proof -
  have keys: "fst ` set (cfgJson c) = fst ` set c" by (force simp: cfgJson_def)
  show "goodDesired desired"
    unfolding assms(2) by (rule Render_good) (use assms(1) in \<open>simp_all add: enforceable_def\<close>)
  show "\<forall>s \<in> fst ` set desired. writableSection s"
    unfolding assms(2) by (rule ballI, rule Render_writable) (use assms(1) keys in \<open>simp_all add: enforceable_def\<close>)
  show "noPassLeaf (desiredSec desired sectionWifi)"
    unfolding assms(2) Render_lookup_wifi by (rule noPassLeaf_renderWifi)
qed

section \<open>A store of component configurations\<close>

locale config_store =
  fixes cn :: "'w conn" and config :: "'w \<Rightarrow> jmap gomap" and ok :: "'w \<Rightarrow> bool"
  assumes get_ok: "ok w \<Longrightarrow>
      \<exists>w'. GetConfig cn w = (Inr (cfgJson (config w)), w') \<and> config w' = config w \<and> ok w'"
    and set_ok: "ok w \<Longrightarrow> namable s \<Longrightarrow>
      \<exists>w' b. SetConfig cn s (JObj m) w = (Inr b, w') \<and> ok w' \<and>
        config w' = AList.update s (merge (desiredSec (config w) s) m) (config w)"
    and switch_ok: "ok w \<Longrightarrow> int64 i \<Longrightarrow>
      \<exists>w' b. SetSwitchConfig cn i (JObj m) w = (Inr b, w') \<and> ok w' \<and>
        config w' = AList.update (''switch:'' @ itoa i) (merge (desiredSec (config w) (''switch:'' @ itoa i)) m) (config w)"
begin

lemma write_section:
  assumes "ok w" "writableSection s" "map_of desired s = Some m"
  shows "\<exists>w' b. applySection G cn probe desired ae fe pw wifiPw profile s w = (Inr b, w') \<and> ok w' \<and>
    config w' = AList.update s (merge (desiredSec (config w) s) (payloadOf desired wifiPw s)) (config w)"
proof -
  have ns: "s \<noteq> sectionAuth" "s \<noteq> sectionFirmware" "s \<noteq> sectionSchedule"
    using assms(2) by (auto simp: writableSection_def)
  have d: "desiredSec desired s = m" "secJson desired s = JObj m"
    using assms(3) by (simp_all add: desiredSec_def secJson_def)
  show ?thesis
  proof (cases "hasPrefix s ''switch:''")
    case True
    then have "canonicalSwitch s" using assms(2) by (simp add: writableSection_def)
    have "\<not> hasPrefix sectionWifi ''switch:''" by code_simp
    then have "s \<noteq> sectionWifi" using True by metis
    from \<open>canonicalSwitch s\<close> obtain i where i: "atoi (trimPrefix s ''switch:'') = Some i" "s = ''switch:'' @ itoa i" "int64 i"
      by (auto simp: canonicalSwitch_def split: option.splits)
    obtain w' b where w': "SetSwitchConfig cn i (JObj m) w = (Inr b, w')" "ok w'"
        "config w' = AList.update s (merge (desiredSec (config w) s) m) (config w)"
      using switch_ok [OF assms(1) i(3), of m] i(2) by blast
    have "applySection G cn probe desired ae fe pw wifiPw profile s w = (Inr b, w')"
      using True ns \<open>s \<noteq> sectionWifi\<close> i(1) w'(1) d by (simp add: applySection_def wrapErr_def)
    then show ?thesis using w' d \<open>s \<noteq> sectionWifi\<close> by (simp add: payloadOf_def)
  next
    case False
    then have "namable s" using assms(2) by (simp add: writableSection_def)
    then obtain w' b where w': "SetConfig cn s (JObj (payloadOf desired wifiPw s)) w = (Inr b, w')" "ok w'"
        "config w' = AList.update s (merge (desiredSec (config w) s) (payloadOf desired wifiPw s)) (config w)"
      using set_ok [OF assms(1), of s "payloadOf desired wifiPw s"] by metis
    have "applySection G cn probe desired ae fe pw wifiPw profile s w =
        wrapErr (s @ '': '') (SetConfig cn s (JObj (payloadOf desired wifiPw s)) w)"
      using False ns d by (simp add: applySection_def payloadOf_def)
    then show ?thesis using w' by (simp add: wrapErr_def)
  qed
qed

lemma write_loop:
  assumes "ok w" "distinct ss" "\<forall>s \<in> set ss. writableSection s \<and> map_of desired s \<noteq> None"
  shows "\<exists>res' w'. applyLoop (applySection G cn probe desired ae fe pw wifiPw profile) ss res w = (res', None, w') \<and>
    ok w' \<and> written (set ss) desired wifiPw (config w) (config w')"
  using assms
proof (induction ss arbitrary: w res)
  case Nil
  then show ?case by (simp add: written_empty)
next
  case (Cons s ss)
  then obtain m where m: "map_of desired s = Some m" by auto
  obtain w1 b where w1: "applySection G cn probe desired ae fe pw wifiPw profile s w = (Inr b, w1)" "ok w1"
      "config w1 = AList.update s (merge (desiredSec (config w) s) (payloadOf desired wifiPw s)) (config w)"
    using write_section [OF Cons.prems(1) _ m] Cons.prems(3) by auto metis
  let ?res1 = "res\<lparr>ar_applied := ar_applied res @ [s], ar_restartRequired := ar_restartRequired res \<or> b\<rparr>"
  obtain res' w' where "applyLoop (applySection G cn probe desired ae fe pw wifiPw profile) ss ?res1 w1 = (res', None, w')"
      "ok w'" "written (set ss) desired wifiPw (config w1) (config w')"
    using Cons.IH [OF w1(2), of ?res1] Cons.prems(2,3) by auto
  then show ?case using w1 written_insert [OF w1(3), of "set ss"] Cons.prems(2) by auto
qed

text \<open>
  The check after enforcement renders the profile again, for the configuration the device then
  has: it asks for the same, and finds nothing.
\<close>

lemma enforce_rendered:
  assumes "ok w" "enforceable G cfg (config w)"
    and "desired = Render G cfg desiredName (cfgJson (config w))"
    and "Diff desired (cfgJson (config w)) = Inr fs"
  shows "\<exists>res w'. applyFindings G cn probe desired fs ae fe pw wifiPw profile w = (res, None, w') \<and> ok w' \<and>
    Render G cfg desiredName (cfgJson (config w')) = desired \<and> Diff desired (cfgJson (config w')) = Inr []"
proof -
  note r = enforceable_rendered [OF assms(2,3)]
  have sub: "f_section ` set fs \<subseteq> fst ` set desired" by (rule Diff_sections(1) [OF assms(4)])
  have secs: "set (ApplyOrder (Sections fs)) = f_section ` set fs" by simp
  have "\<forall>s \<in> set (ApplyOrder (Sections fs)). writableSection s \<and> map_of desired s \<noteq> None"
    unfolding secs using sub r(2) map_of_eq_None_iff [of desired] by blast
  from write_loop [OF assms(1) _ this, of G probe ae fe pw wifiPw profile "\<lparr>ar_applied = [], ar_restartRequired = False\<rparr>"]
  obtain res w' where "applyLoop (applySection G cn probe desired ae fe pw wifiPw profile)
        (ApplyOrder (Sections fs)) \<lparr>ar_applied = [], ar_restartRequired = False\<rparr> w = (res, None, w')" "ok w'"
      "written (f_section ` set fs) desired wifiPw (config w) (config w')"
    unfolding secs by auto
  moreover from this have "Diff desired (cfgJson (config w')) = Inr []" "Render G cfg desiredName (cfgJson (config w')) = desired"
    using written_Diff [OF r(1,3) assms(4)] Render_grown [OF assms(3) _ written_grown [OF _ sub]] assms(2)
    by (simp_all add: enforceable_def)
  ultimately show ?thesis by (auto simp: applyFindings_def)
qed

end

section \<open>The emulated device is such a store\<close>

text \<open>No knob of the emulator makes it refuse or ignore configuration calls.\<close>

definition cooperative :: "fakeDevice \<Rightarrow> bool" where
  "cooperative d \<longleftrightarrow> fd_SetConfigError d = [] \<and> \<not> fd_IgnoreSetConfig d \<and> fd_GetConfigErrorAfter d \<le> 0"

lemma setConfig_names:
  assumes "hasSuffix rpc ''.SetConfig''"
  shows "rpc \<notin> set [''Shelly.GetDeviceInfo'', ''Shelly.GetConfig'', ''Shelly.SetAuth'', ''Sys.GetStatus'',
    ''Shelly.Reboot'', ''Shelly.Update'', ''Schedule.List'', ''Schedule.Create'', ''Schedule.Update'', ''Schedule.Delete'']"
    (is "_ \<notin> set ?rpcs")
proof -
  have "list_all (\<lambda>r. \<not> hasSuffix r ''.SetConfig'') ?rpcs" by code_simp
  then have "\<forall>r \<in> set ?rpcs. \<not> hasSuffix r ''.SetConfig''" by (simp only: list_all_iff)
  then show ?thesis using assms by (metis (no_types))
qed

lemma directCall_setConfig:
  assumes "cooperative d" "hasSuffix rpc ''.SetConfig''"
    and "ebind (decParams (Some p)) (\<lambda>m. ebind (decOpt decInt (jfield m ''id'')) (\<lambda>pid.
           ebind (decOpt decMap (jfield m ''config'')) (\<lambda>config. Inr (pid, config)))) = Inr (pid, Some cfg)"
    and "name = (case pid of None \<Rightarrow> toLower (trimSuffix rpc ''.SetConfig'')
           | Some n \<Rightarrow> toLower (trimSuffix rpc ''.SetConfig'') @ '':'' @ itoa n)"
  shows "directCall h rpc (Some p) d =
    (Inr (Some (JObj [(''restart_required'', JBool (fd_RestartOnSetConfig d))])),
     d\<lparr>fd_calls := fd_calls d @ [(rpc, Some p)],
       fd_config := AList.update name (merge (desiredSec (fd_config d) name) cfg) (fd_config d)\<rparr>)"
  using setConfig_names [OF assms(2)] assms
  by (simp add: directCall_def dispatch_def handleSetConfig_def cooperative_def desiredSec_def Let_def)

interpretation fakeConfig: config_store "directConn h" fd_config cooperative
proof unfold_locales
  fix d s m i
  assume c: "cooperative d"
  have "directCall h ''Shelly.GetConfig'' None d =
      (Inr (Some (JObj (cfgJson (fd_config d)))),
       d\<lparr>fd_calls := fd_calls d @ [(''Shelly.GetConfig'', None)], fd_getConfigCalls := fd_getConfigCalls d + 1\<rparr>)"
    using c by (simp add: directCall_def dispatch_def handleGetConfig_def cooperative_def cfgJson_def Let_def)
  then show "\<exists>w'. GetConfig (directConn h) d = (Inr (cfgJson (fd_config d)), w') \<and> fd_config w' = fd_config d \<and> cooperative w'"
    using c by (simp add: GetConfig_def callDec_def directConn_def orNull_def cooperative_def)
  let ?p = "JObj [(''config'', JObj m)]"
  show "\<exists>w' b. SetConfig (directConn h) s (JObj m) d = (Inr b, w') \<and> cooperative w' \<and>
      fd_config w' = AList.update s (merge (desiredSec (fd_config d) s) m) (fd_config d)" if "namable s"
    using directCall_setConfig [OF c configMethod_suffix, of ?p None m s s h] that c
    by (simp add: SetConfig_def callDec_def directConn_def orNull_def setConfigResult_def cooperative_def
        decParams_def decOpt_def namable_def)
  let ?q = "JObj [(''id'', jInt i), (''config'', JObj m)]" and ?s = "''switch:'' @ itoa i"
  have nm: "hasSuffix ''Switch.SetConfig'' ''.SetConfig''" "toLower (trimSuffix ''Switch.SetConfig'' ''.SetConfig'') = ''switch''"
    by code_simp+
  show "\<exists>w' b. SetSwitchConfig (directConn h) i (JObj m) d = (Inr b, w') \<and> cooperative w' \<and>
      fd_config w' = AList.update ?s (merge (desiredSec (fd_config d) ?s) m) (fd_config d)" if "int64 i"
  proof -
    have "jInt i \<noteq> JNull" by (simp add: jInt_def)
    then show ?thesis
      using directCall_setConfig [OF c nm(1), of ?q "Some i" m ?s h] that c nm(2)
      by (simp add: SetSwitchConfig_def callDec_def directConn_def orNull_def setConfigResult_def cooperative_def
          decParams_def decOpt_def)
  qed
qed

section \<open>Enforcing a rendered profile\<close>

text \<open>
  C3: Enforcement converges on the emulated device: writing the sections in which the device
  differs from a rendered profile succeeds for every profile, device configuration and set of
  passwords, afterwards no declared value differs from the device's, and rendering the profile
  again for what the device then reports asks for the same. (The device names its switches by
  number, and latitude and longitude are numbers.)
\<close>

theorem enforce_converges:
  assumes "cooperative d" "enforceable G cfg (fd_config d)"
    and "desired = Render G cfg desiredName (cfgJson (fd_config d))"
    and "Diff desired (cfgJson (fd_config d)) = Inr findings"
  shows "\<exists>res d'. applyFindings G (directConn h) probe desired findings authEnable fwEnable password wifiPw profile d =
      (res, None, d') \<and> Diff desired (cfgJson (fd_config d')) = Inr [] \<and>
    Render G cfg desiredName (cfgJson (fd_config d')) = desired"
  using fakeConfig.enforce_rendered [OF assms, of h probe authEnable fwEnable password wifiPw profile] by blast

theorem enforce_converges_witness:
  "\<exists>res d'. applyFindings exampleLib (directConn ''10.0.0.7'') (\<lambda>d. (Inl (ErrText []), d))
      (Render exampleLib (emptyConfig\<lparr>pc_cloud := Some \<lparr>cloud_enable = Some False\<rparr>\<rparr>) [] [(''cloud'', JObj [(''enable'', JBool True)])])
      [\<lparr>f_section = ''cloud'', f_path = ''enable'', f_want = JBool False, f_have = JBool True\<rparr>]
      None None [] \<lparr>wp_sta = [], wp_sta1 = []\<rparr> (exampleProfile ''p'' 0)
      (exampleFake\<lparr>fd_config := [(''cloud'', [(''enable'', JBool True)])]\<rparr>) = (res, None, d') \<and>
    Diff (Render exampleLib (emptyConfig\<lparr>pc_cloud := Some \<lparr>cloud_enable = Some False\<rparr>\<rparr>) [] [(''cloud'', JObj [(''enable'', JBool True)])])
      (cfgJson (fd_config d')) = Inr []"
proof -
  let ?c = "emptyConfig\<lparr>pc_cloud := Some \<lparr>cloud_enable = Some False\<rparr>\<rparr>"
  let ?d = "exampleFake\<lparr>fd_config := [(''cloud'', [(''enable'', JBool True)])]\<rparr>"
  have "\<not> isSwitchKey ''cloud''" by code_simp
  then have k: "\<forall>k \<in> fst ` set (fd_config ?d). isSwitchKey k \<longrightarrow> canonicalSwitch k" by simp
  have o: "cooperative ?d" "enforceable exampleLib ?c (fd_config ?d)"
    using k by (simp_all add: cooperative_def exampleFake_def cfgJson_def locationSane_def emptyConfig_def enforceable_def)
  have a: "cfgJson (fd_config ?d) = [(''cloud'', JObj [(''enable'', JBool True)])]" by (simp add: cfgJson_def)
  have r: "Render exampleLib ?c [] (cfgJson (fd_config ?d)) = [(''cloud'', [(''enable'', JBool False)])]"
    by (simp add: Render_def renderSys_def renderMQTT_def renderWifi_def renderSwitchComponents_def secEntry_def
        enableEntry_def optEntry_def emptyConfig_def objEntry_def renderSysDevice_def a)
  have f: "Diff (Render exampleLib ?c [] (cfgJson (fd_config ?d))) (cfgJson (fd_config ?d)) =
      Inr [\<lparr>f_section = ''cloud'', f_path = ''enable'', f_want = JBool False, f_have = JBool True\<rparr>]"
    unfolding r
    by (simp add: Diff_def sortedKeys_def desiredSec_def unmarshalMap_def diffMap.simps dotPath_def
        leafEqual_def orNull_def a)
  show ?thesis
    using enforce_converges [OF o refl f, of "''10.0.0.7''" "\<lambda>d. (Inl (ErrText []), d)" None None "[]"
        "\<lparr>wp_sta = [], wp_sta1 = []\<rparr>" "exampleProfile ''p'' 0"]
    unfolding a by blast
qed

end
