(* ===== verification/Enforcement.thy ===== *)
theory Enforcement
  imports Config_Store Schedule_Store
begin

text \<open>
  Enforcement of a whole profile: configuration sections, authentication, firmware jobs and
  schedule jobs in one pass. The interface is a device that is a configuration store and a job
  store at once and whose authentication can be switched, where no kind of call disturbs the
  others.
\<close>

section \<open>Findings by section\<close>

definition authPart :: "bool option \<Rightarrow> bool \<Rightarrow> Finding list" where
  "authPart ae a =
     (case ae of
        None \<Rightarrow> []
      | Some e \<Rightarrow>
          if e \<noteq> a then [\<lparr>f_section = sectionAuth, f_path = ''enable'', f_want = JBool e, f_have = JBool a\<rparr>] else [])"

definition firmwarePart :: "bool option \<Rightarrow> ScheduleJob list \<Rightarrow> Finding list" where
  "firmwarePart fe js = (case fe of None \<Rightarrow> [] | Some want \<Rightarrow> firmwareFindings want js)"

definition schedulePart :: "golib \<Rightarrow> ShellyProfile \<Rightarrow> ScheduleJob list \<Rightarrow> Finding list" where
  "schedulePart G profile js = map a_finding (scheduleActions G (scheduleSectionOf profile) js)"

lemma firmwarePart_section: "f \<in> set (firmwarePart fe js) \<Longrightarrow> f_section f = sectionFirmware"
  by (auto simp: firmwarePart_def firmwareFindings_def jobFinding_def firmwareFinding_def Let_def
      split: option.splits prod.splits if_splits)

lemma firstPass_section:
  "firstPass G specs owned dm = (as, ms, dm') \<Longrightarrow> a \<in> set as \<Longrightarrow> f_section (a_finding a) = sectionSchedule"
proof (induction specs arbitrary: dm as ms dm')
  case (Cons spec specs)
  show ?case
  proof (cases "if specIsUpdateJob spec then None else findMatch G spec owned dm")
    case None
    then show ?thesis using Cons by (auto simp: Let_def split: prod.splits)
  next
    case (Some di)
    then obtain bs ms' where "firstPass G specs owned (dm[di := True]) = (bs, ms', dm')" "as = updateAction spec (owned ! di) @ bs"
      using Cons.prems(1) by (auto simp: Let_def split: prod.splits)
    then show ?thesis using Cons by (auto simp: updateAction_def scheduleFinding_def Let_def split: if_splits)
  qed
qed simp

lemma createActions_section: "a \<in> set (createActions si specs ms) \<Longrightarrow> f_section (a_finding a) = sectionSchedule"
  by (induction specs arbitrary: si ms) (auto simp: createAction_def scheduleFinding_def split: if_splits)

lemma schedulePart_section: "f \<in> set (schedulePart G profile js) \<Longrightarrow> f_section f = sectionSchedule"
  by (auto simp: schedulePart_def scheduleActions_def Let_def deleteActions_def deleteAction_def scheduleFinding_def
      dest: firstPass_section [OF sym] createActions_section split: option.splits prod.splits)

lemma part_sections:
  "f_section ` set (authPart ae a) = (if authPart ae a = [] then {} else {sectionAuth})"
  "f_section ` set (firmwarePart fe js) = (if firmwarePart fe js = [] then {} else {sectionFirmware})"
  "f_section ` set (schedulePart G profile js) = (if schedulePart G profile js = [] then {} else {sectionSchedule})"
proof -
  have "\<forall>f \<in> set xs. f_section f = s \<Longrightarrow> f_section ` set xs = (if xs = [] then {} else {s})" for xs s
    by (cases xs) auto
  moreover have "f \<in> set (authPart ae a) \<Longrightarrow> f_section f = sectionAuth" for f
    by (auto simp: authPart_def split: option.splits if_splits)
  ultimately show "f_section ` set (authPart ae a) = (if authPart ae a = [] then {} else {sectionAuth})"
    "f_section ` set (firmwarePart fe js) = (if firmwarePart fe js = [] then {} else {sectionFirmware})"
    "f_section ` set (schedulePart G profile js) = (if schedulePart G profile js = [] then {} else {sectionSchedule})"
    using firmwarePart_section schedulePart_section by blast+
qed

lemma part_managed:
  "authPart ae a \<noteq> [] \<Longrightarrow> ae \<noteq> None" "firmwarePart fe js \<noteq> [] \<Longrightarrow> fe \<noteq> None" "schedulePart G profile js \<noteq> [] \<Longrightarrow> scheduleSectionOf profile \<noteq> None"
  by (cases ae, simp_all add: authPart_def, cases fe, simp_all add: firmwarePart_def schedulePart_def)
    (cases "scheduleSectionOf profile", simp_all add: scheduleActions_def)

text \<open>What each part looks at.\<close>

lemma firmwareFindings_filter: "firmwareFindings want (filter isUpdateJob js) = firmwareFindings want js"
proof -
  have "firmwareOffenders want (filter isUpdateJob js) = firmwareOffenders want js"
    by (induction js) (auto simp: Let_def)
  moreover have "concat (map (jobFinding want) (filter isUpdateJob js)) = concat (map (jobFinding want) js)"
    by (induction js) (auto simp: jobFinding_def)
  ultimately show ?thesis by (simp add: firmwareFindings_def)
qed

lemma firmwarePart_cong: "filter isUpdateJob js = filter isUpdateJob js' \<Longrightarrow> firmwarePart fe js = firmwarePart fe js'"
  by (metis firmwareFindings_filter firmwarePart_def option.case_eq_if)

lemma schedulePart_cong: "ownedJobs js = ownedJobs js' \<Longrightarrow> schedulePart G profile js = schedulePart G profile js'"
  by (simp add: schedulePart_def scheduleActions_def split: option.splits)

section \<open>What a pass over the sections does\<close>

text \<open>The sections a profile can drift in, and how many jobs enforcing them may create.\<close>

definition manageable :: "jmap gomap \<Rightarrow> bool option \<Rightarrow> string \<Rightarrow> bool option \<Rightarrow> ShellyProfile \<Rightarrow> string \<Rightarrow> bool" where
  "manageable desired ae pw fe profile s \<longleftrightarrow>
     (if s = sectionAuth then ae \<noteq> None \<and> (ae = Some True \<longrightarrow> pw \<noteq> [])
      else if s = sectionFirmware then fe \<noteq> None
      else if s = sectionSchedule
      then (case scheduleSectionOf profile of None \<Rightarrow> False | Some sec \<Rightarrow> list_all writable (ss_jobs sec))
      else writableSection s \<and> map_of desired s \<noteq> None)"

definition jobCost :: "ShellyProfile \<Rightarrow> string \<Rightarrow> nat" where
  "jobCost profile s =
     (if s = sectionFirmware then 1
      else if s = sectionSchedule
      then (case scheduleSectionOf profile of None \<Rightarrow> 0 | Some sec \<Rightarrow> length (ss_jobs sec))
      else 0)"

definition jobsAfter :: "golib \<Rightarrow> bool option \<Rightarrow> ShellyProfile \<Rightarrow> string set \<Rightarrow> ScheduleJob list \<Rightarrow> ScheduleJob list \<Rightarrow> bool" where
  "jobsAfter G fe profile ss js js' \<longleftrightarrow>
     (if sectionFirmware \<in> ss then firmwarePart fe js' = [] else filter isUpdateJob js' = filter isUpdateJob js) \<and>
     (if sectionSchedule \<in> ss then schedulePart G profile js' = [] else ownedJobs js' = ownedJobs js)"

abbreviation pseudo :: "string set" where
  "pseudo \<equiv> {sectionAuth, sectionFirmware, sectionSchedule}"

definition jobRoom :: "ShellyProfile \<Rightarrow> nat" where
  "jobRoom profile = jobCost profile sectionFirmware + jobCost profile sectionSchedule"

lemma jobCost_sum:
  assumes "distinct ss"
  shows "sum_list (map (jobCost profile) ss) \<le> jobRoom profile"
proof -
  have "sum_list (map (jobCost profile) ss) = (\<Sum>s\<in>set ss. jobCost profile s)"
    using assms by (simp add: sum_list_distinct_conv_sum_set)
  also have "\<dots> = (\<Sum>s\<in>set ss \<inter> pseudo. jobCost profile s)"
    by (rule sum.mono_neutral_right) (auto simp: jobCost_def)
  also have "\<dots> \<le> (\<Sum>s\<in>pseudo. jobCost profile s)" by (rule sum_mono2) auto
  also have "\<dots> = jobRoom profile" by (simp add: jobRoom_def jobCost_def)
  finally show ?thesis .
qed

lemma jobsAfter_insert:
  assumes "jobsAfter G fe profile {s} js js1" "jobsAfter G fe profile ss js1 js'" "s \<notin> ss"
  shows "jobsAfter G fe profile (insert s ss) js js'"
  using assms firmwarePart_cong [of js' js1 fe] schedulePart_cong [of js' js1 G profile]
  by (auto simp: jobsAfter_def split: if_splits)

section \<open>A device that is both stores\<close>

text \<open>
  \<open>ok n\<close>: the device answers, and \<open>n\<close> more jobs can be created; \<open>authOn\<close>: it asks for the
  password. \<open>G\<close>, \<open>probe\<close> and \<open>pw\<close> are what switching authentication uses.
\<close>

locale device_store =
  fixes cn :: "'w conn" and config :: "'w \<Rightarrow> jmap gomap" and jobs :: "'w \<Rightarrow> ScheduleJob list" and ok :: "nat \<Rightarrow> 'w \<Rightarrow> bool"
    and authOn :: "'w \<Rightarrow> bool" and G :: golib and probe :: "'w \<Rightarrow> (go_error + DeviceInfo) \<times> 'w" and pw :: string
  assumes config_part: "config_store cn config (\<lambda>w. ok n w \<and> jobs w = J \<and> authOn w = A)"
    and jobs_part: "schedule_store cn jobs (\<lambda>n w. ok n w \<and> config w = C \<and> authOn w = A)"
    and auth_part: "ok n w \<Longrightarrow> want \<longrightarrow> pw \<noteq> [] \<Longrightarrow> \<exists>w'. applyAuth G cn probe (Some want) pw w = (Inr False, w') \<and>
      ok n w' \<and> authOn w' = want \<and> jobs w' = jobs w \<and> config w' = config w"
begin

lemma ok_le: "ok n w \<Longrightarrow> m \<le> n \<Longrightarrow> ok m w"
  using schedule_store.room_le [OF jobs_part, of n w "config w" "authOn w" m] by simp

lemma list_ok: "ok n w \<Longrightarrow> \<exists>w'. ListSchedules cn w = (Inr (jobs w), w') \<and> ok n w' \<and>
    jobs w' = jobs w \<and> config w' = config w \<and> authOn w' = authOn w"
  using schedule_store.list_ok [OF jobs_part, of n w "config w" "authOn w"] by blast

lemma get_ok: "ok n w \<Longrightarrow>
    \<exists>w'. GetConfig cn w = (Inr (cfgJson (config w)), w') \<and> ok n w' \<and> jobs w' = jobs w \<and> config w' = config w \<and>
      authOn w' = authOn w"
  using config_store.get_ok [OF config_part, of n w "jobs w" "authOn w"] by blast

lemma section_ok:
  assumes "ok n w" "writableSection s" "map_of desired s = Some m"
  shows "\<exists>w' b. applySection G cn probe desired ae fe pw wifiPw profile s w = (Inr b, w') \<and> ok n w' \<and> jobs w' = jobs w \<and>
    authOn w' = authOn w \<and>
    config w' = AList.update s (merge (desiredSec (config w) s) (payloadOf desired wifiPw s)) (config w)"
  using config_store.write_section [OF config_part, OF _ assms(2,3), of n w] assms(1) by blast

lemma firmware_ok:
  assumes "ok (Suc n) w"
  shows "\<exists>w'. applySection G cn probe desired ae (Some want) pw wifiPw profile sectionFirmware w = (Inr False, w') \<and>
    ok n w' \<and> config w' = config w \<and> authOn w' = authOn w \<and> firmwarePart (Some want) (jobs w') = [] \<and> ownedJobs (jobs w') = ownedJobs (jobs w)"
proof -
  obtain w' where "applyFirmware cn want w = (None, w')" "firmwareFindings want (jobs w') = []"
      "filter (\<lambda>j. \<not> isUpdateJob j) (jobs w') = filter (\<lambda>j. \<not> isUpdateJob j) (jobs w)" "ok n w'" "config w' = config w" "authOn w' = authOn w"
    using schedule_store.applyFirmware_ok [OF jobs_part, of n w "config w" "authOn w" want] assms by blast
  then show ?thesis by (simp add: applySection_def voidErr_def firmwarePart_def ownedJobs_def)
qed

lemma schedule_ok:
  assumes "ok (length (ss_jobs sec) + n) w" "scheduleSectionOf profile = Some sec" "list_all writable (ss_jobs sec)"
  shows "\<exists>w'. applySection G cn probe desired ae fe pw wifiPw profile sectionSchedule w = (Inr False, w') \<and>
    ok n w' \<and> config w' = config w \<and> authOn w' = authOn w \<and> schedulePart G profile (jobs w') = [] \<and>
    filter isUpdateJob (jobs w') = filter isUpdateJob (jobs w)"
proof -
  obtain w' where "applySchedule G cn profile w = (None, w')" "scheduleActions G (Some sec) (jobs w') = []"
      "filter isUpdateJob (jobs w') = filter isUpdateJob (jobs w)" "ok n w'" "config w' = config w" "authOn w' = authOn w"
    using schedule_store.applySchedule_ok [OF jobs_part, of sec n w "config w" "authOn w" profile G] assms by blast
  moreover have "pc_schedules (ps_config (p_spec profile)) \<noteq> None"
    using assms(2) by (simp add: scheduleSectionOf_def)
  ultimately show ?thesis using assms(2) by (simp add: applySection_def voidErr_def schedulePart_def)
qed

text \<open>One section, whichever kind it is.\<close>

lemma one_section:
  assumes "manageable desired ae pw fe profile s" "ok (jobCost profile s + n) w"
  shows "\<exists>w' b. applySection G cn probe desired ae fe pw wifiPw profile s w = (Inr b, w') \<and> ok n w' \<and>
    jobsAfter G fe profile {s} (jobs w) (jobs w') \<and> authOn w' = (if s = sectionAuth then ae = Some True else authOn w) \<and>
    (if s \<in> pseudo then config w' = config w
     else config w' = AList.update s (merge (desiredSec (config w) s) (payloadOf desired wifiPw s)) (config w))"
proof -
  have ne: "sectionFirmware \<noteq> sectionSchedule" by simp
  consider "s = sectionAuth" | "s = sectionFirmware" | "s = sectionSchedule" | "s \<notin> pseudo" by blast
  then show ?thesis
  proof cases
    case 1
    then obtain want where "ae = Some want" "want \<longrightarrow> pw \<noteq> []" using assms(1) by (auto simp: manageable_def)
    then show ?thesis
      using auth_part [of n w want] 1 assms(2) by (auto simp: jobCost_def jobsAfter_def applySection_def)
  next
    case 2
    then obtain want where "fe = Some want" using assms(1) by (auto simp: manageable_def)
    then show ?thesis
      using firmware_ok [of n w desired ae want wifiPw profile] 2 assms(2) ne
      by (auto simp: jobCost_def jobsAfter_def)
  next
    case 3
    then obtain sec where "scheduleSectionOf profile = Some sec" "list_all writable (ss_jobs sec)"
      using assms(1) ne by (auto simp: manageable_def split: option.splits)
    then show ?thesis
      using schedule_ok [of sec n w profile desired ae fe wifiPw] 3 assms(2) ne
      by (auto simp: jobCost_def jobsAfter_def)
  next
    case 4
    then obtain m where m: "writableSection s" "map_of desired s = Some m"
      using assms(1) by (auto simp: manageable_def)
    have "ok n w" using assms(2) 4 by (simp add: jobCost_def)
    from section_ok [OF this m, of ae fe wifiPw profile] obtain w' b where
      "applySection G cn probe desired ae fe pw wifiPw profile s w = (Inr b, w')" "ok n w'" "jobs w' = jobs w"
      "authOn w' = authOn w" "config w' = AList.update s (merge (desiredSec (config w) s) (payloadOf desired wifiPw s)) (config w)" by blast
    moreover have "jobsAfter G fe profile {s} (jobs w) (jobs w)" using 4 by (auto simp: jobsAfter_def)
    moreover have "s \<noteq> sectionAuth" using 4 by simp
    ultimately show ?thesis using 4 by (intro exI [of _ w'] exI [of _ b]) (simp only: if_False simp_thms)
  qed
qed

lemma all_sections:
  assumes "\<forall>s \<in> set ss. manageable desired ae pw fe profile s" "distinct ss" "ok (sum_list (map (jobCost profile) ss) + n) w"
  shows "\<exists>res' w'. applyLoop (applySection G cn probe desired ae fe pw wifiPw profile) ss res w = (res', None, w') \<and>
    ok n w' \<and> jobsAfter G fe profile (set ss) (jobs w) (jobs w') \<and>
    authOn w' = (if sectionAuth \<in> set ss then ae = Some True else authOn w) \<and>
    written (set ss - pseudo) desired wifiPw (config w) (config w')"
  using assms
proof (induction ss arbitrary: w res)
  case Nil
  then show ?case by (simp add: written_empty jobsAfter_def)
next
  case (Cons s ss)
  have k: "ok (jobCost profile s + (sum_list (map (jobCost profile) ss) + n)) w" using Cons.prems(3) by (simp add: add.assoc)
  obtain w1 b where w1: "applySection G cn probe desired ae fe pw wifiPw profile s w = (Inr b, w1)"
      "ok (sum_list (map (jobCost profile) ss) + n) w1" "jobsAfter G fe profile {s} (jobs w) (jobs w1)"
      "authOn w1 = (if s = sectionAuth then ae = Some True else authOn w)"
      "if s \<in> pseudo then config w1 = config w
       else config w1 = AList.update s (merge (desiredSec (config w) s) (payloadOf desired wifiPw s)) (config w)"
    using one_section [OF _ k, of desired ae fe wifiPw] Cons.prems(1) by auto
  let ?res1 = "res\<lparr>ar_applied := ar_applied res @ [s], ar_restartRequired := ar_restartRequired res \<or> b\<rparr>"
  obtain res' w' where w': "applyLoop (applySection G cn probe desired ae fe pw wifiPw profile) ss ?res1 w1 = (res', None, w')"
      "ok n w'" "jobsAfter G fe profile (set ss) (jobs w1) (jobs w')"
      "authOn w' = (if sectionAuth \<in> set ss then ae = Some True else authOn w1)"
      "written (set ss - pseudo) desired wifiPw (config w1) (config w')"
    using Cons.IH [OF _ _ w1(2), of ?res1] Cons.prems(1,2) by auto
  have "jobsAfter G fe profile (set (s # ss)) (jobs w) (jobs w')"
    using jobsAfter_insert [OF w1(3) w'(3)] Cons.prems(2) by simp
  moreover have "written (set (s # ss) - pseudo) desired wifiPw (config w) (config w')"
  proof (cases "s \<in> pseudo")
    case True
    then show ?thesis using w1(5) w'(5) by (simp add: insert_Diff_if)
  next
    case False
    then show ?thesis
      using written_insert [of "config w1" s "config w" desired wifiPw "set ss - pseudo"] w1(5) w'(5) Cons.prems(2)
      by (simp add: insert_Diff_if)
  qed
  moreover have "authOn w' = (if sectionAuth \<in> set (s # ss) then ae = Some True else authOn w)"
    using w1(4) w'(4) by auto
  ultimately show ?case using w1(1) w'(1,2) by auto
qed

text \<open>Every section with a finding is one that the pass can write.\<close>

lemma drifted_manageable:
  assumes "f_section ` set cs \<subseteq> fst ` set desired" "\<forall>s \<in> fst ` set desired. writableSection s"
    and "ae = Some True \<longrightarrow> pw \<noteq> []"
    and "\<And>sec. scheduleSectionOf profile = Some sec \<Longrightarrow> list_all writable (ss_jobs sec)"
    and "s \<in> f_section ` set cs \<union> f_section ` set (authPart ae on) \<union> f_section ` set (firmwarePart fe js) \<union>
      f_section ` set (schedulePart G profile js)"
  shows "manageable desired ae pw fe profile s"
proof -
  from assms(5) consider "s = sectionAuth" "authPart ae on \<noteq> []" | "s = sectionFirmware" "firmwarePart fe js \<noteq> []"
    | "s = sectionSchedule" "schedulePart G profile js \<noteq> []" | "s \<in> f_section ` set cs"
    unfolding part_sections by (auto split: if_splits)
  then show ?thesis
  proof cases
    case 1
    then show ?thesis using part_managed(1) assms(3) by (simp add: manageable_def)
  next
    case 2
    then show ?thesis using part_managed(2) by (simp add: manageable_def)
  next
    case 3
    then show ?thesis using part_managed(3) [of G profile js] assms(4) by (auto simp: manageable_def)
  next
    case 4
    then have "s \<in> fst ` set desired" using assms(1) by blast
    then have "s \<noteq> sectionAuth" "s \<noteq> sectionFirmware" "s \<noteq> sectionSchedule" "writableSection s" "map_of desired s \<noteq> None"
      using assms(2) by (auto simp: map_of_eq_None_iff writableSection_def)
    then show ?thesis by (simp only: manageable_def if_False simp_thms)
  qed
qed

text \<open>
  A pass over everything that drifted, and the state after it: the profile rendered again asks
  for the same, and none of the four kinds of findings is left.
\<close>

lemma enforce_all:
  assumes "ok (jobRoom profile + n) w"
    and "enforceable G cfg (config w)" "desired = Render G cfg desiredName (cfgJson (config w))"
    and "Diff desired (cfgJson (config w)) = Inr cs"
    and "fs = cs @ authPart ae (authOn w) @ firmwarePart fe (jobs w) @ schedulePart G profile (jobs w)"
    and "\<And>sec. scheduleSectionOf profile = Some sec \<Longrightarrow> list_all writable (ss_jobs sec)"
    and "ae = Some True \<longrightarrow> pw \<noteq> []"
  shows "\<exists>res w'. applyFindings G cn probe desired fs ae fe pw wifiPw profile w = (res, None, w') \<and> ok n w' \<and>
    authPart ae (authOn w') = [] \<and> authOn w' = (if sectionAuth \<in> set (ar_applied res) then ae = Some True else authOn w) \<and>
    Render G cfg desiredName (cfgJson (config w')) = desired \<and> Diff desired (cfgJson (config w')) = Inr [] \<and>
    firmwarePart fe (jobs w') = [] \<and> schedulePart G profile (jobs w') = []"
proof -
  note r = enforceable_rendered [OF assms(2,3)]
  have sub: "f_section ` set cs \<subseteq> fst ` set desired" by (rule Diff_sections(1) [OF assms(4)])
  have np: "s \<notin> pseudo" if "s \<in> fst ` set desired" for s
    using r(2) that by (auto simp: writableSection_def)
  let ?ss = "ApplyOrder (Sections fs)"
  have room: "ok (sum_list (map (jobCost profile) ?ss) + n) w"
    using ok_le [OF assms(1)] jobCost_sum [of ?ss profile] by simp
  let ?A = "authPart ae (authOn w)" and ?F = "firmwarePart fe (jobs w)" and ?H = "schedulePart G profile (jobs w)"
  have ss: "set ?ss = f_section ` set cs \<union> f_section ` set ?A \<union> f_section ` set ?F \<union> f_section ` set ?H"
    unfolding set_ApplyOrder set_Sections assms(5) by auto
  have dis: "f_section ` set cs \<inter> pseudo = {}" using np sub by blast
  have au: "sectionAuth \<in> set ?ss \<longleftrightarrow> ?A \<noteq> []" and fw: "sectionFirmware \<in> set ?ss \<longleftrightarrow> ?F \<noteq> []" and sc: "sectionSchedule \<in> set ?ss \<longleftrightarrow> ?H \<noteq> []"
    and cf: "set ?ss - pseudo = f_section ` set cs"
    unfolding ss part_sections using dis by auto
  have "\<forall>s \<in> set ?ss. manageable desired ae pw fe profile s"
    unfolding ss using drifted_manageable [OF sub r(2) assms(7,6)] by blast
  then obtain res w' where w': "applyLoop (applySection G cn probe desired ae fe pw wifiPw profile) ?ss
        \<lparr>ar_applied = [], ar_restartRequired = False\<rparr> w = (res, None, w')" "ok n w'"
      "jobsAfter G fe profile (set ?ss) (jobs w) (jobs w')"
      "authOn w' = (if sectionAuth \<in> set ?ss then ae = Some True else authOn w)" "written (f_section ` set cs) desired wifiPw (config w) (config w')"
    using all_sections [OF _ _ room, of desired ae fe wifiPw "\<lparr>ar_applied = [], ar_restartRequired = False\<rparr>"]
    unfolding cf by auto
  have "Diff desired (cfgJson (config w')) = Inr []" "Render G cfg desiredName (cfgJson (config w')) = desired"
    using written_Diff [OF r(1,3) assms(4) w'(5)] Render_grown [OF assms(3) _ written_grown [OF w'(5) sub]] assms(2)
    by (simp_all add: enforceable_def)
  moreover have "firmwarePart fe (jobs w') = []" "schedulePart G profile (jobs w') = []"
    using w'(3) fw sc firmwarePart_cong [of "jobs w'" "jobs w"] schedulePart_cong [of "jobs w'" "jobs w"]
    by (auto simp: jobsAfter_def split: if_splits)
  moreover have "authPart ae (authOn w') = []"
    using w'(4) au by (auto simp: authPart_def split: option.splits if_splits)
  moreover have "ar_applied res = ?ss" using applyLoop_prefix [OF w'(1)] by auto
  ultimately show ?thesis using w'(1,2,4) by (auto simp: applyFindings_def)
qed

end

end
