(* ===== verification/Update.thy ===== *)
theory Update
  imports Window Schedule Fleet Effects
begin

text \<open>
  \<open>internal/controller/firmwareupdate.go\<close> and the client cache of the reconciler: starting a
  firmware update, recording the attempt, and the fleet-wide spacing between two updates. The
  recorder and the readers are always set by \<open>cmd/main.go\<close>.
\<close>

section \<open>The reconciler\<close>

record reconciler =
  rc_nameMapName :: string
  rc_registryName :: string
  rc_interval :: time
  rc_updateSpacing :: time

text \<open>
  \<open>deviceClient\<close>: the cached client of an address, rebuilt when the password changed. Calls go
  through the cache, so that the digest state a call leaves behind is the one the next call
  starts from.
\<close>

definition deviceClient :: "string \<Rightarrow> string \<Rightarrow> 'e world \<Rightarrow> 'e world" where
  "deviceClient addr password w =
     (case map_of (w_clients w) addr of
        Some (pw, c) \<Rightarrow>
          if pw = password then w
          else w\<lparr>w_clients := AList.update addr (password, NewClient addr password) (w_clients w)\<rparr>
      | None \<Rightarrow> w\<lparr>w_clients := AList.update addr (password, NewClient addr password) (w_clients w)\<rparr>)"

definition cachedCall :: "'e sysops \<Rightarrow> golib \<Rightarrow> string \<Rightarrow> string \<Rightarrow> json option \<Rightarrow> 'e world
    \<Rightarrow> (go_error + json option) \<times> 'e world" where
  "cachedCall S G addr rpc params w =
     (case map_of (w_clients w) addr of
        None \<Rightarrow> (Inl (ErrText ''no client''), w)
      | Some (pw, c) \<Rightarrow>
          (case Call S G c rpc params w of
             (r, c, w) \<Rightarrow> (r, w\<lparr>w_clients := AList.update addr (pw, c) (w_clients w)\<rparr>)))"

definition cachedConn :: "'e sysops \<Rightarrow> golib \<Rightarrow> string \<Rightarrow> 'e world conn" where
  "cachedConn S G addr = \<lparr>cn_host = addr, cn_call = cachedCall S G addr\<rparr>"

section \<open>firmwareupdate.go\<close>

abbreviation updateSettle :: time where
  "updateSettle \<equiv> minutes 20"

text \<open>The zero \<open>time.Time\<close>, January 1 of year 1.\<close>

abbreviation zeroTime :: time where
  "zeroTime \<equiv> seconds (-62135596800)"

record sysRead =
  sr_restartRequired :: bool
  sr_availableFirmware :: string
  sr_fresh :: bool

abbreviation nowW :: "'e sysops \<Rightarrow> 'e world \<Rightarrow> time \<times> 'e world" where
  "nowW S w \<equiv> askEnv (timeNow S) w"

definition recordUpdateAttempt :: "'e sysops \<Rightarrow> ShellyDevice \<Rightarrow> FirmwareUpdateAttempt \<Rightarrow> 'e world
    \<Rightarrow> bool \<times> ShellyDevice \<times> 'e world" where
  "recordUpdateAttempt S dev attempt w =
     (let base = dev;
          setLast = (\<lambda>d. d\<lparr>d_status := (d_status d)\<lparr>st_lastFirmwareUpdate := Some attempt\<rparr>\<rparr>);
          dev = setLast dev;
          failed = (\<lambda>w. (False, dev\<lparr>d_status := (d_status dev)\<lparr>st_lastFirmwareUpdate :=
                      st_lastFirmwareUpdate (d_status base)\<rparr>\<rparr>,
                    emit EventTypeWarning ''FirmwareUpdateNotRecorded''
                      ''could not persist status.lastFirmwareUpdate'' w))
      in case patchStatusW S base dev w of
           (Inr stored, w) \<Rightarrow> (True, stored, w)
         | (Inl _, w) \<Rightarrow>
             (case askEnv (getDevice S (m_namespace (d_meta dev)) (m_name (d_meta dev))) w of
                (Inl _, w) \<Rightarrow> failed w
              | (Inr fresh, w) \<Rightarrow>
                  (case patchStatusW S fresh (setLast fresh) w of
                     (Inr _, w) \<Rightarrow> (True, dev, w)
                   | (Inl _, w) \<Rightarrow> failed w)))"

definition updateInFlight :: "ShellyDevice \<Rightarrow> time \<Rightarrow> bool \<times> time" where
  "updateInFlight dev now =
     (case st_lastFirmwareUpdate (d_status dev) of
        None \<Rightarrow> (False, 0)
      | Some att \<Rightarrow>
          if fa_refused att \<or> st_firmware (d_status dev) \<noteq> fa_from att then (False, 0)
          else
            (let remaining = updateSettle - (now - fa_time att)
             in if remaining \<le> 0 then (False, 0) else (True, remaining)))"

definition latestStart :: "time \<Rightarrow> ShellyDevice list \<Rightarrow> time" where
  "latestStart start devs =
     foldl (\<lambda>latest d.
        case st_lastFirmwareUpdate (d_status d) of
          None \<Rightarrow> latest
        | Some a \<Rightarrow> if fa_time a > latest then fa_time a else latest) start devs"

definition claimUpdateSlot :: "'e sysops \<Rightarrow> reconciler \<Rightarrow> string \<Rightarrow> 'e world \<Rightarrow> bool \<times> 'e world" where
  "claimUpdateSlot S R namespace w =
     (let spacing = (if rc_updateSpacing R \<le> 0 then minutes 2 else rc_updateSpacing R)
      in case askEnv (listDevices S namespace) w of
           (Inl _, w) \<Rightarrow> (False, w)
         | (Inr devs, w) \<Rightarrow>
             (let start = (case w_lastUpdateStart w of None \<Rightarrow> zeroTime | Some t \<Rightarrow> t);
                  latest = latestStart start devs;
                  (now, w) = nowW S w
              in if latest \<noteq> zeroTime \<and> now - latest < spacing then (False, w)
                 else (True, w\<lparr>w_lastUpdateStart := Some now\<rparr>)))"

text \<open>The guards of \<open>updateIfAvailable\<close> up to the claim of the slot; events are emitted as in the source.\<close>

definition updateWanted :: "'e sysops \<Rightarrow> golib \<Rightarrow> ShellyDevice \<Rightarrow> ShellyProfile \<Rightarrow> sysRead \<Rightarrow> 'e world
    \<Rightarrow> bool \<times> 'e world" where
  "updateWanted S G dev profile sys w =
     (let spec = p_spec profile
      in if \<not> ps_updateWhenAvailable spec \<or> ps_mode spec \<noteq> ModeEnforce then (False, w)
         else if \<not> sr_fresh sys \<or> sr_availableFirmware sys = [] then (False, w)
         else if ps_updateWindow spec = None then (False, w)
         else
           (let (now, w) = nowW S w
            in case withinRebootWindow G now (ps_updateWindow spec) of
                 Inl err \<Rightarrow>
                   (False, emit EventTypeWarning ''UpdateWindowInvalid''
                      (''not updating firmware: '' @ errText err) w)
               | Inr False \<Rightarrow> (False, w)
               | Inr True \<Rightarrow>
                   (case st_lastFirmwareUpdate (d_status dev) of
                      None \<Rightarrow> (True, w)
                    | Some att \<Rightarrow>
                        if fa_refused att \<or> fa_target att \<noteq> sr_availableFirmware sys then (True, w)
                        else
                          (let (now, w) = nowW S w
                           in (\<not> now - fa_time att < updateSettle, w)))))"

definition sendUpdate :: "'e sysops \<Rightarrow> 'e world conn \<Rightarrow> ShellyDevice \<Rightarrow> FirmwareUpdateAttempt \<Rightarrow> sysRead \<Rightarrow> 'e world
    \<Rightarrow> bool \<times> ShellyDevice \<times> 'e world" where
  "sendUpdate S cn dev attempt sys w =
     (let target = sr_availableFirmware sys
      in case Update cn ''stable'' w of
           (None, w) \<Rightarrow>
             (True, dev, emit EventTypeNormal ''FirmwareUpdateStarted''
                (''requested stable firmware '' @ target @ '' (running '' @ fa_from attempt @ '')'') w)
         | (Some callErr, w) \<Rightarrow>
             (let attempt' = attempt\<lparr>fa_error := errText callErr, fa_refused := IsRefusal callErr\<rparr>;
                  msg = (if fa_refused attempt'
                         then ''Shelly.Update to '' @ target @ '' refused: '' @ errText callErr
                         else ''Shelly.Update to '' @ target @
                           '' did not answer cleanly; it may be installing: '' @ errText callErr);
                  (_, dev, w) = recordUpdateAttempt S dev attempt' (emit EventTypeWarning ''FirmwareUpdateFailed'' msg w)
              in (\<not> fa_refused attempt', dev, w)))"

definition updateIfAvailable :: "'e sysops \<Rightarrow> golib \<Rightarrow> reconciler \<Rightarrow> 'e world conn \<Rightarrow> ShellyDevice \<Rightarrow> ShellyProfile
    \<Rightarrow> sysRead \<Rightarrow> 'e world \<Rightarrow> bool \<times> ShellyDevice \<times> 'e world" where
  "updateIfAvailable S G R cn dev profile sys w =
     (case updateWanted S G dev profile sys w of
        (False, w) \<Rightarrow> (False, dev, w)
      | (True, w) \<Rightarrow>
          (case claimUpdateSlot S R (m_namespace (d_meta dev)) w of
             (False, w) \<Rightarrow> (False, dev, w)
           | (True, w) \<Rightarrow>
               (let (now, w) = nowW S w;
                    attempt = \<lparr>fa_time = now, fa_from = st_firmware (d_status dev),
                               fa_target = sr_availableFirmware sys, fa_error = [], fa_refused = False\<rparr>
                in case recordUpdateAttempt S dev attempt w of
                     (False, dev, w) \<Rightarrow> (False, dev, w)
                   | (True, dev, w) \<Rightarrow> sendUpdate S cn dev attempt sys w)))"

section \<open>The cached connection keeps to the methods it is asked for\<close>

lemma cachedCall_trace:
  assumes "cachedCall S G addr rpc params w = (r, w')"
  shows "\<exists>c xs. w_trace w' = w_trace w @ xs \<and> list_all (isPost c (rpcRequest rpc params)) xs"
proof (cases "map_of (w_clients w) addr")
  case None
  then show ?thesis using assms by (simp add: cachedCall_def)
next
  case (Some pc)
  obtain pw c where pc: "pc = (pw, c)" by force
  obtain r1 c1 w1 where C: "Call S G c rpc params w = (r1, c1, w1)" by (metis prod_cases3)
  have "w_trace w' = w_trace w1" using assms Some pc C by (auto simp: cachedCall_def)
  then show ?thesis using Call_trace [OF C] by metis
qed

interpretation cached: confined_conn "cachedConn S G addr" A for S :: "'e sysops" and G addr A
proof
  fix rpc params r and w w' :: "'e world"
  assume call: "cn_call (cachedConn S G addr) rpc params w = (r, w')" and mem: "rpc \<in> A"
  from call obtain c xs where "w_trace w' = w_trace w @ xs" "list_all (isPost c (rpcRequest rpc params)) xs"
    using cachedCall_trace [of S G addr rpc params w r w'] by (auto simp: cachedConn_def)
  then show "ext (confined A) w w'"
    using mem isPost_confined by (intro extI) (auto simp: list_all_iff)
qed

section \<open>Spacing of updates\<close>

abbreviation spacing :: "reconciler \<Rightarrow> time" where
  "spacing R \<equiv> (if rc_updateSpacing R \<le> 0 then minutes 2 else rc_updateSpacing R)"










definition exampleReconciler :: reconciler where
  "exampleReconciler = \<lparr>rc_nameMapName = [], rc_registryName = [], rc_interval = 0, rc_updateSpacing = 0\<rparr>"


section \<open>The attempt is recorded before the request is sent\<close>

abbreviation isHttp :: "effect \<Rightarrow> bool" where
  "isHttp x \<equiv> (\<exists>rq. x = Http rq)"

lemma recordUpdateAttempt_trace:
  assumes "recordUpdateAttempt S dev att w = (ok, dev', w')"
  shows "\<exists>xs. w_trace w' = w_trace w @ xs \<and> list_all (confined {}) xs \<and>
    (ok \<longrightarrow> (\<exists>base d. StatusPatch base d True \<in> set xs \<and> st_lastFirmwareUpdate (d_status d) = Some att))"
proof -
  define stamp :: "ShellyDevice \<Rightarrow> ShellyDevice"
    where "stamp = (\<lambda>d. d\<lparr>d_status := (d_status d)\<lparr>st_lastFirmwareUpdate := Some att\<rparr>\<rparr>)"
  obtain r1 w1 where p1: "patchStatusW S dev (stamp dev) w = (r1, w1)" by force
  have t1: "w_trace w1 = w_trace w @ [StatusPatch dev (stamp dev) (isOk r1)]"
    using trace_patchStatusW [of S dev "stamp dev" w] p1 by simp
  have kept: "confined {} (StatusPatch d (stamp d) ok)" for d ok
    by (simp add: confined_patches discoveryKept_def stamp_def Let_def)
  show ?thesis
  proof (cases r1)
    case (Inr stored)
    then have "w' = w1" using assms p1 by (simp add: recordUpdateAttempt_def stamp_def)
    then show ?thesis using t1 Inr kept [of dev True]
      by (intro exI [of _ "[StatusPatch dev (stamp dev) True]"]) (auto simp: isOk_def stamp_def)
  next
    case (Inl err)
    obtain r2 w2 where g: "askEnv (getDevice S (m_namespace (d_meta (stamp dev))) (m_name (d_meta (stamp dev)))) w1 = (r2, w2)"
      by force
    have t2: "w_trace w2 = w_trace w1" using trace_askEnv g by (metis snd_conv)
    show ?thesis
    proof (cases r2)
      case (Inl _)
      then show ?thesis using assms p1 \<open>r1 = Inl err\<close> g t1 t2
        by (auto simp: recordUpdateAttempt_def stamp_def Let_def confined_patches discoveryKept_def)
    next
      case (Inr fresh)
      obtain r3 w3 where p3: "patchStatusW S fresh (stamp fresh) w2 = (r3, w3)" by force
      have t3: "w_trace w3 = w_trace w2 @ [StatusPatch fresh (stamp fresh) (isOk r3)]"
        using trace_patchStatusW [of S fresh "stamp fresh" w2] p3 by simp
      show ?thesis using assms p1 \<open>r1 = Inl err\<close> g t1 t2 t3 Inr p3
        by (cases r3) (auto simp: recordUpdateAttempt_def stamp_def Let_def isOk_def confined_patches discoveryKept_def)
    qed
  qed
qed

lemma recordUpdateAttempt_ext:
  assumes "recordUpdateAttempt S dev att w = (ok, dev', w')"
  shows "ext (confined A) w w'"
proof -
  have "ext (confined {}) w w'"
    using recordUpdateAttempt_trace [OF assms] extI by blast
  then show ?thesis by (rule ext_quiet)
qed

text \<open>The first and the second time that the clock gives from an environment on.\<close>

definition clockNow :: "'e sysops \<Rightarrow> 'e world \<Rightarrow> time" where
  "clockNow S w = fst (timeNow S (w_env w))"

definition clockNext :: "'e sysops \<Rightarrow> 'e world \<Rightarrow> time" where
  "clockNext S w = fst (timeNow S (snd (timeNow S (w_env w))))"

lemma clock_nowW:
  "askEnv (timeNow S) w = (now, w1) \<Longrightarrow> now = clockNow S w"
  "askEnv (timeNow S) w = (now, w1) \<Longrightarrow> askEnv (timeNow S) w1 = (now', w2) \<Longrightarrow> now' = clockNext S w"
  by (auto simp: askEnv_def clockNow_def clockNext_def split: prod.splits)

text \<open>
  When an update may be sent: the window is open at the time \<open>now\<close>, and a version that was tried
  before without being refused has had its settling time at \<open>now'\<close>.
\<close>

definition updateAllowed :: "golib \<Rightarrow> ShellyDevice \<Rightarrow> ShellyProfile \<Rightarrow> sysRead \<Rightarrow> time \<Rightarrow> time \<Rightarrow> bool" where
  "updateAllowed G dev profile sys now now' \<longleftrightarrow>
     ps_updateWhenAvailable (p_spec profile) \<and> ps_mode (p_spec profile) = ModeEnforce \<and>
     sr_fresh sys \<and> sr_availableFirmware sys \<noteq> [] \<and>
     ps_updateWindow (p_spec profile) \<noteq> None \<and>
     withinRebootWindow G now (ps_updateWindow (p_spec profile)) = Inr True \<and>
     (case st_lastFirmwareUpdate (d_status dev) of
        None \<Rightarrow> True
      | Some att \<Rightarrow> fa_refused att \<or> fa_target att \<noteq> sr_availableFirmware sys \<or> fa_time att + updateSettle \<le> now')"

lemma updateWanted_ext:
  assumes "updateWanted S G dev profile sys w = (b, w')"
  shows "ext (confined A) w w' \<and> (b \<longrightarrow> updateAllowed G dev profile sys (clockNow S w) (clockNext S w))"
proof (cases "ps_updateWhenAvailable (p_spec profile) \<and> ps_mode (p_spec profile) = ModeEnforce \<and>
    sr_fresh sys \<and> sr_availableFirmware sys \<noteq> [] \<and> ps_updateWindow (p_spec profile) \<noteq> None")
  case False
  then show ?thesis using assms by (auto simp: updateWanted_def Let_def split: if_splits)
next
  case True
  then obtain window where win: "ps_updateWindow (p_spec profile) = Some window" by blast
  obtain now w1 where n: "askEnv (timeNow S) w = (now, w1)" by force
  obtain now2 w2 where n2: "askEnv (timeNow S) w1 = (now2, w2)" by force
  have e: "ext (confined A) w w1" "ext (confined A) w w2"
    using ext_askEnv [OF n] ext_askEnv [OF n2] ext_trans by blast+
  have ev: "ext (confined A) w (emit x y z w1)" for x y z
    using e(1) ext_emit [of "confined A" x y z w1] ext_trans by fastforce
  show ?thesis
  proof (cases "withinRebootWindow G now (Some window)")
    case (Inl err)
    then show ?thesis using assms True win n ev by (auto simp: updateWanted_def Let_def)
  next
    case (Inr inside)
    then show ?thesis using assms True win n n2 e clock_nowW(1) [OF n] clock_nowW(2) [OF n n2]
      by (cases inside) (auto simp: updateWanted_def Let_def updateAllowed_def split: option.splits if_splits)
  qed
qed

lemma claimUpdateSlot_ext: "claimUpdateSlot S R ns w = (b, w') \<Longrightarrow> ext P w w'"
  by (rule ext_same) (auto simp: claimUpdateSlot_def askEnv_def Let_def split: prod.splits sum.splits if_splits)

lemma sendUpdate_ext:
  assumes "sendUpdate S (cachedConn S G addr) dev att sys w = (b, dev', w')"
  shows "ext (confined {''Shelly.Update''}) w w'"
proof -
  let ?P = "confined {''Shelly.Update''}"
  obtain r w1 where u: "Update (cachedConn S G addr) ''stable'' w = (r, w1)" by force
  have e1: "ext ?P w w1" using cached.act_ext(2) [OF u, of "{''Shelly.Update''}"] by simp
  have ev: "ext ?P w (emit x y z w1)" for x y z
    using e1 ext_emit [of ?P x y z w1] ext_trans by fastforce
  show ?thesis
  proof (cases r)
    case None
    then show ?thesis using assms u ev by (auto simp: sendUpdate_def Let_def)
  next
    case (Some err)
    then obtain x y z att' ok d where rec: "recordUpdateAttempt S dev att' (emit x y z w1) = (ok, d, w')"
      using assms u by (auto simp: sendUpdate_def Let_def split: prod.splits)
    show ?thesis using ext_trans [OF ev recordUpdateAttempt_ext [OF rec]] .
  qed
qed

text \<open>What a quiet beginning contains comes before every request that follows it.\<close>

lemma quiet_first:
  assumes "list_all (confined {}) pre" "x \<in> set pre" "i < length (pre @ us)" "isHttp ((pre @ us) ! i)"
  shows "\<exists>j < i. (pre @ us) ! j = x"
proof -
  have "length pre \<le> i"
  proof (rule ccontr)
    assume "\<not> length pre \<le> i"
    then have "(pre @ us) ! i \<in> set pre" by (simp add: nth_append)
    then show False using assms(1,4) by (auto simp: list_all_iff confined_none)
  qed
  moreover obtain j where "j < length pre" "pre ! j = x" using assms(2) by (metis in_set_conv_nth)
  ultimately show ?thesis by (intro exI [of _ j]) (simp add: nth_append)
qed

lemma quiet_no_requests:
  assumes "ext (confined {}) w w'"
  obtains xs where "w_trace w' = w_trace w @ xs" "list_all (confined A) xs" "\<And>i. i < length xs \<Longrightarrow> \<not> isHttp (xs ! i)"
proof -
  obtain xs where xs: "w_trace w' = w_trace w @ xs" "list_all (confined {}) xs" using assms by (auto simp: ext_def)
  moreover from xs(2) have "list_all (confined A) xs" using confined_quiet by (auto simp: list_all_iff)
  moreover have "\<not> isHttp (xs ! i)" if "i < length xs" for i
    using xs(2) nth_mem [OF that] confined_none by (auto simp: list_all_iff)
  ultimately show thesis using that by blast
qed

text \<open>
  C14: A firmware update is written ahead: every request \<open>updateIfAvailable\<close> sends is a
  \<open>Shelly.Update\<close>, and before the first of them the attempt (running version and target) has
  been stored on the device object by a status patch that succeeded. Nothing is sent unless the
  profile opted in and enforces, the status was read in this cycle, an update is pending, the
  update window is declared and open at the time the clock shows when the guards are checked,
  and an earlier attempt at the same version that was not refused has had its settling time.
\<close>

theorem update_recorded_before_sent:
  assumes "updateIfAvailable S G R (cachedConn S G addr) dev profile sys w = (sent, dev', w')"
  shows "\<exists>xs. w_trace w' = w_trace w @ xs \<and> list_all (confined {''Shelly.Update''}) xs \<and>
    (\<forall>i < length xs. isHttp (xs ! i) \<longrightarrow>
       updateAllowed G dev profile sys (clockNow S w) (clockNext S w) \<and>
       (\<exists>j < i. \<exists>base d att. xs ! j = StatusPatch base d True \<and> st_lastFirmwareUpdate (d_status d) = Some att \<and>
          fa_from att = st_firmware (d_status dev) \<and> fa_target att = sr_availableFirmware sys \<and> \<not> fa_refused att))"
proof -
  obtain b1 w1 where u: "updateWanted S G dev profile sys w = (b1, w1)" by force
  obtain b2 w2 where c: "claimUpdateSlot S R (m_namespace (d_meta dev)) w1 = (b2, w2)" by force
  obtain now w3 where n: "askEnv (timeNow S) w2 = (now, w3)" by force
  let ?att = "\<lparr>fa_time = now, fa_from = st_firmware (d_status dev), fa_target = sr_availableFirmware sys,
      fa_error = [], fa_refused = False\<rparr>"
  obtain b4 d4 w4 where r: "recordUpdateAttempt S dev ?att w3 = (b4, d4, w4)" by (metis prod_cases3)
  have quiet: "ext (confined {}) w w1" "ext (confined {}) w w3"
    using updateWanted_ext [OF u] claimUpdateSlot_ext [OF c] ext_askEnv [OF n] ext_trans by metis+
  obtain zs where zs: "w_trace w4 = w_trace w3 @ zs" "list_all (confined {}) zs"
      "b4 \<longrightarrow> (\<exists>base d. StatusPatch base d True \<in> set zs \<and> st_lastFirmwareUpdate (d_status d) = Some ?att)"
    using recordUpdateAttempt_trace [OF r] by blast
  show ?thesis
  proof (cases "b1 \<and> b2 \<and> b4")
    case False
    then have "w' = w1 \<or> w_trace w' = w_trace w3 \<or> w' = w4"
      using assms u c n r trace_askEnv [of "timeNow S" w2]
      by (auto simp: updateIfAvailable_def Let_def split: bool.splits)
    then have "ext (confined {}) w w'" using quiet ext_trans [OF quiet(2) extI [OF zs(1,2)]] by (auto simp: ext_def)
    then show ?thesis by (rule quiet_no_requests [where A = "{''Shelly.Update''}"]) blast
  next
    case True
    then have send: "sendUpdate S (cachedConn S G addr) d4 ?att sys w4 = (sent, dev', w')"
      using assms u c n r by (simp add: updateIfAvailable_def)
    obtain ys where ys: "w_trace w3 = w_trace w @ ys" "list_all (confined {}) ys" using quiet(2) by (auto simp: ext_def)
    obtain us where us: "w_trace w' = w_trace w4 @ us" "list_all (confined {''Shelly.Update''}) us"
      using sendUpdate_ext [OF send] by (auto simp: ext_def)
    obtain base d where pd: "StatusPatch base d True \<in> set (ys @ zs)" "st_lastFirmwareUpdate (d_status d) = Some ?att"
      using zs(3) True by auto
    have pre: "list_all (confined {}) (ys @ zs)" using ys(2) zs(2) by simp
    have "w_trace w' = w_trace w @ (ys @ zs) @ us" using ys(1) zs(1) us(1) by simp
    moreover have "list_all (confined {''Shelly.Update''}) ((ys @ zs) @ us)"
      using pre us(2) confined_quiet by (auto simp: list_all_iff)
    moreover have "updateAllowed G dev profile sys (clockNow S w) (clockNext S w)" using updateWanted_ext [OF u] True by blast
    ultimately show ?thesis using quiet_first [OF pre pd(1), of _ us] pd(2) by (intro exI [of _ "(ys @ zs) @ us"]) force
  qed
qed

definition updatingProfile :: ShellyProfile where
  "updatingProfile = (let p = exampleProfile ''plugs'' 1 in
     p\<lparr>p_spec := (p_spec p)\<lparr>ps_updateWhenAvailable := True,
       ps_updateWindow := Some \<lparr>rw_start = ''00:00'', rw_end = ''23:59'', rw_timeZone = []\<rparr>\<rparr>\<rparr>)"

definition pendingUpdate :: sysRead where
  "pendingUpdate = \<lparr>sr_restartRequired = False, sr_availableFirmware = ''2.0'', sr_fresh = True\<rparr>"

theorem update_recorded_before_sent_witness:
  "\<exists>sent dev' w' xs. updateIfAvailable quietOps exampleLib exampleReconciler
        (cachedConn quietOps exampleLib ''10.0.0.9'') exampleDevice updatingProfile pendingUpdate
        (deviceClient ''10.0.0.9'' [] (startWorld (seconds 1000))) = (sent, dev', w') \<and>
     w_trace w' = xs \<and> list_ex isHttp xs \<and> list_all (confined {''Shelly.Update''}) xs \<and>
     updateAllowed exampleLib exampleDevice updatingProfile pendingUpdate (seconds 1000) (seconds 1000)"
proof -
  let ?w = "deviceClient ''10.0.0.9'' [] (startWorld (seconds 1000))"
  let ?u = "updateIfAvailable quietOps exampleLib exampleReconciler
        (cachedConn quietOps exampleLib ''10.0.0.9'') exampleDevice updatingProfile pendingUpdate ?w"
  obtain sent dev' w' where u: "?u = (sent, dev', w')" by (metis prod_cases3)
  have w0: "w_trace ?w = []" by (simp add: deviceClient_def startWorld_def)
  have "list_ex (\<lambda>x. case x of Http _ \<Rightarrow> True | _ \<Rightarrow> False) (w_trace (snd (snd ?u)))" by code_simp
  moreover have "(case x of Http _ \<Rightarrow> True | _ \<Rightarrow> False) \<longleftrightarrow> isHttp x" for x by (cases x) auto
  ultimately have h: "list_ex isHttp (w_trace w')" unfolding u by simp
  then obtain i where i: "i < length (w_trace w')" "isHttp (w_trace w' ! i)" by (auto simp: list_ex_length)
  have c: "clockNow quietOps ?w = seconds 1000" "clockNext quietOps ?w = seconds 1000"
    by (simp_all add: clockNow_def clockNext_def deviceClient_def startWorld_def quietOps_def)
  show ?thesis
    using update_recorded_before_sent [OF u] w0 u h i unfolding c by auto
qed

end
