(* ===== verification/Networked.thy ===== *)
theory Networked
  imports Update Enforcement
begin

text \<open>
  The controller's cached client in front of the emulated device: HTTP, digest authentication,
  retries and the client cache in between. The stores that enforcement relies on
  (\<open>Config_Store\<close>, \<open>Schedule_Store\<close>) are interpreted a second time, on this connection.
\<close>

section \<open>A call keeps the credentials\<close>

lemma post_password:
  assumes "post S G c payload w = (r, c', w')"
  shows "cl_password c' = cl_password c"
proof -
  obtain h c1 w1 where h1: "authHeader S G c w = (h, c1, w1)" by (metis prod_cases3)
  obtain r2 w2 where s2: "sendRpc S c1 payload h w1 = (r2, w2)" by force
  have p1: "cl_password c1 = cl_password c" using authHeader_state [OF h1] by simp
  show ?thesis
  proof (cases "\<exists>resp c3. r2 = Inr resp \<and> rs_code resp = 401 \<and> cl_password c1 \<noteq> [] \<and>
      setChallenge c1 (rs_authenticate resp) = Inr c3")
    case False
    then have "c' = c1" using assms by (auto simp: post_def h1 s2 split: sum.splits if_splits)
    then show ?thesis using p1 by simp
  next
    case True
    then obtain resp c3 where c3: "r2 = Inr resp" "rs_code resp = 401" "cl_password c1 \<noteq> []"
        "setChallenge c1 (rs_authenticate resp) = Inr c3" by blast
    obtain h4 c4 w4 where h4: "authHeader S G c3 w2 = (h4, c4, w4)" by (metis prod_cases3)
    obtain r5 w5 where s5: "sendRpc S c4 payload h4 w4 = (r5, w5)" by force
    have "c' = c4" using assms c3 by (auto simp: post_def h1 s2 h4 s5)
    then show ?thesis using p1 setChallenge_state [OF c3(4)] authHeader_state [OF h4] by simp
  qed
qed

lemma postLoop_password:
  "postLoop k S G delay c payload w = (r, c', w') \<Longrightarrow> cl_password c' = cl_password c"
proof (induction k arbitrary: c w)
  case (0 c w)
  then show ?case
    by (auto simp: postLoop.simps [of 0] split: prod.splits sum.splits if_splits dest: post_password)
next
  case (Suc k c w)
  obtain r1 c1 w1 where p: "post S G c payload w = (r1, c1, w1)" by (metis prod_cases3)
  have "c' = c1 \<or> (\<exists>w2. postLoop k S G delay c1 payload w2 = (r, c', w'))"
    using Suc.prems by (auto simp: postLoop.simps [of "Suc k"] p split: prod.splits sum.splits if_splits option.splits)
  then show ?case using Suc.IH post_password [OF p] by metis
qed

lemma Call_password: "Call S G c rpc params w = (r, c', w') \<Longrightarrow> cl_password c' = cl_password c"
  by (auto simp: Call_def postRetrying_def Let_def split: prod.splits dest: postLoop_password)

lemma dispatch_identity:
  "dispatch i rpc params d = (r, d') \<Longrightarrow>
   fd_ID d' = fd_ID d \<and> fd_Gen d' = fd_Gen d \<and> (rpc \<noteq> ''Shelly.SetAuth'' \<longrightarrow> fd_ha1 d' = fd_ha1 d)"
  by (auto simp: dispatch_def apfst_def map_prod_def handleGetConfig_def handleSysGetStatus_def handleReboot_def
      handleUpdate_def handleScheduleList_def handleScheduleCreate_def handleScheduleUpdate_def
      handleScheduleDelete_def handleSetConfig_def handleSetAuth_def Let_def
      split: prod.splits if_splits sum.splits option.splits)

text \<open>Configuration calls leave the jobs alone, schedule calls the configuration.\<close>

lemma dispatch_jobs:
  "dispatch i rpc params d = (r, d') \<Longrightarrow> rpc \<notin> {''Schedule.Create'', ''Schedule.Update'', ''Schedule.Delete''} \<Longrightarrow>
   fd_schedules d' = fd_schedules d \<and> fd_nextSchedID d' = fd_nextSchedID d"
  by (auto simp: dispatch_def apfst_def map_prod_def handleGetConfig_def handleSysGetStatus_def handleReboot_def
      handleUpdate_def handleScheduleList_def handleSetAuth_def handleSetConfig_def Let_def
      split: prod.splits if_splits sum.splits option.splits)

definition configView :: "fakeDevice \<Rightarrow> jmap gomap \<times> bool" where
  "configView d = (fd_config d, cooperative d)"

lemma dispatch_config:
  "dispatch i rpc params d = (r, d') \<Longrightarrow>
   rpc \<in> {''Sys.GetStatus'', ''Schedule.List'', ''Schedule.Create'', ''Schedule.Update'', ''Schedule.Delete''} \<Longrightarrow> configView d' = configView d"
  by (auto simp: dispatch_def apfst_def map_prod_def handleScheduleList_def handleScheduleCreate_def
      handleScheduleUpdate_def handleScheduleDelete_def handleSysGetStatus_def configView_def cooperative_def Let_def
      split: prod.splits if_splits sum.splits option.splits)

section \<open>Reaching the device\<close>

text \<open>
  The network serves the emulated device, and the cache holds a client of the address for the
  password \<open>pw\<close>, which is the device's if it asks for one.
\<close>

definition reachable :: "fakeDevice sysops \<Rightarrow> golib \<Rightarrow> string \<Rightarrow> string \<Rightarrow> fakeDevice world \<Rightarrow> bool" where
  "reachable S G pw addr w \<longleftrightarrow>
     servesFake G S \<and> hexDigest G \<and> int64 (fd_Gen (w_env w)) \<and>
     (\<exists>c. map_of (w_clients w) addr = Some (pw, c) \<and> cl_host c = addr \<and> cl_password c = pw \<and>
        credentialsMatch G c (w_env w))"

lemma directCall_dispatch:
  "directCall h rpc params d = (r, d') \<Longrightarrow>
   \<exists>a. dispatch 1 rpc params (d\<lparr>fd_calls := fd_calls d @ [(rpc, params)]\<rparr>) = (a, d')"
  by (auto simp: directCall_def Let_def split: prod.splits)

lemma directCall_identity:
  "directCall h rpc params d = (r, d') \<Longrightarrow>
   fd_ID d' = fd_ID d \<and> fd_Gen d' = fd_Gen d \<and> (rpc \<noteq> ''Shelly.SetAuth'' \<longrightarrow> fd_ha1 d' = fd_ha1 d)"
  by (auto dest!: directCall_dispatch dispatch_identity)

lemma directCall_jobs:
  "directCall h rpc params d = (r, d') \<Longrightarrow> rpc \<notin> {''Schedule.Create'', ''Schedule.Update'', ''Schedule.Delete''} \<Longrightarrow>
   fakeJobs d' = fakeJobs d \<and> fakeRoom n d' = fakeRoom n d"
  by (drule directCall_dispatch, erule exE, drule dispatch_jobs) (auto simp: fakeJobs_def fakeRoom_def)

lemma directCall_config:
  "directCall h rpc params d = (r, d') \<Longrightarrow>
   rpc \<in> {''Sys.GetStatus'', ''Schedule.List'', ''Schedule.Create'', ''Schedule.Update'', ''Schedule.Delete''} \<Longrightarrow> configView d' = configView d"
  by (drule directCall_dispatch, erule exE, drule dispatch_config) (auto simp: configView_def cooperative_def)

lemma challenged_same:
  assumes "d = e \<or> d = challenged e"
  shows "fd_config d = fd_config e" "cooperative d = cooperative e" "fakeJobs d = fakeJobs e" "fakeRoom n d = fakeRoom n e"
    "configView d = configView e"
  using assms by (auto simp: cooperative_def fakeJobs_def fakeRoom_def configView_def)

text \<open>The part of the device a method does not touch.\<close>

definition framed :: "string \<Rightarrow> fakeDevice \<Rightarrow> fakeDevice \<Rightarrow> bool" where
  "framed rpc d d' \<longleftrightarrow>
     AuthEnabled d' = AuthEnabled d \<and>
     (rpc \<notin> {''Schedule.Create'', ''Schedule.Update'', ''Schedule.Delete''} \<longrightarrow>
        fakeJobs d' = fakeJobs d \<and> (\<forall>n. fakeRoom n d' = fakeRoom n d)) \<and>
     (rpc \<in> {''Sys.GetStatus'', ''Schedule.List'', ''Schedule.Create'', ''Schedule.Update'', ''Schedule.Delete''} \<longrightarrow> configView d' = configView d)"

text \<open>Through the cache, HTTP and authentication, a call is the device's own handler.\<close>

lemma cached_call:
  assumes "reachable S G pw addr w" "rpc \<noteq> ''Shelly.SetAuth''"
  shows "\<exists>d r w'. (d = w_env w \<or> d = challenged (w_env w)) \<and>
    cn_call (cachedConn S G addr) rpc params w = (r, w') \<and>
    cn_call (directConn addr) rpc params d = (r, w_env w') \<and> reachable S G pw addr w' \<and> framed rpc (w_env w) (w_env w')"
proof -
  obtain c where c: "map_of (w_clients w) addr = Some (pw, c)" "cl_host c = addr" "credentialsMatch G c (w_env w)"
      "cl_password c = pw"
    and s: "servesFake G S" "hexDigest G" "int64 (fd_Gen (w_env w))" using assms(1) by (auto simp: reachable_def)
  obtain r c1 w1 where C: "Call S G c rpc params w = (r, c1, w1)" by (metis prod_cases3)
  obtain d where d: "d = w_env w \<or> d = challenged (w_env w)" "(r, w_env w1) = directCall addr rpc params d"
    using Call_direct [OF s(1,2) c(3) C] c(2) by auto
  have same: "fd_ID (w_env w1) = fd_ID (w_env w)" "fd_Gen (w_env w1) = fd_Gen (w_env w)" "fd_ha1 (w_env w1) = fd_ha1 (w_env w)"
    using directCall_identity [OF d(2) [symmetric]] assms(2) d(1) by auto
  then have "credentialsMatch G c1 (w_env w1)"
    using c(3) Call_password [OF C] by (simp add: credentialsMatch_def)
  moreover have "cl_host c1 = addr" using Call_trace [OF C] c(2) by simp
  moreover have "framed rpc (w_env w) (w_env w1)"
    using directCall_jobs [OF d(2) [symmetric]] directCall_config [OF d(2) [symmetric]] challenged_same [OF d(1)] same(3)
    by (simp add: framed_def AuthEnabled_def)
  ultimately show ?thesis
    using d s c(1,4) same(2) C Call_password [OF C] by (auto simp: cachedConn_def cachedCall_def directConn_def reachable_def map_of_update)
qed

lemma cached_callDec:
  assumes "reachable S G pw addr w" "rpc \<noteq> ''Shelly.SetAuth''"
  shows "\<exists>d r w'. (d = w_env w \<or> d = challenged (w_env w)) \<and>
    callDec (cachedConn S G addr) rpc params dec w = (r, w') \<and>
    callDec (directConn addr) rpc params dec d = (r, w_env w') \<and> reachable S G pw addr w' \<and> framed rpc (w_env w) (w_env w')"
proof -
  from cached_call [OF assms, of params] obtain d r w' where d: "d = w_env w \<or> d = challenged (w_env w)"
    and "cn_call (cachedConn S G addr) rpc params w = (r, w')" "cn_call (directConn addr) rpc params d = (r, w_env w')"
      "reachable S G pw addr w'" "framed rpc (w_env w) (w_env w')" by blast
  then show ?thesis
    by (intro exI [of _ d]) (auto simp: callDec_def cachedConn_def directConn_def split: sum.splits)
qed

lemma cached_callVoid:
  assumes "reachable S G pw addr w" "rpc \<noteq> ''Shelly.SetAuth''"
  shows "\<exists>d r w'. (d = w_env w \<or> d = challenged (w_env w)) \<and>
    callVoid (cachedConn S G addr) rpc params w = (r, w') \<and>
    callVoid (directConn addr) rpc params d = (r, w_env w') \<and> reachable S G pw addr w' \<and> framed rpc (w_env w) (w_env w')"
proof -
  from cached_call [OF assms, of params] obtain d r w' where d: "d = w_env w \<or> d = challenged (w_env w)"
    and "cn_call (cachedConn S G addr) rpc params w = (r, w')" "cn_call (directConn addr) rpc params d = (r, w_env w')"
      "reachable S G pw addr w'" "framed rpc (w_env w) (w_env w')" by blast
  then show ?thesis by (intro exI [of _ d]) (auto simp: callVoid_def)
qed


section \<open>Switching authentication\<close>

text \<open>
  The probe reads the device's id without credentials; with it, \<open>SetAuth\<close> stores the digest of the
  password the client already has, or none. Either way the client stays able to authenticate.
\<close>

lemma Probe_fake:
  assumes "reachable S G pw addr w"
  shows "\<exists>info w'. Probe S addr w = (Inr info, w') \<and> di_id info = fd_ID (w_env w) \<and> w_env w' = w_env w \<and> w_clients w' = w_clients w"
proof -
  have "servesFake G S" "int64 (fd_Gen (w_env w))" using assms by (auto simp: reachable_def)
  then show ?thesis
    by (simp add: Probe_def httpW_def askEnv_def servesFake_def serve_def handleProbe_def okResponse_def deviceInfo_def
        decDeviceInfo_def Let_def orNull_def ebind_def split: if_splits)
qed

lemma directCall_SetAuth:
  assumes "directCall h ''Shelly.SetAuth'' (Some (JObj [(''user'', JStr ''admin''), (''realm'', JStr (fd_ID d)), (''ha1'', a)])) d = (r, d')"
    and "a = JNull \<and> x = [] \<or> a = JStr x \<and> x \<noteq> []"
  shows "isOk r \<and> d' = d\<lparr>fd_calls := fd_calls d', fd_ha1 := x\<rparr>"
  using assms
  by (auto simp: directCall_def dispatch_def handleSetAuth_def decParams_def decOpt_def ebind_def orNull_def isOk_def
      decodeResponse_def rpcResult_def int64_def Let_def)


section \<open>Both stores, over the network\<close>

definition deviceReady :: "fakeDevice sysops \<Rightarrow> golib \<Rightarrow> string \<Rightarrow> string \<Rightarrow> nat \<Rightarrow> fakeDevice world \<Rightarrow> bool" where
  "deviceReady S G pw addr n w \<longleftrightarrow> reachable S G pw addr w \<and> cooperative (w_env w) \<and> fakeRoom n (w_env w)"

lemma config_methods_framed:
  "framed (configMethod s) d d' \<Longrightarrow>
     fakeJobs d' = fakeJobs d \<and> fakeRoom n d' = fakeRoom n d \<and> AuthEnabled d' = AuthEnabled d"
  "configMethod s \<noteq> ''Shelly.SetAuth''"
  using setConfig_names [OF configMethod_suffix, of s] by (simp_all add: framed_def)

interpretation networked: config_store "cachedConn S G addr" "\<lambda>w. fd_config (w_env w)"
  "\<lambda>w. deviceReady S G pw addr n w \<and> fakeJobs (w_env w) = J \<and> AuthEnabled (w_env w) = A" for S G pw addr n J A
proof unfold_locales
  fix w s m i
  assume "deviceReady S G pw addr n w \<and> fakeJobs (w_env w) = J \<and> AuthEnabled (w_env w) = A"
  then have r: "reachable S G pw addr w" and c: "cooperative (w_env w)" "fakeRoom n (w_env w)" "fakeJobs (w_env w) = J"
      "AuthEnabled (w_env w) = A"
    by (simp_all add: deviceReady_def)
  show "\<exists>w'. GetConfig (cachedConn S G addr) w = (Inr (cfgJson (fd_config (w_env w))), w') \<and>
      fd_config (w_env w') = fd_config (w_env w) \<and> deviceReady S G pw addr n w' \<and> fakeJobs (w_env w') = J \<and> AuthEnabled (w_env w') = A"
  proof -
    from cached_callDec [OF r, of "''Shelly.GetConfig''" None decMap] obtain d x w' where
      d: "d = w_env w \<or> d = challenged (w_env w)" "GetConfig (cachedConn S G addr) w = (x, w')"
        "GetConfig (directConn addr) d = (x, w_env w')" "reachable S G pw addr w'"
        "framed ''Shelly.GetConfig'' (w_env w) (w_env w')" by (auto simp: GetConfig_def)
    then show ?thesis using fakeConfig.get_ok [of d addr] c challenged_same [OF d(1)]
      by (auto simp: deviceReady_def framed_def)
  qed
  show "\<exists>w' b. SetConfig (cachedConn S G addr) s (JObj m) w = (Inr b, w') \<and>
      (deviceReady S G pw addr n w' \<and> fakeJobs (w_env w') = J \<and> AuthEnabled (w_env w') = A) \<and>
      fd_config (w_env w') = AList.update s (merge (desiredSec (fd_config (w_env w)) s) m) (fd_config (w_env w))"
    if "namable s"
  proof -
    from cached_callDec [OF r config_methods_framed(2), of s "Some (JObj [(''config'', JObj m)])" setConfigResult]
    obtain d x w' where
      d: "d = w_env w \<or> d = challenged (w_env w)" "SetConfig (cachedConn S G addr) s (JObj m) w = (x, w')"
        "SetConfig (directConn addr) s (JObj m) d = (x, w_env w')" "reachable S G pw addr w'"
        "framed (configMethod s) (w_env w) (w_env w')" by (auto simp: SetConfig_def)
    then show ?thesis using fakeConfig.set_ok [of d s addr m] that c challenged_same [OF d(1)]
        config_methods_framed(1) [OF d(5)] by (auto simp: deviceReady_def)
  qed
  show "\<exists>w' b. SetSwitchConfig (cachedConn S G addr) i (JObj m) w = (Inr b, w') \<and>
      (deviceReady S G pw addr n w' \<and> fakeJobs (w_env w') = J \<and> AuthEnabled (w_env w') = A) \<and>
      fd_config (w_env w') = AList.update (''switch:'' @ itoa i)
        (merge (desiredSec (fd_config (w_env w)) (''switch:'' @ itoa i)) m) (fd_config (w_env w))"
    if "int64 i"
  proof -
    from cached_callDec [OF r, of "''Switch.SetConfig''" "Some (JObj [(''id'', jInt i), (''config'', JObj m)])" setConfigResult]
    obtain d x w' where
      d: "d = w_env w \<or> d = challenged (w_env w)" "SetSwitchConfig (cachedConn S G addr) i (JObj m) w = (x, w')"
        "SetSwitchConfig (directConn addr) i (JObj m) d = (x, w_env w')" "reachable S G pw addr w'"
        "framed ''Switch.SetConfig'' (w_env w) (w_env w')" by (auto simp: SetSwitchConfig_def)
    then show ?thesis using fakeConfig.switch_ok [of d i addr m] that c challenged_same [OF d(1)]
      by (auto simp: deviceReady_def framed_def)
  qed
qed

lemma framed_config:
  "framed rpc (w_env w) (w_env w') \<Longrightarrow>
   rpc \<in> {''Sys.GetStatus'', ''Schedule.List'', ''Schedule.Create'', ''Schedule.Update'', ''Schedule.Delete''} \<Longrightarrow>
   fd_config (w_env w') = fd_config (w_env w) \<and> cooperative (w_env w') = cooperative (w_env w) \<and>
   AuthEnabled (w_env w') = AuthEnabled (w_env w)"
  by (drule framed_def [THEN iffD1], frule conjunct1, drule conjunct2, drule conjunct2, drule mp, assumption)
    (simp add: configView_def)

interpretation networkedJobs: schedule_store "cachedConn S G addr" "\<lambda>w. fakeJobs (w_env w)"
  "\<lambda>n w. deviceReady S G pw addr n w \<and> fd_config (w_env w) = C \<and> AuthEnabled (w_env w) = A" for S G pw addr C A
proof unfold_locales
  fix n w
  show "deviceReady S G pw addr n w \<and> fd_config (w_env w) = C \<and> AuthEnabled (w_env w) = A \<Longrightarrow> distinct (map j_id (fakeJobs (w_env w)))"
    by (auto simp: deviceReady_def dest: fake.ids_distinct)
  show "deviceReady S G pw addr (Suc n) w \<and> fd_config (w_env w) = C \<and> AuthEnabled (w_env w) = A \<Longrightarrow> deviceReady S G pw addr n w \<and> fd_config (w_env w) = C \<and> AuthEnabled (w_env w) = A"
    by (auto simp: deviceReady_def dest: fake.room_less)
  assume "deviceReady S G pw addr n w \<and> fd_config (w_env w) = C \<and> AuthEnabled (w_env w) = A"
  then have r: "reachable S G pw addr w" and m: "fakeRoom n (w_env w)" "cooperative (w_env w)" "fd_config (w_env w) = C" "AuthEnabled (w_env w) = A"
    by (simp_all add: deviceReady_def)
  show "\<exists>w'. ListSchedules (cachedConn S G addr) w = (Inr (fakeJobs (w_env w)), w') \<and>
      fakeJobs (w_env w') = fakeJobs (w_env w) \<and> deviceReady S G pw addr n w' \<and> fd_config (w_env w') = C \<and> AuthEnabled (w_env w') = A"
  proof -
    from cached_callDec [OF r, of "''Schedule.List''" None decJobs] obtain d x w' where
      d: "d = w_env w \<or> d = challenged (w_env w)" "ListSchedules (cachedConn S G addr) w = (x, w')"
        "ListSchedules (directConn addr) d = (x, w_env w')" "reachable S G pw addr w'"
        "framed ''Schedule.List'' (w_env w) (w_env w')" by (auto simp: ListSchedules_def)
    then show ?thesis using fake.list_ok [of n d addr] m challenged_same [OF d(1)] framed_config [OF d(5)]
      by (auto simp: deviceReady_def)
  qed
  show "\<exists>w'. DeleteSchedule (cachedConn S G addr) i w = (None, w') \<and>
      fakeJobs (w_env w') = filter (\<lambda>j. j_id j \<noteq> i) (fakeJobs (w_env w)) \<and>
      deviceReady S G pw addr n w' \<and> fd_config (w_env w') = C \<and> AuthEnabled (w_env w') = A"
    if "i \<in> j_id ` set (fakeJobs (w_env w))" for i
  proof -
    from cached_callVoid [OF r, of "''Schedule.Delete''" "Some (JObj [(''id'', jInt i)])"] obtain d x w' where
      d: "d = w_env w \<or> d = challenged (w_env w)" "DeleteSchedule (cachedConn S G addr) i w = (x, w')"
        "DeleteSchedule (directConn addr) i d = (x, w_env w')" "reachable S G pw addr w'"
        "framed ''Schedule.Delete'' (w_env w) (w_env w')" by (auto simp: DeleteSchedule_def)
    then show ?thesis using fake.delete_ok [of n d i addr] that m challenged_same [OF d(1)] framed_config [OF d(5)]
      by (auto simp: deviceReady_def)
  qed
  show "\<exists>w'. UpdateSchedule (cachedConn S G addr) job w = (None, w') \<and>
      fakeJobs (w_env w') = replaceJob job (fakeJobs (w_env w)) \<and> deviceReady S G pw addr n w' \<and> fd_config (w_env w') = C \<and> AuthEnabled (w_env w') = A"
    if known: "j_id job \<in> j_id ` set (fakeJobs (w_env w))" and calls: "j_calls job \<noteq> []" for job
  proof -
    from cached_callVoid [OF r, of "''Schedule.Update''" "Some (JObj ((''id'', jInt (j_id job)) # jobParams job))"]
    obtain d x w' where
      d: "d = w_env w \<or> d = challenged (w_env w)" "UpdateSchedule (cachedConn S G addr) job w = (x, w')"
        "UpdateSchedule (directConn addr) job d = (x, w_env w')" "reachable S G pw addr w'"
        "framed ''Schedule.Update'' (w_env w) (w_env w')" using calls by (auto simp: UpdateSchedule_def)
    then show ?thesis using fake.update_ok [of n d job addr] known calls m challenged_same [OF d(1)] framed_config [OF d(5)]
      by (auto simp: deviceReady_def)
  qed
next
  fix n w and job :: ScheduleJob
  assume "deviceReady S G pw addr (Suc n) w \<and> fd_config (w_env w) = C \<and> AuthEnabled (w_env w) = A" and j: "j_calls job \<noteq> []"
  then have r: "reachable S G pw addr w" and m: "fakeRoom (Suc n) (w_env w)" "cooperative (w_env w)" "fd_config (w_env w) = C" "AuthEnabled (w_env w) = A"
    by (simp_all add: deviceReady_def)
  let ?dec = "\<lambda>v. ebind (decStruct v) (\<lambda>m. decInt (jfield m ''id''))"
  from cached_callDec [OF r, of "''Schedule.Create''" "Some (JObj (jobParams job))" ?dec] j
  obtain d x w' where
    d: "d = w_env w \<or> d = challenged (w_env w)" "CreateSchedule (cachedConn S G addr) job w = (x, w')"
      "CreateSchedule (directConn addr) job d = (x, w_env w')" "reachable S G pw addr w'"
      "framed ''Schedule.Create'' (w_env w) (w_env w')" by (auto simp: CreateSchedule_def)
  then show "\<exists>w' i. CreateSchedule (cachedConn S G addr) job w = (Inr i, w') \<and>
      fakeJobs (w_env w') = fakeJobs (w_env w) @ [job\<lparr>j_id := i\<rparr>] \<and> deviceReady S G pw addr n w' \<and> fd_config (w_env w') = C \<and> AuthEnabled (w_env w') = A"
    using fake.create_ok [of n d job addr] j m challenged_same [OF d(1)] framed_config [OF d(5)]
    by (auto simp: deviceReady_def)
qed

lemma networked_auth:
  assumes "deviceReady S G pw addr n w" "want \<longrightarrow> pw \<noteq> []"
  shows "\<exists>w'. applyAuth G (cachedConn S G addr) (Probe S addr) (Some want) pw w = (Inr False, w') \<and>
    deviceReady S G pw addr n w' \<and> AuthEnabled (w_env w') = want \<and>
    fakeJobs (w_env w') = fakeJobs (w_env w) \<and> fd_config (w_env w') = fd_config (w_env w)"
proof -
  have r: "reachable S G pw addr w" using assms(1) by (simp add: deviceReady_def)
  obtain info w1 where p: "Probe S addr w = (Inr info, w1)" "di_id info = fd_ID (w_env w)"
      "w_env w1 = w_env w" "w_clients w1 = w_clients w"
    using Probe_fake [OF r] by blast
  obtain c where c: "map_of (w_clients w1) addr = Some (pw, c)" "cl_host c = addr" "cl_password c = pw"
      "credentialsMatch G c (w_env w1)"
    and s: "servesFake G S" "hexDigest G" "int64 (fd_Gen (w_env w))"
    using r p(3,4) by (auto simp: reachable_def)
  let ?x = "if want then sha256hex G (''admin:'' @ fd_ID (w_env w) @ '':'' @ pw) else []"
  let ?a = "if (if want then pw else []) = [] then JNull else JStr (sha256hex G (''admin:'' @ fd_ID (w_env w) @ '':'' @ (if want then pw else [])))"
  let ?ps = "Some (JObj [(''user'', JStr ''admin''), (''realm'', JStr (fd_ID (w_env w))), (''ha1'', ?a)])"
  have x: "?a = JNull \<and> ?x = [] \<or> ?a = JStr ?x \<and> ?x \<noteq> []" "?x \<noteq> [] \<longleftrightarrow> want"
    using assms(2) s(2) by (auto simp: hexDigest_def)
  obtain res c2 w2 where C: "Call S G c ''Shelly.SetAuth'' ?ps w1 = (res, c2, w2)" by (metis prod_cases3)
  obtain d where d: "d = w_env w \<or> d = challenged (w_env w)" "directCall addr ''Shelly.SetAuth'' ?ps d = (res, w_env w2)"
    using Call_direct [OF s(1,2) c(4) C] unfolding c(2) p(3) by metis
  have "fd_ID d = fd_ID (w_env w)" using d(1) by auto
  with d(2) x(1) obtain cs where q: "isOk res" "w_env w2 = d\<lparr>fd_calls := cs, fd_ha1 := ?x\<rparr>"
    using directCall_SetAuth [of addr d ?a res "w_env w2" ?x] by metis
  let ?w2 = "w2\<lparr>w_clients := AList.update addr (pw, c2) (w_clients w2)\<rparr>"
  have a: "applyAuth G (cachedConn S G addr) (Probe S addr) (Some want) pw w = (Inr False, ?w2)"
    using assms(2) p(1,2) q(1) C c(1)
    by (cases res) (simp_all add: applyAuth_def SetAuth_def callVoid_def cachedConn_def cachedCall_def isOk_def)
  have e: "fd_ha1 (w_env w2) = ?x" "fd_ID (w_env w2) = fd_ID (w_env w)" "fd_Gen (w_env w2) = fd_Gen (w_env w)"
    "fd_config (w_env w2) = fd_config (w_env w)" "fakeJobs (w_env w2) = fakeJobs (w_env w)"
    "fakeRoom n (w_env w2) = fakeRoom n (w_env w)" "cooperative (w_env w2) = cooperative (w_env w)"
    using d(1) unfolding q(2) by (auto simp: fakeJobs_def fakeRoom_def cooperative_def)
  have "credentialsMatch G c2 (w_env w2)"
    using c(3,4) e(1,2) assms(2) p(3) Call_password [OF C] by (auto simp: credentialsMatch_def)
  then have "deviceReady S G pw addr n ?w2"
    using assms(1) e s c(2,3) Call_password [OF C] Call_trace [OF C]
    by (simp add: deviceReady_def reachable_def map_of_update)
  then show ?thesis using a e x(2) by (simp add: AuthEnabled_def)
qed

interpretation networkedDevice: device_store "cachedConn S G addr" "\<lambda>w. fd_config (w_env w)"
  "\<lambda>w. fakeJobs (w_env w)" "deviceReady S G pw addr" "\<lambda>w. AuthEnabled (w_env w)" G "Probe S addr" pw for S G pw addr
  by (rule device_store.intro)
    (rule networked.config_store_axioms, rule networkedJobs.schedule_store_axioms, rule networked_auth)

end
