(* ===== verification/Reconcile.thy ===== *)
theory Reconcile
  imports Update Apply Render
begin

text \<open>
  \<open>internal/controller/shellydevice_controller.go\<close>: the reconciliation of one device, from the
  guards that leave it alone to enforcement, the reboot and the status that is recorded. The
  functions thread the object (which patches overwrite with the server's answer) and the world.
\<close>

section \<open>Results and status\<close>

text \<open>
  \<open>ctrl.Result\<close>: no requeue, a requeue after a fixed time, or after a random time within ten
  percent of the given one (\<open>jitter\<close>).
\<close>

datatype ctrlResult = NoRequeue | RequeueAfter time | RequeueJittered time

definition jitter :: "reconciler \<Rightarrow> ctrlResult" where
  "jitter R = RequeueJittered (if rc_interval R \<le> 0 then minutes 5 else rc_interval R)"

type_synonym outcome = "go_error + ctrlResult"

definition withWarnings :: "string \<Rightarrow> string list \<Rightarrow> string" where
  "withWarnings msg warns =
     (if warns = [] then msg else msg @ '' (warnings: '' @ joinStrings warns ''; '' @ '')'')"

definition authEnableOf :: "ShellyProfile \<Rightarrow> bool option" where
  "authEnableOf p = (case pc_auth (ps_config (p_spec p)) of None \<Rightarrow> None | Some a \<Rightarrow> auth_enable a)"

definition appendAuthFinding :: "ShellyProfile \<Rightarrow> Finding list \<Rightarrow> bool \<Rightarrow> Finding list" where
  "appendAuthFinding profile fs authNow =
     (case authEnableOf profile of
        None \<Rightarrow> fs
      | Some e \<Rightarrow>
          if e \<noteq> authNow
          then fs @ [\<lparr>f_section = sectionAuth, f_path = ''enable'', f_want = JBool e, f_have = JBool authNow\<rparr>]
          else fs)"

definition appendProfileWarnings :: "ShellyProfile \<Rightarrow> string \<Rightarrow> string list \<Rightarrow> string list" where
  "appendProfileWarnings profile desiredName warns =
     (let cfg = ps_config (p_spec profile);
          sta = Option.bind (pc_wifi cfg) wifi_sta
      in warns
         @ (case pc_name cfg of
              Some n \<Rightarrow> if name_managed n \<and> desiredName = []
                then [''name managed but unresolvable (no displayName or name-map entry)''] else []
            | None \<Rightarrow> [])
         @ (case (pc_wifi cfg, sta) of
              (Some w, Some s) \<Rightarrow> if wn_ssid s \<noteq> [] \<and> wifi_sta1 w = None
                then [''wifi.sta is managed without a wifi.sta1 fallback; a wrong network can strand devices''] else []
            | _ \<Rightarrow> [])
         @ (case sta of
              Some s \<Rightarrow> if wn_enable s = Some False
                then [''wifi.sta is declared disabled; a device without another enabled network will be stranded''] else []
            | None \<Rightarrow> []))"

text \<open>
  \<open>prev\<close> is a pointer into the slice of conditions, and \<open>meta.SetStatusCondition\<close> updates the
  fields of an existing condition in place: the comparison that decides about the event reads
  the condition that was just set.
\<close>

definition finish :: "'e sysops \<Rightarrow> k8slib \<Rightarrow> reconciler \<Rightarrow> ShellyDevice \<Rightarrow> ConditionStatus \<Rightarrow> string \<Rightarrow> string
    \<Rightarrow> Finding list \<Rightarrow> string \<Rightarrow> 'e world \<Rightarrow> outcome \<times> 'e world" where
  "finish S K R dev status reason message findings matchedProfile w =
     (let prev = findStatusCondition K (st_conditions (d_status dev)) ConditionInSync;
          base = dev;
          conds = setStatusCondition K (st_conditions (d_status dev))
               \<lparr>c_type = ConditionInSync, c_status = status, c_reason = reason, c_message = message,
                c_observedGeneration = m_generation (d_meta dev)\<rparr>;
          dev = dev\<lparr>d_status := (d_status dev)\<lparr>
             st_matchedProfile := matchedProfile,
             st_driftedSections := Sections findings,
             st_conditions := conds\<rparr>\<rparr>
      in case patchStatusW S base dev w of
           (Inl err, w) \<Rightarrow> (Inl err, w)
         | (Inr _, w) \<Rightarrow>
             (let changed = (case prev of
                    None \<Rightarrow> True
                  | Some _ \<Rightarrow>
                      (case findStatusCondition K conds ConditionInSync of
                         None \<Rightarrow> False
                       | Some c \<Rightarrow> c_status c \<noteq> status \<or> c_reason c \<noteq> reason));
                  etype = (if status = ConditionFalse then EventTypeWarning else EventTypeNormal)
              in (Inr (jitter R), if changed then emit etype reason message w else w)))"

section \<open>Registry stamping\<close>

definition registryOwnedLabels :: "string gomap \<Rightarrow> string list" where
  "registryOwnedLabels labels =
     [LabelRoom, LabelAppliance] @ filter (\<lambda>k. hasPrefix k LabelRegistryPrefix) (map fst labels)"

definition addRegistryLabel :: "k8slib \<Rightarrow> string gomap \<Rightarrow> string \<times> string \<Rightarrow> string gomap" where
  "addRegistryLabel K want kv =
     (let key = LabelRegistryPrefix @ fst kv
      in if \<not> isQualifiedName K key then want else AList.update key (SanitizeLabel (snd kv)) want)"

definition wantedLabels :: "k8slib \<Rightarrow> RegistryEntry \<Rightarrow> string gomap" where
  "wantedLabels K entry =
     foldl (addRegistryLabel K)
       ((if re_room entry \<noteq> [] then [(LabelRoom, SanitizeLabel (re_room entry))] else [])
        @ (if re_type entry \<noteq> [] then [(LabelAppliance, SanitizeLabel (re_type entry))] else []))
       (re_labels entry)"

definition wantedAnnotations :: "RegistryEntry \<Rightarrow> string gomap" where
  "wantedAnnotations entry = (if re_note entry \<noteq> [] then [(AnnotationNote, re_note entry)] else [])"

definition registryChanged :: "string gomap \<Rightarrow> string gomap \<Rightarrow> ObjectMeta \<Rightarrow> bool" where
  "registryChanged want wantAnn meta \<longleftrightarrow>
     list_ex (\<lambda>(k, v). mgetS (m_labels meta) k \<noteq> v) want \<or>
     list_ex (\<lambda>k. map_of want k = None \<and> map_of (m_labels meta) k \<noteq> None) (registryOwnedLabels (m_labels meta)) \<or>
     list_ex (\<lambda>(k, v). mgetS (m_annotations meta) k \<noteq> v) wantAnn \<or>
     (map_of wantAnn AnnotationNote = None \<and> map_of (m_annotations meta) AnnotationNote \<noteq> None)"

definition stampedMeta :: "string gomap \<Rightarrow> string gomap \<Rightarrow> ObjectMeta \<Rightarrow> ObjectMeta" where
  "stampedMeta want wantAnn meta =
     (let labels = mapsCopy (m_labels meta) want;
          labels = foldl (\<lambda>ls k. if map_of want k = None then AList.delete k ls else ls) labels
                     (registryOwnedLabels labels);
          anns = mapsCopy (m_annotations meta) wantAnn;
          anns = (if map_of wantAnn AnnotationNote = None then AList.delete AnnotationNote anns else anns)
      in meta\<lparr>m_labels := labels, m_annotations := anns\<rparr>)"

definition stampRegistry :: "'e sysops \<Rightarrow> golib \<Rightarrow> k8slib \<Rightarrow> reconciler \<Rightarrow> ShellyDevice \<Rightarrow> 'e world
    \<Rightarrow> go_error option \<times> ShellyDevice \<times> 'e world" where
  "stampRegistry S G K R dev w =
     (case ResolveRegistry S G dev (rc_registryName R) w of
        (Inl err, w) \<Rightarrow> (Some (ErrWrap ''reading registry: '' err), dev, w)
      | (Inr entry, w) \<Rightarrow>
          (let want = wantedLabels K entry; wantAnn = wantedAnnotations entry
           in if \<not> registryChanged want wantAnn (d_meta dev) then (None, dev, w)
              else
                (let base = dev; dev = dev\<lparr>d_meta := stampedMeta want wantAnn (d_meta dev)\<rparr>
                 in case patchObjectW S base dev w of
                      (Inr stored, w) \<Rightarrow> (None, stored, w)
                    | (Inl err, w) \<Rightarrow>
                        if isConflict err then (None, dev, w)
                        else (Some (ErrWrap ''stamping registry labels: '' err), dev, w))))"

section \<open>System status and reboot\<close>

definition stampSysStatus :: "'e sysops \<Rightarrow> 'e world conn \<Rightarrow> ShellyDevice \<Rightarrow> 'e world
    \<Rightarrow> sysRead \<times> ShellyDevice \<times> 'e world" where
  "stampSysStatus S cn dev w =
     (case GetSysStatus cn w of
        (Inl _, w) \<Rightarrow> (\<lparr>sr_restartRequired = False, sr_availableFirmware = [], sr_fresh = False\<rparr>, dev, w)
      | (Inr st, w) \<Rightarrow>
          (let wantFW = (case sys_stable st of None \<Rightarrow> [] | Some v \<Rightarrow> v);
               read = \<lparr>sr_restartRequired = sys_restartRequired st, sr_availableFirmware = wantFW, sr_fresh = True\<rparr>;
               s = d_status dev
           in if st_availableFirmware s = wantFW \<and> st_restartRequired s = sys_restartRequired st
              then (read, dev, w)
              else
                (let base = dev;
                     dev = dev\<lparr>d_status := s\<lparr>st_availableFirmware := wantFW,
                               st_restartRequired := sys_restartRequired st\<rparr>\<rparr>
                 in case patchStatusW S base dev w of
                      (Inr stored, w) \<Rightarrow> (read, stored, w)
                    | (Inl _, w) \<Rightarrow>
                        (read, dev\<lparr>d_status := (d_status dev)\<lparr>
                           st_availableFirmware := st_availableFirmware (d_status base),
                           st_restartRequired := st_restartRequired (d_status base)\<rparr>\<rparr>, w))))"

definition rebootIfRequested :: "'e sysops \<Rightarrow> golib \<Rightarrow> 'e world conn \<Rightarrow> ShellyDevice \<Rightarrow> ShellyProfile \<Rightarrow> bool \<Rightarrow> bool
    \<Rightarrow> 'e world \<Rightarrow> ShellyDevice \<times> 'e world" where
  "rebootIfRequested S G cn dev profile restartRequired sysStatusFresh w =
     (let spec = p_spec profile
      in if \<not> ps_rebootWhenRequired spec \<or> ps_mode spec \<noteq> ModeEnforce then (dev, w)
         else if \<not> sysStatusFresh \<or> \<not> restartRequired then (dev, w)
         else
           (let (now, w) = nowW S w
            in case withinRebootWindow G now (ps_rebootWindow spec) of
                 Inl err \<Rightarrow>
                   (dev, emit EventTypeWarning ''RebootWindowInvalid'' (''not rebooting: '' @ errText err) w)
               | Inr False \<Rightarrow> (dev, w)
               | Inr True \<Rightarrow>
                   (case Reboot cn w of
                      (Some err, w) \<Rightarrow>
                        (dev, emit EventTypeWarning ''RebootFailed''
                           (''reboot requested but the call did not complete cleanly: '' @ errText err) w)
                    | (None, w) \<Rightarrow>
                        (let w = emit EventTypeNormal ''Rebooted''
                               ''rebooted to apply a setting the device reported as needing a restart'' w;
                             base = dev;
                             dev = dev\<lparr>d_status := (d_status dev)\<lparr>st_restartRequired := False\<rparr>\<rparr>
                         in case patchStatusW S base dev w of
                              (Inr stored, w) \<Rightarrow> (stored, w)
                            | (Inl _, w) \<Rightarrow>
                                (dev\<lparr>d_status := (d_status dev)\<lparr>st_restartRequired :=
                                   st_restartRequired (d_status base)\<rparr>\<rparr>, w)))))"

section \<open>Enforcement\<close>

text \<open>The two schedule-backed pseudo-sections appended to the findings, with the source's error prefixes.\<close>

definition recheckFindings :: "golib \<Rightarrow> 'w conn \<Rightarrow> ShellyProfile \<Rightarrow> Finding list \<Rightarrow> string \<Rightarrow> string \<Rightarrow> 'w
    \<Rightarrow> (go_error + Finding list) \<times> 'w" where
  "recheckFindings G cn profile findings fwPrefix schedPrefix w =
     (case appendFirmwareFindings cn profile findings w of
        (Inl err, w) \<Rightarrow> (Inl (ErrWrap fwPrefix err), w)
      | (Inr findings, w) \<Rightarrow>
          (case appendScheduleFindings G cn profile findings w of
             (Inl err, w) \<Rightarrow> (Inl (ErrWrap schedPrefix err), w)
           | (Inr findings, w) \<Rightarrow> (Inr findings, w)))"

record enforceResult =
  er_findings :: "Finding list"
  er_applied :: "string list"
  er_authNow :: bool
  er_error :: "go_error option"

definition enforceAndRecheck :: "'e sysops \<Rightarrow> golib \<Rightarrow> 'e world conn \<Rightarrow> ShellyDevice \<Rightarrow> ShellyProfile \<Rightarrow> jmap gomap \<Rightarrow> string
    \<Rightarrow> string \<Rightarrow> WifiPasswords \<Rightarrow> Finding list \<Rightarrow> bool \<Rightarrow> 'e world \<Rightarrow> enforceResult \<times> 'e world" where
  "enforceAndRecheck S G cn dev profile desired desiredName password wifiPw findings authNow w =
     (let addr = st_address (d_status dev);
          (res, applyErr, w) = applyFindings G cn (Probe S addr) desired findings (authEnableOf profile)
             (firmwareEnableOf profile) password wifiPw profile w;
          w = (if ar_applied res \<noteq> []
               then emit EventTypeNormal ''DriftCorrected'' (''applied sections: '' @ joinStrings (ar_applied res) '', '') w
               else w);
          w = (if ar_restartRequired res
               then emit EventTypeNormal ''RestartRequired''
                      ''a configuration change requires a device restart to take effect'' w
               else w)
      in case applyErr of
           Some err \<Rightarrow>
             (\<lparr>er_findings = findings, er_applied = ar_applied res, er_authNow = authNow, er_error = Some err\<rparr>, w)
         | None \<Rightarrow>
             (let authNow = (if sectionAuth \<in> set (ar_applied res)
                             then (case authEnableOf profile of None \<Rightarrow> authNow | Some e \<Rightarrow> e) else authNow);
                  failed = (\<lambda>err. \<lparr>er_findings = [], er_applied = ar_applied res, er_authNow = authNow,
                                  er_error = Some (RecheckError err)\<rparr>);
                  w = deviceClient addr password w;
                  cn = cachedConn S G addr
              in case GetConfig cn w of
                   (Inl err, w) \<Rightarrow> (failed (ErrWrap ''re-checking after enforcement: '' err), w)
                 | (Inr actual, w) \<Rightarrow>
                     (case Diff (Render G (ps_config (p_spec profile)) desiredName actual) actual of
                        Inl err \<Rightarrow> (failed (ErrWrap ''parsing device config after enforcement: '' err), w)
                      | Inr findings \<Rightarrow>
                          (case recheckFindings G cn profile (appendAuthFinding profile findings authNow)
                                  ''re-checking schedule jobs after enforcement: ''
                                  ''re-checking schedule section jobs after enforcement: '' w of
                             (Inl err, w) \<Rightarrow> (failed err, w)
                           | (Inr findings, w) \<Rightarrow>
                               (\<lparr>er_findings = findings, er_applied = ar_applied res, er_authNow = authNow,
                                 er_error = None\<rparr>, w)))))"

text \<open>
  \<open>runEnforce\<close>: \<open>Inl\<close> is the early return of \<open>Reconcile\<close>, \<open>Inr\<close> the findings and the object to
  go on with.
\<close>

definition runEnforce :: "'e sysops \<Rightarrow> golib \<Rightarrow> k8slib \<Rightarrow> reconciler \<Rightarrow> 'e world conn \<Rightarrow> ShellyDevice \<Rightarrow> ShellyProfile \<Rightarrow> jmap gomap
    \<Rightarrow> string \<Rightarrow> string \<Rightarrow> WifiPasswords \<Rightarrow> Finding list \<Rightarrow> string list \<Rightarrow> 'e world
    \<Rightarrow> (outcome + Finding list \<times> ShellyDevice) \<times> 'e world" where
  "runEnforce S G K R cn dev profile desired desiredName password wifiPw findings warns w =
     (let name = profileName profile;
          stop = (\<lambda>dev status reason msg fs w.
             apfst Inl (finish S K R dev status reason (withWarnings msg warns) fs name w));
          damped = (case findStatusCondition K (st_conditions (d_status dev)) ConditionInSync of
               None \<Rightarrow> False
             | Some prev \<Rightarrow> c_reason prev = ReasonNotConverging \<and>
                 c_message prev = withWarnings (Summarize G findings) warns)
      in if damped
         then stop dev ConditionFalse ReasonNotConverging (Summarize G findings) findings w
         else
           (case enforceAndRecheck S G cn dev profile desired desiredName password wifiPw findings
                   (st_authEnabled (d_status dev)) w of
              (er, w) \<Rightarrow>
                (case er_error er of
                   Some err \<Rightarrow>
                     if errAs is_RecheckError err \<noteq> None then
                       (if sectionWifi \<in> set (er_applied er)
                        then stop dev ConditionUnknown ReasonWifiApplied
                               (''wifi configuration applied; device no longer reachable at '' @ st_address (d_status dev)
                                @ '' -- it may have moved networks; discovery will update the address when it reappears (ensure --discovery-cidrs covers the new subnet)'') [] w
                        else stop dev ConditionUnknown ReasonConfigFetchFailed (errText err) [] w)
                     else stop dev ConditionFalse ReasonApplyFailed
                            (''enforcing drifted config: '' @ errText err) (er_findings er) w
                 | None \<Rightarrow>
                     (let dev = dev\<lparr>d_status := (d_status dev)\<lparr>st_authEnabled := er_authNow er\<rparr>\<rparr>;
                          fs = er_findings er
                      in if list_ex (\<lambda>f. f_section f \<in> set (er_applied er)) fs
                         then stop dev ConditionFalse ReasonNotConverging (Summarize G fs) fs
                                (emit EventTypeWarning ''EnforcementNotConverging''
                                   ''device still reports drift in sections that were just written'' w)
                         else (Inr (fs, dev), w)))))"

section \<open>Reconcile\<close>

text \<open>The last steps: reboot if asked, then record the result of the drift check.\<close>

definition conclude :: "'e sysops \<Rightarrow> golib \<Rightarrow> k8slib \<Rightarrow> reconciler \<Rightarrow> 'e world conn \<Rightarrow> ShellyDevice \<Rightarrow> ShellyProfile \<Rightarrow> sysRead
    \<Rightarrow> Finding list \<Rightarrow> string list \<Rightarrow> 'e world \<Rightarrow> outcome \<times> 'e world" where
  "conclude S G K R cn dev profile sys findings warns w =
     (let name = profileName profile;
          (dev, w) = rebootIfRequested S G cn dev profile (sr_restartRequired sys) (sr_fresh sys) w
      in if findings = []
         then finish S K R dev ConditionTrue ReasonInSync
                (withWarnings (''configuration matches profile '' @ name) warns) [] name w
         else finish S K R dev ConditionFalse ReasonDrifted
                (withWarnings (Summarize G findings) warns) findings name w)"

text \<open>From the fetched configuration on: status, update, drift, enforcement.\<close>

definition checkDrift :: "'e sysops \<Rightarrow> golib \<Rightarrow> k8slib \<Rightarrow> reconciler \<Rightarrow> 'e world conn \<Rightarrow> ShellyDevice \<Rightarrow> ShellyProfile \<Rightarrow> string
    \<Rightarrow> string \<Rightarrow> WifiPasswords \<Rightarrow> json gomap \<Rightarrow> string list \<Rightarrow> 'e world \<Rightarrow> outcome \<times> 'e world" where
  "checkDrift S G K R cn dev profile desiredName password wifiPw actual warns w =
     (let name = profileName profile;
          (sys, dev, w) = stampSysStatus S cn dev w
      in case updateIfAvailable S G R cn dev profile sys w of
           (True, dev, w) \<Rightarrow> (Inr (RequeueAfter updateSettle), w)
         | (False, dev, w) \<Rightarrow>
             (let desired = Render G (ps_config (p_spec profile)) desiredName actual;
                  fetchFailed = (\<lambda>msg w. finish S K R dev ConditionUnknown ReasonConfigFetchFailed msg [] name w)
              in case Diff desired actual of
                   Inl err \<Rightarrow> fetchFailed (''parsing device config: '' @ errText err) w
                 | Inr findings \<Rightarrow>
                     (case recheckFindings G cn profile
                             (appendAuthFinding profile findings (st_authEnabled (d_status dev)))
                             ''fetching schedule jobs: '' ''fetching schedule jobs for schedule section: '' w of
                        (Inl err, w) \<Rightarrow> fetchFailed (errText err) w
                      | (Inr findings, w) \<Rightarrow>
                          if ps_mode (p_spec profile) = ModeEnforce \<and> findings \<noteq> [] \<and> \<not> ds_paused (d_spec dev)
                          then
                            (case runEnforce S G K R cn dev profile desired desiredName password wifiPw findings warns w of
                               (Inl out, w) \<Rightarrow> (out, w)
                             | (Inr (findings, dev), w) \<Rightarrow> conclude S G K R cn dev profile sys findings warns w)
                          else conclude S G K R cn dev profile sys findings warns w)))"

text \<open>What has to be resolved before the device is contacted; \<open>Inl\<close> is a reason and a message to record.\<close>

definition resolveInputs :: "'e sysops \<Rightarrow> golib \<Rightarrow> reconciler \<Rightarrow> ShellyDevice \<Rightarrow> ShellyProfile \<Rightarrow> 'e world
    \<Rightarrow> (string \<times> string + string \<times> WifiPasswords \<times> string) \<times> 'e world" where
  "resolveInputs S G R dev profile w =
     (let ns = m_namespace (d_meta dev); cfg = ps_config (p_spec profile)
      in case ResolvePassword S ns (pc_auth cfg) w of
           (Inl err, w) \<Rightarrow> (Inl (ReasonCredentialsError, errText err), w)
         | (Inr password, w) \<Rightarrow>
             (case ResolveWifiPasswords S ns (pc_wifi cfg) w of
                (Inl err, w) \<Rightarrow> (Inl (ReasonCredentialsError, errText err), w)
              | (Inr wifiPw, w) \<Rightarrow>
                  (case ResolveName S G dev (rc_nameMapName R) (rc_registryName R) w of
                     (Inl err, w) \<Rightarrow> (Inl (ReasonConfigFetchFailed, errText err), w)
                   | (Inr name, w) \<Rightarrow> (Inr (password, wifiPw, name), w))))"

definition authMessage :: "string \<Rightarrow> string" where
  "authMessage password =
     (if password = []
      then ''device requires auth and no password is configured (set spec.config.auth.passwordSecretRef)''
      else ''configured password rejected by device; restore the previous password in the Secret or factory-reset the device'')"

definition reconcileProfile :: "'e sysops \<Rightarrow> golib \<Rightarrow> k8slib \<Rightarrow> reconciler \<Rightarrow> ShellyDevice \<Rightarrow> ShellyProfile \<Rightarrow> string list
    \<Rightarrow> 'e world \<Rightarrow> outcome \<times> 'e world" where
  "reconcileProfile S G K R dev profile warns w =
     (let name = profileName profile;
          unknown = (\<lambda>dev reason msg w. finish S K R dev ConditionUnknown reason msg [] name w)
      in case resolveInputs S G R dev profile w of
           (Inl (reason, msg), w) \<Rightarrow> unknown dev reason msg w
         | (Inr (password, wifiPw, desiredName), w) \<Rightarrow>
             (let warns = appendProfileWarnings profile desiredName warns
              in case stampRegistry S G K R dev w of
                   (Some err, dev, w) \<Rightarrow> unknown dev ReasonConfigFetchFailed (errText err) w
                 | (None, dev, w) \<Rightarrow>
                     (let addr = st_address (d_status dev); w = deviceClient addr password w;
                          cn = cachedConn S G addr
                      in case GetConfig cn w of
                           (Inl err, w) \<Rightarrow>
                             if errAs is_AuthError err \<noteq> None
                             then unknown dev ReasonAuthRequired (authMessage password) w
                             else unknown dev ReasonConfigFetchFailed (''fetching device config: '' @ errText err) w
                         | (Inr actual, w) \<Rightarrow>
                             checkDrift S G K R cn dev profile desiredName password wifiPw actual warns w)))"

definition Reconcile :: "'e sysops \<Rightarrow> golib \<Rightarrow> k8slib \<Rightarrow> reconciler \<Rightarrow> string \<Rightarrow> string \<Rightarrow> 'e world \<Rightarrow> outcome \<times> 'e world" where
  "Reconcile S G K R namespace name w =
     (case askEnv (getDevice S namespace name) w of
        (Inl err, w) \<Rightarrow> (if isNotFound err then Inr NoRequeue else Inl err, w)
      | (Inr dev, w) \<Rightarrow>
          if ds_paused (d_spec dev)
          then finish S K R dev ConditionUnknown ReasonPaused ''reconciliation paused via spec.paused'' []
                 (st_matchedProfile (d_status dev)) w
          else if \<not> st_online (d_status dev)
          then finish S K R dev ConditionUnknown ReasonOffline ''device offline; skipping drift check'' []
                 (st_matchedProfile (d_status dev)) w
          else
            (let (now, w) = nowW S w; (inFlight, wait) = updateInFlight dev now
             in if inFlight then (Inr (RequeueAfter wait), w)
                else
                  (case askEnv (listProfiles S (m_namespace (d_meta dev))) w of
                     (Inl err, w) \<Rightarrow> (Inl err, w)
                   | (Inr profiles, w) \<Rightarrow>
                       (case MatchProfile K dev profiles of
                          (None, warns) \<Rightarrow>
                            (let ref = ds_profileRef (d_spec dev);
                                 (reason, msg) = (if ref \<noteq> []
                                   then (ReasonProfileNotFound, ''spec.profileRef '' @ quoted ref @ '' not found'')
                                   else (ReasonNoProfile, ''no ShellyProfile matches this device''));
                                 msg = (if warns \<noteq> [] then msg @ '' ('' @ joinStrings warns ''; '' @ '')'' else msg)
                             in finish S K R dev ConditionUnknown reason msg [] [] w)
                        | (Some profile, warns) \<Rightarrow> reconcileProfile S G K R dev profile warns w))))"

end
