(* ===== verification/Reconcile_Safety.thy ===== *)
theory Reconcile_Safety
  imports Reconcile
begin

text \<open>
  What a reconciliation may do: the effects of every step of \<open>Reconcile\<close>, the record that
  \<open>finish\<close> leaves, the guards of the physical actions, and what is never touched.
\<close>

section \<open>What finish records\<close>

text \<open>The object that \<open>finish\<close> patches.\<close>

definition finishedDev :: "k8slib \<Rightarrow> ShellyDevice \<Rightarrow> ConditionStatus \<Rightarrow> string \<Rightarrow> string \<Rightarrow> Finding list \<Rightarrow> string
    \<Rightarrow> ShellyDevice" where
  "finishedDev K dev status reason message findings matchedProfile =
     dev\<lparr>d_status := (d_status dev)\<lparr>
       st_matchedProfile := matchedProfile,
       st_driftedSections := Sections findings,
       st_conditions := setStatusCondition K (st_conditions (d_status dev))
         \<lparr>c_type = ConditionInSync, c_status = status, c_reason = reason, c_message = message,
          c_observedGeneration = m_generation (d_meta dev)\<rparr>\<rparr>\<rparr>"

lemma finishedDev_kept:
  "d_meta (finishedDev K dev st re ms fs mp) = d_meta dev" "d_spec (finishedDev K dev st re ms fs mp) = d_spec dev"
  "discoveryKept dev (finishedDev K dev st re ms fs mp)"
  by (simp_all add: finishedDev_def discoveryKept_def)

lemma finish_unfold:
  assumes "patchStatusW S dev (finishedDev K dev status reason message findings mp) w = (r, w1)"
  shows "finish S K R dev status reason message findings mp w =
    (case r of
       Inl err \<Rightarrow> (Inl err, w1)
     | Inr _ \<Rightarrow>
         (Inr (jitter R),
          if (case findStatusCondition K (st_conditions (d_status dev)) ConditionInSync of
                None \<Rightarrow> True
              | Some _ \<Rightarrow>
                  (case findStatusCondition K (st_conditions (d_status (finishedDev K dev status reason message findings mp)))
                          ConditionInSync of
                     None \<Rightarrow> False
                   | Some c \<Rightarrow> c_status c \<noteq> status \<or> c_reason c \<noteq> reason))
          then emit (if status = ConditionFalse then EventTypeWarning else EventTypeNormal) reason message w1
          else w1))"
  using assms unfolding finish_def finishedDev_def Let_def
  by (cases r) (auto split: option.splits)

lemma finish_ext:
  assumes "finish S K R dev status reason message findings mp w = (out, w')"
  shows "ext (confined A) w w'"
proof -
  obtain r w1 where p: "patchStatusW S dev (finishedDev K dev status reason message findings mp) w = (r, w1)" by force
  have e: "ext (confined A) w w1" by (rule ext_patchStatus [OF p]) (rule finishedDev_kept)+
  have "ext (confined A) w (emit x y z w1)" for x y z by (rule ext_trans [OF e ext_emit]) simp
  with e show ?thesis
    using assms unfolding finish_unfold [OF p] by (auto split: sum.splits if_splits)
qed

text \<open>What is recorded, and the event that may follow it: one when there was no InSync condition before.\<close>

lemma finish_trace:
  assumes "condition_laws K"
    and "finish S K R dev status reason message findings mp w = (Inr res, w')"
  shows "res = jitter R"
    and "w_trace w' = w_trace w @ [StatusPatch dev (finishedDev K dev status reason message findings mp) True] @
        (if findStatusCondition K (st_conditions (d_status dev)) ConditionInSync = None
         then [Event (if status = ConditionFalse then EventTypeWarning else EventTypeNormal) reason message] else [])"
    and "findStatusCondition K (st_conditions (d_status (finishedDev K dev status reason message findings mp))) ConditionInSync =
      Some \<lparr>c_type = ConditionInSync, c_status = status, c_reason = reason, c_message = message,
            c_observedGeneration = m_generation (d_meta dev)\<rparr>"
proof -
  let ?d = "finishedDev K dev status reason message findings mp"
  let ?c = "\<lparr>c_type = ConditionInSync, c_status = status, c_reason = reason, c_message = message,
            c_observedGeneration = m_generation (d_meta dev)\<rparr>"
  obtain r w1 where p: "patchStatusW S dev ?d w = (r, w1)" by force
  have t: "w_trace w1 = w_trace w @ [StatusPatch dev ?d (isOk r)]"
    using trace_patchStatusW [of S dev ?d w] p by simp
  have "findStatusCondition K (setStatusCondition K (st_conditions (d_status dev)) ?c) (c_type ?c) = Some ?c"
    using assms(1) unfolding condition_laws_def by blast
  then show find: "findStatusCondition K (st_conditions (d_status ?d)) ConditionInSync = Some ?c"
    by (simp add: finishedDev_def)
  have ok: "isOk r" and "res = jitter R"
    using assms(2) unfolding finish_unfold [OF p] by (auto simp: isOk_def split: sum.splits)
  have "w_trace w' = w_trace w1 @ (if findStatusCondition K (st_conditions (d_status dev)) ConditionInSync = None
         then [Event (if status = ConditionFalse then EventTypeWarning else EventTypeNormal) reason message] else [])"
    using assms(2) unfolding finish_unfold [OF p]
    by (auto simp: find split: sum.splits option.splits if_splits)
  then show "w_trace w' = w_trace w @ [StatusPatch dev ?d True] @
        (if findStatusCondition K (st_conditions (d_status dev)) ConditionInSync = None
         then [Event (if status = ConditionFalse then EventTypeWarning else EventTypeNormal) reason message] else [])"
    using t ok by simp
  show "res = jitter R" by fact
qed

text \<open>
  The pointer into the conditions at work: a device that had an InSync condition gets no event,
  also when its status or reason changed.
\<close>

lemma finish_transition_silent:
  assumes "condition_laws K" "finish S K R dev status reason message findings mp w = (Inr res, w')"
    and "findStatusCondition K (st_conditions (d_status dev)) ConditionInSync = Some prev"
  shows "\<exists>d. w_trace w' = w_trace w @ [StatusPatch dev d True]"
  using finish_trace(2) [OF assms(1,2)] assms(3) by simp

text \<open>
  C17: A status recorded by \<open>finish\<close> is complete and minimal. The patch that succeeds carries the
  InSync condition with the given status, reason and message, the drifted sections and the
  matched profile, and leaves every other field of the object it was given as it was; the next
  check is scheduled. After the patch there is at most one event, of the recorded reason and
  message, a warning exactly for status False: there is one with the first InSync condition of a
  device, and none when neither status nor reason changed.
\<close>

theorem finish_records:
  assumes "condition_laws K"
    and "finish S K R dev status reason message findings mp w = (Inr res, w')"
  shows "\<exists>d evs. w_trace w' = w_trace w @ StatusPatch dev d True # evs \<and> res = jitter R \<and>
    findStatusCondition K (st_conditions (d_status d)) ConditionInSync =
      Some \<lparr>c_type = ConditionInSync, c_status = status, c_reason = reason, c_message = message,
            c_observedGeneration = m_generation (d_meta dev)\<rparr> \<and>
    st_driftedSections (d_status d) = Sections findings \<and> st_matchedProfile (d_status d) = mp \<and>
    d_meta d = d_meta dev \<and> d_spec d = d_spec dev \<and>
    (d_status d)\<lparr>st_matchedProfile := [], st_driftedSections := [], st_conditions := []\<rparr> =
      (d_status dev)\<lparr>st_matchedProfile := [], st_driftedSections := [], st_conditions := []\<rparr> \<and>
    (evs = [] \<or> evs = [Event (if status = ConditionFalse then EventTypeWarning else EventTypeNormal) reason message]) \<and>
    (case findStatusCondition K (st_conditions (d_status dev)) ConditionInSync of
       None \<Rightarrow> evs \<noteq> []
     | Some prev \<Rightarrow> c_status prev = status \<and> c_reason prev = reason \<longrightarrow> evs = [])"
  unfolding finish_trace(1,2) [OF assms]
  by (intro exI [of _ "finishedDev K dev status reason message findings mp"] exI conjI)
    (simp, rule refl, rule finish_trace(3) [OF assms], auto simp: finishedDev_def split: option.splits)

theorem finish_records_witness:
  "\<exists>d. w_trace (snd (finish quietOps exampleK8s exampleReconciler exampleDevice ConditionTrue ReasonInSync
        ''ok'' [] ''plugs'' (startWorld 0))) =
      [StatusPatch exampleDevice d True, Event EventTypeNormal ReasonInSync ''ok'']"
proof -
  obtain out w' where f: "finish quietOps exampleK8s exampleReconciler exampleDevice ConditionTrue ReasonInSync
        ''ok'' [] ''plugs'' (startWorld 0) = (out, w')" by force
  then have "out = Inr (jitter exampleReconciler)"
    by (simp add: finish_def patchStatusW_def askEnv_def quietOps_def startWorld_def Let_def)
  with f have "finish quietOps exampleK8s exampleReconciler exampleDevice ConditionTrue ReasonInSync
        ''ok'' [] ''plugs'' (startWorld 0) = (Inr (jitter exampleReconciler), w')" by simp
  from finish_records [OF condition_laws_example this] f
  show ?thesis by (auto simp: startWorld_def exampleDevice_def exampleStatus_def exampleK8s_def)
qed

section \<open>Registry metadata\<close>

definition registryLabels :: "string gomap \<Rightarrow> bool" where
  "registryLabels want \<longleftrightarrow> distinct (map fst want) \<and> (\<forall>k \<in> fst ` set want. registryKey k)"

lemma registryLabels_add:
  assumes "registryLabels want"
  shows "registryLabels (addRegistryLabel K want kv)"
proof -
  define key where "key = LabelRegistryPrefix @ fst kv"
  have "registryKey key" using hasPrefix_append unfolding registryKey_def key_def by blast
  then have "registryLabels (AList.update key v want)" for v
    using assms by (simp add: registryLabels_def distinct_update dom_update)
  then show ?thesis using assms unfolding addRegistryLabel_def Let_def key_def [symmetric] by simp
qed

lemma wantedLabels_wf:
  "distinct (map fst (wantedLabels K entry))" "map_of (wantedLabels K entry) k \<noteq> None \<Longrightarrow> registryKey k"
proof -
  have "registryLabels want \<Longrightarrow> registryLabels (foldl (addRegistryLabel K) want ls)" for want ls
    by (induction ls arbitrary: want) (simp_all add: registryLabels_add)
  moreover have "registryLabels ((if re_room entry \<noteq> [] then [(LabelRoom, SanitizeLabel (re_room entry))] else [])
        @ (if re_type entry \<noteq> [] then [(LabelAppliance, SanitizeLabel (re_type entry))] else []))"
    by (simp add: registryLabels_def registryKey_def)
  ultimately have wf: "registryLabels (wantedLabels K entry)" unfolding wantedLabels_def by blast
  then show "distinct (map fst (wantedLabels K entry))" by (simp add: registryLabels_def)
  show "map_of (wantedLabels K entry) k \<noteq> None \<Longrightarrow> registryKey k"
    using wf by (auto simp: registryLabels_def map_of_eq_None_iff)
qed

lemma map_of_drop_unwanted:
  "map_of (foldl (\<lambda>ls k. if map_of want k = None then AList.delete k ls else ls) ls ks) x =
     (if x \<in> set ks \<and> map_of want x = None then None else map_of ls x)"
  by (induction ks arbitrary: ls) (auto simp: AList.delete_conv')

text \<open>The metadata after stamping, key by key.\<close>

lemma stamped_labels:
  "map_of (m_labels (stampedMeta (wantedLabels K entry) wantAnn meta)) k =
     (if registryKey k then map_of (wantedLabels K entry) k else map_of (m_labels meta) k)"
proof -
  let ?want = "wantedLabels K entry"
  let ?ls = "mapsCopy (m_labels meta) ?want"
  have ls: "map_of ?ls = map_of (m_labels meta) ++ map_of ?want" by (simp add: map_rules)
  have own: "k \<in> set (registryOwnedLabels ?ls) \<longleftrightarrow>
      k = LabelRoom \<or> k = LabelAppliance \<or> hasPrefix k LabelRegistryPrefix \<and> map_of ?ls k \<noteq> None"
    by (auto simp: registryOwnedLabels_def map_of_eq_None_iff)
  show ?thesis
    using wantedLabels_wf(2) [of K entry k] own
    by (auto simp: stampedMeta_def Let_def map_of_drop_unwanted ls registryKey_def map_add_def split: option.splits)
qed

lemma stamped_annotations:
  "map_of (m_annotations (stampedMeta want (wantedAnnotations entry) meta)) k =
     (if k = AnnotationNote then map_of (wantedAnnotations entry) k else map_of (m_annotations meta) k)"
  by (auto simp: stampedMeta_def Let_def wantedAnnotations_def AList.delete_conv' map_rules map_add_def
      split: if_splits option.splits)

lemma stamped_foreign:
  "foreignKept meta (stampedMeta (wantedLabels K entry) (wantedAnnotations entry) meta)"
  by (simp add: foreignKept_def stamped_labels stamped_annotations)

lemma stamped_unchanged:
  "\<not> registryChanged (wantedLabels K entry) (wantedAnnotations entry)
       (stampedMeta (wantedLabels K entry) (wantedAnnotations entry) meta)"
proof -
  let ?want = "wantedLabels K entry" and ?ann = "wantedAnnotations entry"
  let ?m = "stampedMeta ?want ?ann meta"
  have "mgetS (m_labels ?m) k = v" if "(k, v) \<in> set ?want" for k v
  proof -
    have "map_of ?want k = Some v" using that wantedLabels_wf(1) by simp
    then show ?thesis using wantedLabels_wf(2) [of K entry k] by (simp add: mgetS_def stamped_labels)
  qed
  moreover have "map_of (m_labels ?m) k = None"
    if "k \<in> set (registryOwnedLabels (m_labels ?m))" "map_of ?want k = None" for k
  proof -
    have "registryKey k" using that(1) by (auto simp: registryOwnedLabels_def registryKey_def)
    then show ?thesis using that(2) by (simp add: stamped_labels)
  qed
  moreover have "mgetS (m_annotations ?m) k = v" if "(k, v) \<in> set ?ann" for k v
  proof -
    have "k = AnnotationNote" "map_of ?ann k = Some v" using that by (auto simp: wantedAnnotations_def split: if_splits)
    then show ?thesis by (simp add: mgetS_def stamped_annotations)
  qed
  moreover have "map_of ?ann AnnotationNote = None \<Longrightarrow> map_of (m_annotations ?m) AnnotationNote = None"
    by (simp add: stamped_annotations)
  ultimately show ?thesis unfolding registryChanged_def list_ex_iff by fastforce
qed

text \<open>
  C18: Stamping registry metadata is exact and idempotent: afterwards the labels under the
  registry's keys are exactly the ones the entry asks for, the note annotation likewise, every
  other label and annotation (discovery's model, app and generation among them) is as before,
  and a second look finds nothing to change.
\<close>

theorem stampedMeta_exact:
  "(\<forall>k. map_of (m_labels (stampedMeta (wantedLabels K entry) (wantedAnnotations entry) meta)) k =
       (if registryKey k then map_of (wantedLabels K entry) k else map_of (m_labels meta) k)) \<and>
   (\<forall>k. map_of (m_annotations (stampedMeta (wantedLabels K entry) (wantedAnnotations entry) meta)) k =
       (if k = AnnotationNote then map_of (wantedAnnotations entry) k else map_of (m_annotations meta) k)) \<and>
   \<not> registryKey LabelModel \<and> \<not> registryKey LabelApp \<and> \<not> registryKey LabelGen \<and>
   \<not> registryChanged (wantedLabels K entry) (wantedAnnotations entry)
       (stampedMeta (wantedLabels K entry) (wantedAnnotations entry) meta)"
  using stamped_labels stamped_annotations stamped_unchanged
  by (simp add: registryKey_def hasPrefix_def)

section \<open>The effects of each step\<close>

lemma resolveInputs_ext: "resolveInputs S G R dev profile w = (r, w') \<Longrightarrow> ext P w w'"
  by (rule ext_same) (auto simp: resolveInputs_def Let_def split: prod.splits sum.splits
      dest!: ResolvePassword_trace ResolveWifiPasswords_trace ResolveName_trace)

lemma deviceClient_ext: "ext P w (deviceClient addr pw w)"
  by (rule ext_same) (simp add: deviceClient_def split: option.splits prod.splits)

lemma stampRegistry_ext:
  assumes "stampRegistry S G K R dev w = (e, dev', w')"
  shows "ext (confined A) w w'"
proof -
  obtain r w1 where q: "ResolveRegistry S G dev (rc_registryName R) w = (r, w1)" by force
  have e: "ext (confined A) w w1" using ResolveRegistry_trace [OF q] by (rule ext_same)
  show ?thesis
  proof (cases r)
    case (Inl err)
    then show ?thesis using assms q e by (simp add: stampRegistry_def)
  next
    case (Inr entry)
    let ?d = "dev\<lparr>d_meta := stampedMeta (wantedLabels K entry) (wantedAnnotations entry) (d_meta dev)\<rparr>"
    obtain r2 w2 where p: "patchObjectW S dev ?d w1 = (r2, w2)" by force
    have "ext (confined A) w1 w2" by (rule ext_patchObject [OF p]) (simp_all add: stamped_foreign)
    then show ?thesis using assms q e Inr p ext_trans
      by (auto simp: stampRegistry_def Let_def split: if_splits sum.splits)
  qed
qed

context confined_conn
begin

lemma stampSysStatus_ext:
  assumes "stampSysStatus S cn dev w = (sys, dev', w')" "''Sys.GetStatus'' \<in> allowed"
  shows "ext (confined allowed) w w'"
proof -
  obtain r w1 where g: "GetSysStatus cn w = (r, w1)" by force
  have e: "ext (confined allowed) w w1" using read_ext(2) [OF g assms(2)] .
  show ?thesis
  proof (cases r)
    case (Inl err)
    then show ?thesis using assms(1) g e by (simp add: stampSysStatus_def)
  next
    case (Inr st)
    define d where "d = dev\<lparr>d_status := (d_status dev)\<lparr>
        st_availableFirmware := (case sys_stable st of None \<Rightarrow> [] | Some v \<Rightarrow> v),
        st_restartRequired := sys_restartRequired st\<rparr>\<rparr>"
    obtain r2 w2 where p: "patchStatusW S dev d w1 = (r2, w2)" by force
    have "ext (confined allowed) w1 w2"
      by (rule ext_patchStatus [OF p]) (simp_all add: d_def discoveryKept_def)
    then have "ext (confined allowed) w w2" using e ext_trans by blast
    moreover have "w' = w1 \<or> w' = w2"
      using assms(1) g Inr p by (auto simp: stampSysStatus_def Let_def d_def split: if_splits sum.splits)
    ultimately show ?thesis using e by blast
  qed
qed

lemma recheckFindings_ext:
  "recheckFindings G cn profile fs p1 p2 w = (r, w') \<Longrightarrow> ''Schedule.List'' \<in> allowed \<Longrightarrow> ext (confined allowed) w w'"
  by (auto simp: recheckFindings_def appendFirmwareFindings_def appendScheduleFindings_def
      split: prod.splits sum.splits option.splits dest!: read_ext(3) intro: ext_trans)

end

section \<open>Reboots\<close>

definition rebootAllowed :: "golib \<Rightarrow> ShellyProfile \<Rightarrow> bool \<Rightarrow> bool \<Rightarrow> time \<Rightarrow> bool" where
  "rebootAllowed G profile restartRequired fresh now \<longleftrightarrow>
     ps_rebootWhenRequired (p_spec profile) \<and> ps_mode (p_spec profile) = ModeEnforce \<and> fresh \<and> restartRequired \<and>
     withinRebootWindow G now (ps_rebootWindow (p_spec profile)) = Inr True"

context confined_conn
begin

lemma reboot_ext:
  assumes "rebootIfRequested S G cn dev profile rr fresh w = (dev', w')"
    and "rebootAllowed G profile rr fresh (clockNow S w) \<Longrightarrow> ''Shelly.Reboot'' \<in> allowed"
  shows "ext (confined allowed) w w'"
proof (cases "ps_rebootWhenRequired (p_spec profile) \<and> ps_mode (p_spec profile) = ModeEnforce \<and> fresh \<and> rr")
  case False
  then show ?thesis using assms(1) by (auto simp: rebootIfRequested_def Let_def split: if_splits)
next
  case guard: True
  obtain now w1 where n: "askEnv (timeNow S) w = (now, w1)" by force
  have e1: "ext (confined allowed) w w1" using ext_askEnv [OF n] .
  have ev: "ext (confined allowed) w (emit x y z w2)" if "ext (confined allowed) w w2" for x y z w2
    by (rule ext_trans [OF that ext_emit]) simp
  show ?thesis
  proof (cases "withinRebootWindow G now (ps_rebootWindow (p_spec profile)) = Inr True")
    case False
    then show ?thesis using assms(1) guard n e1 ev [OF e1]
      by (auto simp: rebootIfRequested_def Let_def split: sum.splits bool.splits)
  next
    case True
    then have mem: "''Shelly.Reboot'' \<in> allowed"
      using assms(2) guard clock_nowW(1) [OF n] by (auto simp: rebootAllowed_def)
    obtain r w2 where rb: "Reboot cn w1 = (r, w2)" by force
    have e2: "ext (confined allowed) w w2" using act_ext(1) [OF rb mem] e1 ext_trans by blast
    define d where "d = dev\<lparr>d_status := (d_status dev)\<lparr>st_restartRequired := False\<rparr>\<rparr>"
    have patched: "ext (confined allowed) w w4"
      if "patchStatusW S dev d (emit x y z w2) = (r3, w4)" for x y z r3 w4
    proof (rule ext_trans [OF ev [OF e2]])
      show "ext (confined allowed) (emit x y z w2) w4"
        by (rule ext_patchStatus [OF that]) (simp_all add: d_def discoveryKept_def)
    qed
    show ?thesis using assms(1) guard n True rb ev [OF e2]
      by (auto simp: rebootIfRequested_def Let_def simp flip: d_def split: option.splits prod.splits sum.splits
          dest: patched)
  qed
qed

end

text \<open>
  C16: A reboot is a guarded act: \<open>rebootIfRequested\<close> sends nothing but \<open>Shelly.Reboot\<close>, and it
  sends that only when the profile opted in and enforces, this cycle's status read succeeded and
  reported that a restart is required, and the reboot window (if any) is open at the time the
  clock shows when it is checked.
\<close>

theorem reboot_guarded:
  assumes "rebootIfRequested S G (cachedConn S G addr) dev profile restartRequired fresh w = (dev', w')"
  shows "\<exists>xs. w_trace w' = w_trace w @ xs \<and>
    list_all (confined (if rebootAllowed G profile restartRequired fresh (clockNow S w) then {''Shelly.Reboot''} else {})) xs"
  using cached.reboot_ext [OF assms,
      of "if rebootAllowed G profile restartRequired fresh (clockNow S w) then {''Shelly.Reboot''} else {}"]
  by (auto simp: ext_def)

definition rebootingProfile :: ShellyProfile where
  "rebootingProfile = (let p = exampleProfile ''plugs'' 1 in
     p\<lparr>p_spec := (p_spec p)\<lparr>ps_rebootWhenRequired := True\<rparr>\<rparr>)"

theorem reboot_guarded_witness:
  "\<exists>d w'. rebootIfRequested quietOps exampleLib (cachedConn quietOps exampleLib ''10.0.0.9'') exampleDevice
      rebootingProfile True True (deviceClient ''10.0.0.9'' [] (startWorld 0)) = (d, w') \<and>
     list_ex isHttp (w_trace w') \<and> list_all (confined {''Shelly.Reboot''}) (w_trace w')"
proof -
  let ?w = "deviceClient ''10.0.0.9'' [] (startWorld (0 :: time))"
  let ?u = "rebootIfRequested quietOps exampleLib (cachedConn quietOps exampleLib ''10.0.0.9'') exampleDevice
      rebootingProfile True True ?w"
  obtain d w' where u: "?u = (d, w')" by force
  have w0: "w_trace ?w = []" by (simp add: deviceClient_def startWorld_def)
  have "list_ex (\<lambda>x. case x of Http _ \<Rightarrow> True | _ \<Rightarrow> False) (w_trace (snd ?u))" by code_simp
  moreover have "(case x of Http _ \<Rightarrow> True | _ \<Rightarrow> False) \<longleftrightarrow> isHttp x" for x by (cases x) auto
  ultimately have http: "list_ex isHttp (w_trace w')" unfolding u by simp
  have "rebootAllowed exampleLib rebootingProfile True True (clockNow quietOps ?w)"
    by (simp add: rebootAllowed_def rebootingProfile_def exampleProfile_def withinRebootWindow_def Let_def)
  then show ?thesis using reboot_guarded [OF u] u w0 http by auto
qed

section \<open>The whole reconciliation\<close>

definition readMethods :: "string set" where
  "readMethods = {''Shelly.GetConfig'', ''Sys.GetStatus'', ''Schedule.List''}"

lemma updateIfAvailable_ext:
  assumes "updateIfAvailable S G R (cachedConn S G addr) dev profile sys w = (sent, dev', w')"
    and "ps_mode (p_spec profile) = ModeEnforce \<Longrightarrow> ''Shelly.Update'' \<in> A"
  shows "ext (confined A) w w'"
proof -
  obtain b1 w1 where u: "updateWanted S G dev profile sys w = (b1, w1)" by force
  have e1: "ext (confined A) w w1" using updateWanted_ext [OF u] by blast
  obtain b2 w2 where c: "claimUpdateSlot S R (m_namespace (d_meta dev)) w1 = (b2, w2)" by force
  obtain now w3 where n: "askEnv (timeNow S) w2 = (now, w3)" by force
  have e3: "ext (confined A) w w2" "ext (confined A) w w3"
    using e1 claimUpdateSlot_ext [OF c] ext_askEnv [OF n] ext_trans by metis+
  let ?att = "\<lparr>fa_time = now, fa_from = st_firmware (d_status dev), fa_target = sr_availableFirmware sys,
      fa_error = [], fa_refused = False\<rparr>"
  obtain b4 d4 w4 where r: "recordUpdateAttempt S dev ?att w3 = (b4, d4, w4)" by (metis prod_cases3)
  have e4: "ext (confined A) w w4" using e3(2) recordUpdateAttempt_ext [OF r] ext_trans by blast
  show ?thesis
  proof (cases "b1 \<and> b2 \<and> b4")
    case False
    then show ?thesis using assms(1) u c n r e1 e3 e4
      by (auto simp: updateIfAvailable_def Let_def split: bool.splits)
  next
    case True
    then have send: "sendUpdate S (cachedConn S G addr) d4 ?att sys w4 = (sent, dev', w')"
      using assms(1) u c n r by (simp add: updateIfAvailable_def)
    have "''Shelly.Update'' \<in> A" using updateWanted_ext [OF u, of A] True assms(2) by (auto simp: updateAllowed_def)
    then have "ext (confined A) w4 w'" using ext_confined_mono [OF sendUpdate_ext [OF send]] by simp
    then show ?thesis using e4 ext_trans by blast
  qed
qed

text \<open>A connection that may use every method: the contract enforcement needs.\<close>

locale open_conn = confined_conn cn UNIV for cn :: "'e world conn"
begin

lemma write_ext:
  "SetConfig cn sec cfg w = (r1, w') \<Longrightarrow> ext (confined UNIV) w w'"
  "SetSwitchConfig cn i cfg w = (r1, w') \<Longrightarrow> ext (confined UNIV) w w'"
  "SetAuth G cn ident pw w = (r2, w') \<Longrightarrow> ext (confined UNIV) w w'"
  "DeleteSchedule cn i w = (r2, w') \<Longrightarrow> ext (confined UNIV) w w'"
  "CreateSchedule cn job w = (r3, w') \<Longrightarrow> ext (confined UNIV) w w'"
  "UpdateSchedule cn job w = (r2, w') \<Longrightarrow> ext (confined UNIV) w w'"
  by (auto simp: SetConfig_def SetSwitchConfig_def SetAuth_def DeleteSchedule_def CreateSchedule_def
      UpdateSchedule_def callDec_ext callVoid_ext split: if_splits)

lemma deleteJobs_ext: "deleteJobs cn is w = (r, w') \<Longrightarrow> ext (confined UNIV) w w'"
proof (induction "is" arbitrary: w)
  case (Cons i js)
  then show ?case
    by (auto split: prod.splits option.splits dest!: write_ext(4)) (blast intro: ext_trans)
qed simp

lemma applyFirmware_ext: "applyFirmware cn want w = (r, w') \<Longrightarrow> ext (confined UNIV) w w'"
  by (auto simp: applyFirmware_def Let_def split: prod.splits sum.splits option.splits if_splits
      dest!: read_ext(3) deleteJobs_ext write_ext(5)) (blast intro: ext_trans)+

lemma runAction_ext: "runAction cn specs a w = (r, w') \<Longrightarrow> ext (confined UNIV) w w'"
  by (auto simp: runAction_def Let_def split: actionKind.splits prod.splits sum.splits option.splits if_splits
      dest!: write_ext(4-6))

lemma runActions_ext: "runActions cn specs as w = (r, w') \<Longrightarrow> ext (confined UNIV) w w'"
proof (induction "as" arbitrary: w)
  case (Cons a bs)
  then show ?case by (auto split: prod.splits option.splits dest!: runAction_ext) (blast intro: ext_trans)
qed simp

lemma applySchedule_ext: "applySchedule G cn profile w = (r, w') \<Longrightarrow> ext (confined UNIV) w w'"
  by (auto simp: applySchedule_def split: prod.splits sum.splits option.splits dest!: read_ext(3) runActions_ext)
    (blast intro: ext_trans)+

lemma applyAuth_ext:
  assumes "applyAuth G cn (Probe S host) en pw w = (r, w')"
  shows "ext (confined UNIV) w w'"
proof -
  obtain r1 w1 where p: "Probe S host w = (r1, w1)" by force
  have "ext (confined UNIV) w w1" using ext_Probe [OF p] by simp
  then show ?thesis using assms p
    by (auto simp: applyAuth_def Let_def split: if_splits sum.splits prod.splits option.splits
        dest!: write_ext(3) intro: ext_trans)
qed

lemma applySection_ext:
  "applySection G cn (Probe S host) desired ae fe pw wp profile sec w = (r, w') \<Longrightarrow> ext (confined UNIV) w w'"
  by (auto simp: applySection_def wrapErr_def voidErr_def split: if_splits option.splits prod.splits sum.splits
      dest!: applyAuth_ext applyFirmware_ext applySchedule_ext write_ext(1,2))

lemma applyFindings_ext:
  assumes "applyFindings G cn (Probe S host) desired fs ae fe pw wp profile w = (res, err, w')"
  shows "ext (confined UNIV) w w'"
proof -
  have "applyLoop (applySection G cn (Probe S host) desired ae fe pw wp profile) ss res0 w = (res, err, w') \<Longrightarrow>
      ext (confined UNIV) w w'" for ss res0
  proof (induction ss arbitrary: res0 w)
    case (Cons s ss)
    then show ?case by (auto split: prod.splits sum.splits dest!: applySection_ext) (blast intro: ext_trans)
  qed simp
  then show ?thesis using assms by (simp add: applyFindings_def)
qed

end

interpretation cachedAll: open_conn "cachedConn S G addr" for S :: "'e sysops" and G addr
  by unfold_locales

lemma enforceAndRecheck_ext:
  assumes "enforceAndRecheck S G (cachedConn S G addr) dev profile desired dn pw wp fs an w = (er, w')"
  shows "ext (confined UNIV) w w'"
proof -
  let ?addr = "st_address (d_status dev)"
  obtain res err w1 where a: "applyFindings G (cachedConn S G addr) (Probe S ?addr) desired fs (authEnableOf profile)
      (firmwareEnableOf profile) pw wp profile w = (res, err, w1)" by (metis prod_cases3)
  define w2 where "w2 = (if ar_applied res \<noteq> []
     then emit EventTypeNormal ''DriftCorrected'' (''applied sections: '' @ joinStrings (ar_applied res) '', '') w1 else w1)"
  define w3 where "w3 = (if ar_restartRequired res
     then emit EventTypeNormal ''RestartRequired'' ''a configuration change requires a device restart to take effect'' w2
     else w2)"
  have ev: "ext (confined UNIV) v (emit x y z v)" for x y z and v :: "'e world" by (rule ext_emit) simp
  have "ext (confined UNIV) w1 w2" "ext (confined UNIV) w2 w3" using ev by (auto simp: w2_def w3_def)
  with cachedAll.applyFindings_ext [OF a] have e3: "ext (confined UNIV) w w3"
    by (blast intro: ext_trans)
  obtain r4 w4 where g: "GetConfig (cachedConn S G ?addr) (deviceClient ?addr pw w3) = (r4, w4)" by force
  have e4: "ext (confined UNIV) w w4"
    using e3 deviceClient_ext [of "confined UNIV" w3 ?addr pw] cached.read_ext(1) [OF g, of UNIV]
    by (auto intro: ext_trans)
  have "w' = w3 \<or> w' = w4 \<or>
      (\<exists>fs p q r. recheckFindings G (cachedConn S G ?addr) profile fs p q w4 = (r, w'))"
    using assms unfolding enforceAndRecheck_def Let_def a prod.case w2_def [symmetric] w3_def [symmetric] g
    by (cases err; cases r4) (auto split: sum.splits prod.splits)
  then show ?thesis using e3 e4 cached.recheckFindings_ext [where A = UNIV] ext_trans by blast
qed

lemma runEnforce_ext:
  assumes "runEnforce S G K R (cachedConn S G addr) dev profile desired dn pw wp fs warns w = (r, w')"
  shows "ext (confined UNIV) w w'"
proof -
  obtain er w1 where e: "enforceAndRecheck S G (cachedConn S G addr) dev profile desired dn pw wp fs
      (st_authEnabled (d_status dev)) w = (er, w1)" by force
  have e1: "ext (confined UNIV) w w1" using enforceAndRecheck_ext [OF e] .
  have ev: "ext (confined UNIV) w (emit x y z w1)" for x y z
    by (rule ext_trans [OF e1 ext_emit]) simp
  have fin: "ext (confined UNIV) v (snd (finish S K R d st re ms f mp v))" for d st re ms f mp and v :: "'a world"
    by (rule finish_ext) (rule prod.collapse [symmetric])
  show ?thesis using assms e e1 ext_trans [OF e1 fin] ext_trans [OF ev fin] fin
    by (auto simp: runEnforce_def Let_def apfst_def map_prod_def split_beta split: if_splits option.splits)
qed

lemma conclude_ext:
  assumes "conclude S G K R (cachedConn S G addr) dev profile sys fs warns w = (out, w')"
    and "ps_mode (p_spec profile) = ModeEnforce \<Longrightarrow> A = UNIV"
  shows "ext (confined A) w w'"
proof -
  obtain d w1 where r: "rebootIfRequested S G (cachedConn S G addr) dev profile (sr_restartRequired sys) (sr_fresh sys) w
      = (d, w1)" by force
  have "ext (confined A) w w1"
    using cached.reboot_ext [OF r, of A] assms(2) by (auto simp: rebootAllowed_def)
  then show ?thesis using assms(1) r finish_ext ext_trans
    by (auto simp: conclude_def Let_def split: if_splits) blast+
qed

lemma finish_after:
  assumes "finish S K R d st re ms f mp v = (out, w')" "ext (confined A) w v"
  shows "ext (confined A) w w'"
  using ext_trans [OF assms(2) finish_ext [OF assms(1)]] .

text \<open>The last part of a drift check: the findings are enforced, where that is asked for, and concluded on.\<close>

lemma enforce_conclude_ext:
  assumes "(if ps_mode (p_spec profile) = ModeEnforce \<and> fs \<noteq> [] \<and> \<not> ds_paused (d_spec dev)
      then (case runEnforce S G K R (cachedConn S G addr) dev profile desired dn pw wp fs warns w of
              (Inl out, w) \<Rightarrow> (out, w)
            | (Inr (findings, dev), w) \<Rightarrow> conclude S G K R (cachedConn S G addr) dev profile sys findings warns w)
      else conclude S G K R (cachedConn S G addr) dev profile sys fs warns w) = (out, w')"
    and "ps_mode (p_spec profile) = ModeEnforce \<Longrightarrow> A = UNIV"
  shows "ext (confined A) w w'"
proof (cases "ps_mode (p_spec profile) = ModeEnforce \<and> fs \<noteq> [] \<and> \<not> ds_paused (d_spec dev)")
  case False
  then have "conclude S G K R (cachedConn S G addr) dev profile sys fs warns w = (out, w')" using assms(1) by auto
  then show ?thesis using assms(2) by (rule conclude_ext)
next
  case True
  obtain r w1 where rn: "runEnforce S G K R (cachedConn S G addr) dev profile desired dn pw wp fs warns w = (r, w1)"
    by force
  have e1: "ext (confined A) w w1" using runEnforce_ext [OF rn] assms(2) True by metis
  moreover have "ext (confined A) w1 w'"
    if "conclude S G K R (cachedConn S G addr) d profile sys f warns w1 = (out, w')" for d f
    using conclude_ext [OF that] assms(2) by blast
  ultimately show ?thesis using assms(1) True ext_trans [OF e1]
    by (auto simp: rn split: sum.splits)
qed

lemma checkDrift_ext:
  assumes "checkDrift S G K R (cachedConn S G addr) dev profile dn pw wp actual warns w = (out, w')"
    and "readMethods \<subseteq> A" "ps_mode (p_spec profile) = ModeEnforce \<Longrightarrow> A = UNIV"
  shows "ext (confined A) w w'"
proof -
  have reads: "''Sys.GetStatus'' \<in> A" "''Schedule.List'' \<in> A" using assms(2) by (auto simp: readMethods_def)
  obtain sys d1 w1 where st: "stampSysStatus S (cachedConn S G addr) dev w = (sys, d1, w1)" by (metis prod_cases3)
  have e1: "ext (confined A) w w1" using cached.stampSysStatus_ext [OF st reads(1)] .
  obtain sent d2 w2 where up: "updateIfAvailable S G R (cachedConn S G addr) d1 profile sys w1 = (sent, d2, w2)"
    by (metis prod_cases3)
  have e2: "ext (confined A) w w2"
    using ext_trans [OF e1 updateIfAvailable_ext [OF up]] assms(3) by auto
  let ?D = "Diff (Render G (ps_config (p_spec profile)) dn actual) actual"
  show ?thesis
  proof (cases "sent \<or> (\<exists>err. ?D = Inl err)")
    case True
    then show ?thesis using assms(1) st up e2 finish_after [OF _ e2]
      by (cases sent) (auto simp: checkDrift_def Let_def)
  next
    case False
    then obtain fs where fs: "\<not> sent" "?D = Inr fs" by (cases ?D) auto
    obtain r3 w3 where re: "recheckFindings G (cachedConn S G addr) profile
        (appendAuthFinding profile fs (st_authEnabled (d_status d2)))
        ''fetching schedule jobs: '' ''fetching schedule jobs for schedule section: '' w2 = (r3, w3)" by force
    have e3: "ext (confined A) w w3"
      using ext_trans [OF e2 cached.recheckFindings_ext [OF re reads(2)]] .
    show ?thesis
    proof (cases r3)
      case (Inl err)
      then show ?thesis using assms(1) finish_after [OF _ e3] by (simp add: checkDrift_def st up fs re)
    next
      case (Inr fs')
      then show ?thesis
        using assms(1) ext_trans [OF e3 enforce_conclude_ext [OF _ assms(3)]]
        by (simp only: checkDrift_def Let_def st up fs re prod.case sum.case bool.case)
    qed
  qed
qed

lemma reconcileProfile_ext:
  assumes "reconcileProfile S G K R dev profile warns w = (out, w')"
    and "readMethods \<subseteq> A" "ps_mode (p_spec profile) = ModeEnforce \<Longrightarrow> A = UNIV"
  shows "ext (confined A) w w'"
proof -
  obtain r1 w1 where r1: "resolveInputs S G R dev profile w = (r1, w1)" by force
  have e1: "ext (confined A) w w1" using resolveInputs_ext [OF r1] .
  show ?thesis
  proof (cases r1)
    case (Inl rm)
    then show ?thesis using assms(1) finish_after [OF _ e1] by (cases rm) (simp add: reconcileProfile_def r1)
  next
    case (Inr inputs)
    obtain pw wp dn where inp: "inputs = (pw, wp, dn)" by (metis prod_cases3)
    obtain err d2 w2 where s2: "stampRegistry S G K R dev w1 = (err, d2, w2)" by (metis prod_cases3)
    have e2: "ext (confined A) w w2" using ext_trans [OF e1 stampRegistry_ext [OF s2]] .
    let ?addr = "st_address (d_status d2)"
    obtain r3 w3 where g: "GetConfig (cachedConn S G ?addr) (deviceClient ?addr pw w2) = (r3, w3)" by force
    have "''Shelly.GetConfig'' \<in> A" using assms(2) by (auto simp: readMethods_def)
    from ext_trans [OF e2 ext_trans [OF deviceClient_ext cached.read_ext(1) [OF g this]]]
    have e3: "ext (confined A) w w3" .
    show ?thesis
    proof (cases "err = None \<and> isOk r3")
      case False
      then show ?thesis using assms(1) finish_after [OF _ e2] finish_after [OF _ e3]
        by (auto simp: reconcileProfile_def r1 Inr inp s2 g Let_def isOk_def split: option.splits sum.splits if_splits)
    next
      case True
      then obtain actual where ac: "err = None" "r3 = Inr actual" by (cases r3) (auto simp: isOk_def)
      have "checkDrift S G K R (cachedConn S G ?addr) d2 profile dn pw wp actual
          (appendProfileWarnings profile dn warns) w3 = (out, w')"
        using assms(1) by (simp add: reconcileProfile_def r1 Inr inp s2 g ac Let_def)
      from ext_trans [OF e3 checkDrift_ext [OF this assms(2,3)]] show ?thesis by simp
    qed
  qed
qed

lemma Reconcile_ext:
  assumes "Reconcile S G K R namespace name w = (out, w')" "readMethods \<subseteq> A"
    and "\<And>ns e ps e' p. listProfiles S ns e = (Inr ps, e') \<Longrightarrow> p \<in> set ps \<Longrightarrow> ps_mode (p_spec p) = ModeEnforce \<Longrightarrow> A = UNIV"
  shows "ext (confined A) w w'"
proof -
  obtain r1 w1 where g: "askEnv (getDevice S namespace name) w = (r1, w1)" by force
  have e1: "ext (confined A) w w1" using ext_askEnv [OF g] .
  show ?thesis
  proof (cases r1)
    case (Inl err)
    then show ?thesis using assms(1) e1 by (simp add: Reconcile_def g)
  next
    case (Inr dev)
    obtain now w2 where n: "askEnv (timeNow S) w1 = (now, w2)" by force
    obtain r3 w3 where l: "askEnv (listProfiles S (m_namespace (d_meta dev))) w2 = (r3, w3)" by force
    have e3: "ext (confined A) w w2" "ext (confined A) w w3"
      using e1 ext_askEnv [OF n] ext_askEnv [OF l] ext_trans by metis+
    show ?thesis
    proof (cases "ds_paused (d_spec dev) \<or> \<not> st_online (d_status dev) \<or> fst (updateInFlight dev now) \<or> \<not> isOk r3")
      case True
      then show ?thesis using assms(1) finish_after [OF _ e1] e3
        by (auto simp: Reconcile_def g Inr n l Let_def isOk_def split_beta split: if_splits sum.splits)
    next
      case False
      then obtain ps where ps: "r3 = Inr ps" by (cases r3) (auto simp: isOk_def)
      obtain mp warns where m: "MatchProfile K dev ps = (mp, warns)" by force
      show ?thesis
      proof (cases mp)
        case None
        then show ?thesis using assms(1) False finish_after [OF _ e3(2)]
          by (auto simp: Reconcile_def g Inr n l ps m Let_def split_beta split: if_splits)
      next
        case (Some p)
        obtain e' where le: "listProfiles S (m_namespace (d_meta dev)) (w_env w2) = (Inr ps, e')"
          using l ps by (auto simp: askEnv_def split: prod.splits)
        have "reconcileProfile S G K R dev p warns w3 = (out, w')"
          using assms(1) False by (auto simp: Reconcile_def g Inr n l ps m Some Let_def split_beta split: if_splits)
        from ext_trans [OF e3(2) reconcileProfile_ext [OF this assms(2)]] show ?thesis
          using assms(3) [OF le] MatchProfile_mem m Some by blast
      qed
    qed
  qed
qed

text \<open>
  C10: Observe mode only looks: where no listed profile is in enforce mode, a whole
  reconciliation, whatever the device and the API server answer, sends no request but
  \<open>Shelly.GetConfig\<close>, \<open>Sys.GetStatus\<close> and \<open>Schedule.List\<close>.
\<close>

theorem observe_only_reads:
  assumes "\<forall>ns e ps e'. listProfiles S ns e = (Inr ps, e') \<longrightarrow> (\<forall>p \<in> set ps. ps_mode (p_spec p) \<noteq> ModeEnforce)"
    and "Reconcile S G K R namespace name w = (out, w')"
  shows "\<exists>xs. w_trace w' = w_trace w @ xs \<and>
    list_all (confined {''Shelly.GetConfig'', ''Sys.GetStatus'', ''Schedule.List''}) xs"
  using Reconcile_ext [OF assms(2), of readMethods] assms(1) by (auto simp: ext_def readMethods_def)

text \<open>What a sweep learns from probing a device, but for the state of its authentication.\<close>

definition probedKept :: "ShellyDevice \<Rightarrow> ShellyDevice \<Rightarrow> bool" where
  "probedKept b d \<longleftrightarrow>
     (let s = d_status b; t = d_status d
      in st_address t = st_address s \<and> st_mac t = st_mac s \<and> st_model t = st_model s \<and> st_app t = st_app s \<and>
         st_gen t = st_gen s \<and> st_firmware t = st_firmware s \<and> st_deviceName t = st_deviceName s \<and>
         st_online t = st_online s \<and> st_lastSeen t = st_lastSeen s)"

lemma Reconcile_patches:
  assumes "Reconcile S G K R namespace name w = (out, w')"
  obtains xs where "w_trace w' = w_trace w @ xs"
    "list_all (\<lambda>x. case x of
        StatusPatch b d ok \<Rightarrow> d_meta d = d_meta b \<and> d_spec d = d_spec b \<and> discoveryKept b d
      | ObjectPatch b d ok \<Rightarrow> d_spec d = d_spec b \<and> d_status d = d_status b \<and> foreignKept (d_meta b) (d_meta d)
      | _ \<Rightarrow> True) xs"
proof -
  obtain xs where "w_trace w' = w_trace w @ xs" "list_all (confined UNIV) xs"
    using Reconcile_ext [OF assms, of UNIV] by (auto simp: ext_def)
  moreover have "case x of
        StatusPatch b d ok \<Rightarrow> d_meta d = d_meta b \<and> d_spec d = d_spec b \<and> discoveryKept b d
      | ObjectPatch b d ok \<Rightarrow> d_spec d = d_spec b \<and> d_status d = d_status b \<and> foreignKept (d_meta b) (d_meta d)
      | _ \<Rightarrow> True" if "confined UNIV x" for x
    using that by (cases x) (simp_all add: confined_def)
  ultimately show thesis using that [of xs] by (auto simp: list_all_iff)
qed

text \<open>
  \<open>runEnforce\<close> means to store the state of authentication that it has just switched, but no status
  patch of a reconciliation carries it: the base of the patch is taken after the field is set.
\<close>

lemma authEnabled_never_patched:
  assumes "Reconcile S G K R namespace name w = (out, w')" "w_trace w' = w_trace w @ xs" "StatusPatch b d ok \<in> set xs"
  shows "st_authEnabled (d_status d) = st_authEnabled (d_status b)"
proof (rule Reconcile_patches [OF assms(1)])
  fix ys assume ys: "w_trace w' = w_trace w @ ys" "list_all (\<lambda>x. case x of
        StatusPatch b d ok \<Rightarrow> d_meta d = d_meta b \<and> d_spec d = d_spec b \<and> discoveryKept b d
      | ObjectPatch b d ok \<Rightarrow> d_spec d = d_spec b \<and> d_status d = d_status b \<and> foreignKept (d_meta b) (d_meta d)
      | _ \<Rightarrow> True) ys"
  then have "discoveryKept b d" using assms(2,3) by (fastforce simp: list_all_iff)
  then show ?thesis by (simp add: discoveryKept_def Let_def)
qed

text \<open>
  C12: The controller keeps to its own fields, in every mode and on every path: a status patch of a
  reconciliation never changes what discovery learned of the device (address, identity, firmware,
  name, reachability and when it was last seen), nor labels, annotations or spec, and a patch of
  the object changes only labels and the annotation that belong to the registry. The recorded
  state of authentication, which enforcement switches, is not part of this claim.
\<close>

theorem reconcile_field_ownership:
  assumes "Reconcile S G K R namespace name w = (out, w')"
  shows "\<exists>xs. w_trace w' = w_trace w @ xs \<and>
    list_all (\<lambda>x. case x of
        StatusPatch b d ok \<Rightarrow> d_meta d = d_meta b \<and> d_spec d = d_spec b \<and> probedKept b d
      | ObjectPatch b d ok \<Rightarrow> d_spec d = d_spec b \<and> d_status d = d_status b \<and> foreignKept (d_meta b) (d_meta d)
      | _ \<Rightarrow> True) xs"
  by (rule Reconcile_patches [OF assms])
    (force simp: list_all_iff probedKept_def discoveryKept_def Let_def split: effect.splits)

section \<open>Devices that are left alone\<close>

text \<open>Nothing but a status with that reason, the event of it where there is one, and the usual requeue.\<close>

definition recordsOnly :: "k8slib \<Rightarrow> reconciler \<Rightarrow> ShellyDevice \<Rightarrow> string \<Rightarrow> string \<Rightarrow> 'e world \<Rightarrow> outcome \<Rightarrow> 'e world \<Rightarrow> bool" where
  "recordsOnly K R dev reason message w out w' \<longleftrightarrow>
     (\<exists>ok evs. w_trace w' = w_trace w @ StatusPatch dev
          (finishedDev K dev ConditionUnknown reason message [] (st_matchedProfile (d_status dev))) ok # evs \<and>
        (evs = [] \<or> ok \<and> evs = [Event EventTypeNormal reason message]) \<and>
        (if ok then out = Inr (jitter R) else \<exists>err. out = Inl err))"

lemma finish_recordsOnly:
  assumes "finish S K R dev ConditionUnknown reason message [] (st_matchedProfile (d_status dev)) w = (out, w')"
  shows "recordsOnly K R dev reason message w out w'"
proof -
  let ?d = "finishedDev K dev ConditionUnknown reason message [] (st_matchedProfile (d_status dev))"
  obtain r w2 where p: "patchStatusW S dev ?d w = (r, w2)" by force
  have "w_trace w2 = w_trace w @ [StatusPatch dev ?d (isOk r)]" using trace_patchStatusW [of S dev ?d w] p by simp
  then show ?thesis using assms unfolding finish_unfold [OF p] recordsOnly_def
    by (intro exI [of _ "isOk r"] exI [of _ "drop (length (w_trace w2)) (w_trace w')"])
      (auto simp: isOk_def split: sum.splits if_splits)
qed

text \<open>
  C13: A device that is paused, offline, or still installing an update the operator started is
  not contacted at all. When it is paused or offline, the reconciliation records just that, as
  an unknown InSync condition with its own reason, keeps the matched profile, and comes back at
  the usual interval. When an update is in flight at the time the clock shows, nothing is
  recorded, and the next look is scheduled for the moment the settling time is over.
\<close>

theorem left_alone:
  assumes "getDevice S namespace name (w_env w) = (Inr dev, e)"
    and "Reconcile S G K R namespace name w = (out, w')"
  shows "(ds_paused (d_spec dev) \<longrightarrow>
       recordsOnly K R dev ReasonPaused ''reconciliation paused via spec.paused'' w out w') \<and>
    (\<not> ds_paused (d_spec dev) \<and> \<not> st_online (d_status dev) \<longrightarrow>
       recordsOnly K R dev ReasonOffline ''device offline; skipping drift check'' w out w') \<and>
    (\<forall>att. \<not> ds_paused (d_spec dev) \<and> st_online (d_status dev) \<and> st_lastFirmwareUpdate (d_status dev) = Some att \<and>
       \<not> fa_refused att \<and> fa_from att = st_firmware (d_status dev) \<and> fst (timeNow S e) < fa_time att + updateSettle \<longrightarrow>
       w_trace w' = w_trace w \<and> out = Inr (RequeueAfter (fa_time att + updateSettle - fst (timeNow S e))))"
proof -
  let ?w1 = "w\<lparr>w_env := e\<rparr>"
  have g: "askEnv (getDevice S namespace name) w = (Inr dev, ?w1)" using assms(1) by (simp add: askEnv_def)
  have rec: "recordsOnly K R dev reason message w out w'"
    if "finish S K R dev ConditionUnknown reason message [] (st_matchedProfile (d_status dev)) ?w1 = (out, w')"
    for reason message
    using finish_recordsOnly [OF that] by (simp add: recordsOnly_def)
  have "w_trace w' = w_trace w \<and> out = Inr (RequeueAfter (fa_time att + updateSettle - fst (timeNow S e)))"
    if "\<not> ds_paused (d_spec dev)" "st_online (d_status dev)" "st_lastFirmwareUpdate (d_status dev) = Some att"
      "\<not> fa_refused att" "fa_from att = st_firmware (d_status dev)" "fst (timeNow S e) < fa_time att + updateSettle" for att
  proof -
    have n: "askEnv (timeNow S) ?w1 = (fst (timeNow S e), ?w1\<lparr>w_env := snd (timeNow S e)\<rparr>)"
      by (simp add: askEnv_def split_beta Let_def)
    have "updateInFlight dev (fst (timeNow S e)) = (True, fa_time att + updateSettle - fst (timeNow S e))"
      using that by (simp add: updateInFlight_def Let_def)
    then show ?thesis using assms(2) that(1,2) by (auto simp: Reconcile_def g n)
  qed
  then show ?thesis using assms(2) rec by (auto simp: Reconcile_def g split: if_splits)
qed

definition observingOps :: "time sysops" where
  "observingOps = quietOps\<lparr>listProfiles := (\<lambda>ns e.
     (Inr [(exampleProfile ''plugs'' 1)\<lparr>p_spec := (p_spec (exampleProfile ''plugs'' 1))\<lparr>ps_mode := ModeObserve\<rparr>\<rparr>], e))\<rparr>"

definition isHttpB :: "effect \<Rightarrow> bool" where
  "isHttpB x \<longleftrightarrow> (case x of Http _ \<Rightarrow> True | _ \<Rightarrow> False)"

theorem observe_only_reads_witness:
  "\<exists>out w'. Reconcile observingOps exampleLib exampleK8s exampleReconciler ''home'' ''aabb'' (startWorld 0) = (out, w') \<and>
     list_ex isHttpB (w_trace w') \<and>
     list_all (confined {''Shelly.GetConfig'', ''Sys.GetStatus'', ''Schedule.List''}) (w_trace w')"
proof -
  let ?r = "Reconcile observingOps exampleLib exampleK8s exampleReconciler ''home'' ''aabb'' (startWorld 0)"
  obtain out w' where r: "?r = (out, w')" by force
  have obs: "\<forall>ns e ps e'. listProfiles observingOps ns e = (Inr ps, e') \<longrightarrow> (\<forall>p \<in> set ps. ps_mode (p_spec p) \<noteq> ModeEnforce)"
    by (auto simp: observingOps_def)
  have "list_ex isHttpB (w_trace (snd ?r))" by code_simp
  then show ?thesis using observe_only_reads [OF obs r] r by (auto simp: startWorld_def)
qed

theorem reconcile_field_ownership_witness:
  "\<exists>out w' b d ok. Reconcile observingOps exampleLib exampleK8s exampleReconciler ''home'' ''aabb'' (startWorld 0) = (out, w') \<and>
     StatusPatch b d ok \<in> set (w_trace w') \<and> probedKept b d"
proof -
  let ?r = "Reconcile observingOps exampleLib exampleK8s exampleReconciler ''home'' ''aabb'' (startWorld 0)"
  obtain out w' where r: "?r = (out, w')" by force
  have "list_ex (\<lambda>x. case x of StatusPatch b d ok \<Rightarrow> True | _ \<Rightarrow> False) (w_trace (snd ?r))" by code_simp
  then obtain x where x: "x \<in> set (w_trace w')" "case x of StatusPatch b d ok \<Rightarrow> True | _ \<Rightarrow> False"
    unfolding r list_ex_iff by auto
  from x(2) obtain b d ok where sp: "x = StatusPatch b d ok" by (cases x) simp_all
  from reconcile_field_ownership [OF r] obtain xs where
    "w_trace w' = xs" "list_all (\<lambda>x. case x of
        StatusPatch b d ok \<Rightarrow> d_meta d = d_meta b \<and> d_spec d = d_spec b \<and> probedKept b d
      | ObjectPatch b d ok \<Rightarrow> d_spec d = d_spec b \<and> d_status d = d_status b \<and> foreignKept (d_meta b) (d_meta d)
      | _ \<Rightarrow> True) xs" by (auto simp: startWorld_def)
  then have "probedKept b d" using x(1) sp by (fastforce simp: list_all_iff)
  then show ?thesis using r x(1) sp by blast
qed

text \<open>A device that started an update five minutes ago.\<close>

definition updatingDevice :: ShellyDevice where
  "updatingDevice = exampleDevice\<lparr>d_status := exampleStatus\<lparr>st_lastFirmwareUpdate :=
     Some \<lparr>fa_time = 0, fa_from = st_firmware exampleStatus, fa_target = ''2.0'', fa_error = [], fa_refused = False\<rparr>\<rparr>\<rparr>"

theorem left_alone_witness:
  "\<exists>w'. Reconcile (quietOps\<lparr>getDevice := (\<lambda>ns n e. (Inr updatingDevice, e))\<rparr>)
       exampleLib exampleK8s exampleReconciler ''home'' ''aabb'' (startWorld (minutes 5)) =
       (Inr (RequeueAfter (minutes 15)), w') \<and> w_trace w' = []"
proof -
  let ?S = "quietOps\<lparr>getDevice := (\<lambda>ns n e. (Inr updatingDevice, e))\<rparr>" and ?w = "startWorld (minutes 5)"
  obtain out w' where r: "Reconcile ?S exampleLib exampleK8s exampleReconciler ''home'' ''aabb'' ?w = (out, w')" by force
  have g: "getDevice ?S ''home'' ''aabb'' (w_env ?w) = (Inr updatingDevice, minutes 5)" "fst (timeNow ?S (minutes 5)) = minutes 5"
    by (simp_all add: startWorld_def quietOps_def)
  have "\<not> ds_paused (d_spec updatingDevice)" "st_online (d_status updatingDevice)"
    by (simp_all add: updatingDevice_def example_defs)
  then show ?thesis using left_alone [OF g(1) r] r g(2)
    by (auto simp: updatingDevice_def startWorld_def)
qed

end
