(* ===== verification/End_To_End.thy ===== *)
theory End_To_End
  imports Reconcile_Safety Networked
begin

text \<open>
  A whole reconciliation in front of the emulated device: the API server answers and accepts the
  operator's patches, the network delivers requests to the device. An enforcing profile then
  ends in sync, on the device and in the recorded status.
\<close>

section \<open>A cooperative cluster\<close>

text \<open>
  The API server and the clock answer without touching the device, and patches are stored as
  they are sent.
\<close>

definition clusterAnswers :: "'e sysops \<Rightarrow> bool" where
  "clusterAnswers S \<longleftrightarrow>
     (\<forall>e. snd (timeNow S e) = e) \<and>
     (\<forall>ns n e. snd (getDevice S ns n e) = e) \<and> (\<forall>ns e. snd (listProfiles S ns e) = e) \<and>
     (\<forall>ns n e. snd (getConfigMap S ns n e) = e) \<and> (\<forall>ns n e. snd (getSecret S ns n e) = e) \<and>
     (\<forall>base dev e. patchStatus S base dev e = (Inr dev, e)) \<and>
     (\<forall>base dev e. patchObject S base dev e = (Inr dev, e))"

lemma askEnv_quiet: "snd (f (w_env w)) = w_env w \<Longrightarrow> askEnv f w = (fst (f (w_env w)), w)"
  by (simp add: askEnv_def split_beta Let_def)

lemma cluster_patches:
  assumes "clusterAnswers S"
  shows "patchStatusW S base dev w = (Inr dev, record_effect (StatusPatch base dev True) w)"
    "patchObjectW S base dev w = (Inr dev, record_effect (ObjectPatch base dev True) w)"
  using assms by (simp_all add: clusterAnswers_def patchStatusW_def patchObjectW_def askEnv_def isOk_def)

text \<open>Effects and events do not change what is reachable.\<close>

lemma deviceReady_same:
  "w_env w' = w_env w \<Longrightarrow> w_clients w' = w_clients w \<Longrightarrow> deviceReady S G pw addr n w' = deviceReady S G pw addr n w"
  by (simp add: deviceReady_def reachable_def)

lemma emit_state [simp]:
  "w_env (emit a b c w) = w_env w" "w_clients (emit a b c w) = w_clients w"
  by (simp_all add: emit_def)

section \<open>Reading the findings\<close>

context device_store
begin

lemma recheck_ok:
  assumes "ok n w"
  shows "\<exists>w'. recheckFindings G cn profile fs p q w =
      (Inr (fs @ firmwarePart (firmwareEnableOf profile) (jobs w) @ schedulePart G profile (jobs w)), w') \<and>
    ok n w' \<and> jobs w' = jobs w \<and> config w' = config w \<and> authOn w' = authOn w"
proof -
  obtain w1 where w1: "appendFirmwareFindings cn profile fs w = (Inr (fs @ firmwarePart (firmwareEnableOf profile) (jobs w)), w1)"
      "ok n w1" "jobs w1 = jobs w" "config w1 = config w" "authOn w1 = authOn w"
    using list_ok [OF assms] assms
    by (cases "firmwareEnableOf profile") (auto simp: appendFirmwareFindings_def firmwarePart_def)
  obtain w2 where "appendScheduleFindings G cn profile gs w1 = (Inr (gs @ schedulePart G profile (jobs w)), w2)"
      "ok n w2" "jobs w2 = jobs w" "config w2 = config w" "authOn w2 = authOn w" for gs
    using list_ok [OF w1(2)] w1
    by (cases "scheduleSectionOf profile") (auto simp: appendScheduleFindings_def schedulePart_def scheduleActions_def)
  then show ?thesis using w1(1) by (auto simp: recheckFindings_def)
qed

end

section \<open>Enforcing, and checking again\<close>

text \<open>The device has what the profile declares: configuration, authentication, firmware jobs and schedule.\<close>

definition conforms :: "golib \<Rightarrow> ShellyProfile \<Rightarrow> string \<Rightarrow> fakeDevice \<Rightarrow> bool" where
  "conforms G profile desiredName d \<longleftrightarrow>
     Diff (Render G (ps_config (p_spec profile)) desiredName (cfgJson (fd_config d))) (cfgJson (fd_config d)) = Inr [] \<and>
     authPart (authEnableOf profile) (AuthEnabled d) = [] \<and>
     firmwarePart (firmwareEnableOf profile) (fakeJobs d) = [] \<and> schedulePart G profile (fakeJobs d) = []"

text \<open>What enforcement needs of the profile and of the device.\<close>

definition enforceableProfile :: "golib \<Rightarrow> ShellyProfile \<Rightarrow> string \<Rightarrow> fakeDevice \<Rightarrow> bool" where
  "enforceableProfile G profile pw d \<longleftrightarrow>
     enforceable G (ps_config (p_spec profile)) (fd_config d) \<and> (authEnableOf profile = Some True \<longrightarrow> pw \<noteq> []) \<and>
     (case scheduleSectionOf profile of None \<Rightarrow> True | Some sec \<Rightarrow> list_all writable (ss_jobs sec))"

definition allFindings :: "golib \<Rightarrow> ShellyProfile \<Rightarrow> Finding list \<Rightarrow> fakeDevice \<Rightarrow> Finding list" where
  "allFindings G profile cs d =
     cs @ authPart (authEnableOf profile) (AuthEnabled d) @ firmwarePart (firmwareEnableOf profile) (fakeJobs d) @ schedulePart G profile (fakeJobs d)"

lemma deviceClient_ready: "deviceReady S G pw addr n w \<Longrightarrow> deviceClient addr pw w = w"
  by (auto simp: deviceReady_def reachable_def deviceClient_def)

text \<open>
  What is known of authentication is what the object records; where the profile manages it, this
  has to be the state of the device.
\<close>

definition authKnown :: "ShellyProfile \<Rightarrow> bool \<Rightarrow> fakeDevice \<Rightarrow> bool" where
  "authKnown profile a d \<longleftrightarrow> authEnableOf profile = None \<or> a = AuthEnabled d"

lemma appendAuth_known:
  "authKnown profile a d \<Longrightarrow> appendAuthFinding profile fs a = fs @ authPart (authEnableOf profile) (AuthEnabled d)"
  by (auto simp: authKnown_def appendAuthFinding_def authPart_def split: option.splits)

lemma appendAuth_done:
  assumes "authPart (authEnableOf profile) (if sectionAuth \<in> set ss then authEnableOf profile = Some True else AuthEnabled d) = []"
    and "authKnown profile a d"
  shows "appendAuthFinding profile [] (if sectionAuth \<in> set ss
    then (case authEnableOf profile of None \<Rightarrow> a | Some e \<Rightarrow> e) else a) = []"
  using assms by (auto simp: authKnown_def appendAuthFinding_def authPart_def split: option.splits if_splits)

lemma enforceAndRecheck_ok:
  assumes "deviceReady S G pw (st_address (d_status dev)) (jobRoom profile + n) w" "enforceableProfile G profile pw (w_env w)"
    and "desired = Render G (ps_config (p_spec profile)) dn (cfgJson (fd_config (w_env w)))"
    and "Diff desired (cfgJson (fd_config (w_env w))) = Inr cs" "authKnown profile a (w_env w)"
  shows "\<exists>er w'. enforceAndRecheck S G (cachedConn S G (st_address (d_status dev))) dev profile desired dn pw wifiPw
      (allFindings G profile cs (w_env w)) a w = (er, w') \<and>
    er_error er = None \<and> er_findings er = [] \<and> conforms G profile dn (w_env w') \<and>
    deviceReady S G pw (st_address (d_status dev)) n w'"
proof -
  let ?addr = "st_address (d_status dev)"
  let ?cn = "cachedConn S G ?addr"
  have e: "enforceable G (ps_config (p_spec profile)) (fd_config (w_env w))" "authEnableOf profile = Some True \<longrightarrow> pw \<noteq> []"
      "\<And>sec. scheduleSectionOf profile = Some sec \<Longrightarrow> list_all writable (ss_jobs sec)"
    using assms(2) by (auto simp: enforceableProfile_def)
  obtain res w1 where w1: "applyFindings G ?cn (Probe S ?addr) desired (allFindings G profile cs (w_env w))
        (authEnableOf profile) (firmwareEnableOf profile) pw wifiPw profile w = (res, None, w1)"
      "deviceReady S G pw ?addr n w1" "authPart (authEnableOf profile) (AuthEnabled (w_env w1)) = []"
      "AuthEnabled (w_env w1) = (if sectionAuth \<in> set (ar_applied res) then authEnableOf profile = Some True else AuthEnabled (w_env w))"
      "Render G (ps_config (p_spec profile)) dn (cfgJson (fd_config (w_env w1))) = desired"
      "Diff desired (cfgJson (fd_config (w_env w1))) = Inr []"
      "firmwarePart (firmwareEnableOf profile) (fakeJobs (w_env w1)) = []" "schedulePart G profile (fakeJobs (w_env w1)) = []"
    using networkedDevice.enforce_all [OF assms(1) e(1) assms(3,4) allFindings_def e(3,2)] by blast
  define w2 where "w2 = (if ar_applied res \<noteq> [] then emit EventTypeNormal ''DriftCorrected''
      (''applied sections: '' @ joinStrings (ar_applied res) '', '') w1 else w1)"
  define w3 where "w3 = (if ar_restartRequired res then emit EventTypeNormal ''RestartRequired''
      ''a configuration change requires a device restart to take effect'' w2 else w2)"
  have s3: "w_env w3 = w_env w1" "w_clients w3 = w_clients w1" by (simp_all add: w3_def w2_def)
  then have r3: "deviceReady S G pw ?addr n w3" using w1(2) deviceReady_same by blast
  obtain w4 where w4: "GetConfig ?cn w3 = (Inr (cfgJson (fd_config (w_env w1))), w4)" "deviceReady S G pw ?addr n w4"
      "fakeJobs (w_env w4) = fakeJobs (w_env w1)" "fd_config (w_env w4) = fd_config (w_env w1)"
      "AuthEnabled (w_env w4) = AuthEnabled (w_env w1)"
    using networkedDevice.get_ok [OF r3] s3 by auto
  obtain w5 where w5: "recheckFindings G ?cn profile [] ''re-checking schedule jobs after enforcement: ''
        ''re-checking schedule section jobs after enforcement: '' w4 = (Inr [], w5)"
      "fakeJobs (w_env w5) = fakeJobs (w_env w1)" "fd_config (w_env w5) = fd_config (w_env w1)"
      "AuthEnabled (w_env w5) = AuthEnabled (w_env w1)"
      "deviceReady S G pw ?addr n w5"
    using networkedDevice.recheck_ok [OF w4(2), of profile "[]"] w4(3-5) w1(7,8) by auto
  define now where "now = (if sectionAuth \<in> set (ar_applied res)
      then (case authEnableOf profile of None \<Rightarrow> a | Some e \<Rightarrow> e) else a)"
  have "appendAuthFinding profile [] now = []"
    using appendAuth_done [of profile "ar_applied res" "w_env w" a] w1(3) assms(5) unfolding w1(4) now_def by blast
  then have "enforceAndRecheck S G ?cn dev profile desired dn pw wifiPw (allFindings G profile cs (w_env w)) a w =
      (\<lparr>er_findings = [], er_applied = ar_applied res, er_authNow = now, er_error = None\<rparr>, w5)"
    unfolding enforceAndRecheck_def Let_def w1(1) prod.case option.case w2_def [symmetric] w3_def [symmetric] now_def [symmetric]
    using w1(5,6) w4(1) w5(1) deviceClient_ready [OF r3] by simp
  moreover have "conforms G profile dn (w_env w5)" using w1 w5 by (simp add: conforms_def)
  ultimately show ?thesis using w5(5) by auto
qed

section \<open>Recording the result\<close>

text \<open>A status patch that says: in sync with this profile, nothing drifted.\<close>

definition recordsInSync :: "k8slib \<Rightarrow> ShellyProfile \<Rightarrow> effect \<Rightarrow> bool" where
  "recordsInSync K profile x \<longleftrightarrow>
     (case x of
        StatusPatch b d ok \<Rightarrow>
          ok \<and> st_driftedSections (d_status d) = [] \<and> st_matchedProfile (d_status d) = profileName profile \<and>
          (case findStatusCondition K (st_conditions (d_status d)) ConditionInSync of
             None \<Rightarrow> False
           | Some c \<Rightarrow> c_status c = ConditionTrue \<and> c_reason c = ReasonInSync)
      | _ \<Rightarrow> False)"

definition recorded :: "k8slib \<Rightarrow> ShellyProfile \<Rightarrow> 'e world \<Rightarrow> 'e world \<Rightarrow> bool" where
  "recorded K profile w w' \<longleftrightarrow> (\<exists>xs. w_trace w' = w_trace w @ xs \<and> list_ex (recordsInSync K profile) xs)"

lemma recorded_after: "ext P w v \<Longrightarrow> recorded K profile v w' \<Longrightarrow> recorded K profile w w'"
  by (auto simp: ext_def recorded_def)

lemma finish_ok:
  assumes "clusterAnswers S" "condition_laws K"
  shows "\<exists>w'. finish S K R dev ConditionTrue ReasonInSync msg [] (profileName profile) w = (Inr (jitter R), w') \<and>
    w_env w' = w_env w \<and> w_clients w' = w_clients w \<and> recorded K profile w w'"
proof -
  let ?d = "finishedDev K dev ConditionTrue ReasonInSync msg [] (profileName profile)"
  have f: "findStatusCondition K (setStatusCondition K cs c) (c_type c) = Some c" for cs c
    using assms(2) by (simp add: condition_laws_def)
  have r: "recordsInSync K profile (StatusPatch dev ?d True)"
    using f [of "st_conditions (d_status dev)" "\<lparr>c_type = ConditionInSync, c_status = ConditionTrue,
      c_reason = ReasonInSync, c_message = msg, c_observedGeneration = m_generation (d_meta dev)\<rparr>"]
    by (simp add: recordsInSync_def finishedDev_def)
  show ?thesis
    unfolding finish_unfold [OF cluster_patches(1) [OF assms(1)]] using r by (simp add: recorded_def)
qed

lemma conclude_ok:
  assumes "clusterAnswers S" "condition_laws K" "\<not> ps_rebootWhenRequired (p_spec profile)"
  shows "\<exists>w'. conclude S G K R cn dev profile sys [] warns w = (Inr (jitter R), w') \<and>
    w_env w' = w_env w \<and> w_clients w' = w_clients w \<and> recorded K profile w w' \<and> ext (confined A) w w'"
proof -
  let ?f = "finish S K R dev ConditionTrue ReasonInSync (withWarnings (''configuration matches profile '' @ profileName profile) warns) []
    (profileName profile) w"
  have c: "conclude S G K R cn dev profile sys [] warns w = ?f"
    using assms(3) by (simp add: conclude_def rebootIfRequested_def Let_def)
  obtain w' where f: "?f = (Inr (jitter R), w')" "w_env w' = w_env w" "w_clients w' = w_clients w" "recorded K profile w w'"
    using finish_ok [OF assms(1,2)] by blast
  then show ?thesis unfolding c using finish_ext [OF f(1), of A] by blast
qed

lemma runEnforce_ok:
  assumes "deviceReady S G pw (st_address (d_status dev)) (jobRoom profile + n) w" "enforceableProfile G profile pw (w_env w)"
    and "desired = Render G (ps_config (p_spec profile)) dn (cfgJson (fd_config (w_env w)))"
    and "Diff desired (cfgJson (fd_config (w_env w))) = Inr cs" "authKnown profile (st_authEnabled (d_status dev)) (w_env w)"
    and "\<And>c. findStatusCondition K (st_conditions (d_status dev)) ConditionInSync = Some c \<Longrightarrow> c_reason c \<noteq> ReasonNotConverging"
  shows "\<exists>dev' w'. runEnforce S G K R (cachedConn S G (st_address (d_status dev))) dev profile desired dn pw wifiPw
      (allFindings G profile cs (w_env w)) warns w = (Inr ([], dev'), w') \<and> conforms G profile dn (w_env w') \<and>
    deviceReady S G pw (st_address (d_status dev)) n w'"
proof -
  obtain er w' where er: "enforceAndRecheck S G (cachedConn S G (st_address (d_status dev))) dev profile desired dn pw wifiPw
      (allFindings G profile cs (w_env w)) (st_authEnabled (d_status dev)) w = (er, w')"
    "er_error er = None" "er_findings er = []" "conforms G profile dn (w_env w')"
    "deviceReady S G pw (st_address (d_status dev)) n w'"
    using enforceAndRecheck_ok [OF assms(1-5), of wifiPw] by blast
  have "\<not> (case findStatusCondition K (st_conditions (d_status dev)) ConditionInSync of
      None \<Rightarrow> False
    | Some prev \<Rightarrow> c_reason prev = ReasonNotConverging \<and> c_message prev = withWarnings (Summarize G (allFindings G profile cs (w_env w))) warns)"
    using assms(6) by (auto split: option.splits)
  then show ?thesis unfolding runEnforce_def Let_def er(1) using er(2-5) by simp
qed

section \<open>From the system status to the recorded condition\<close>

definition sysStamped :: "ShellyDevice \<Rightarrow> ShellyDevice \<Rightarrow> bool" where
  "sysStamped dev dev' \<longleftrightarrow>
     (\<exists>fw rr. dev' = dev\<lparr>d_status := (d_status dev)\<lparr>st_availableFirmware := fw, st_restartRequired := rr\<rparr>\<rparr>)"

lemma stampSysStatus_ok:
  assumes "clusterAnswers S" "deviceReady S G pw addr n w"
  shows "\<exists>sys dev' w'. stampSysStatus S (cachedConn S G addr) dev w = (sys, dev', w') \<and> sysStamped dev dev' \<and>
    deviceReady S G pw addr n w' \<and> fd_config (w_env w') = fd_config (w_env w) \<and> fakeJobs (w_env w') = fakeJobs (w_env w) \<and>
    AuthEnabled (w_env w') = AuthEnabled (w_env w)"
proof -
  have r: "reachable S G pw addr w" using assms(2) by (simp add: deviceReady_def)
  from cached_callDec [OF r, of "''Sys.GetStatus''" None decSysStatus] obtain x w1 where
    g: "GetSysStatus (cachedConn S G addr) w = (x, w1)" "reachable S G pw addr w1" "framed ''Sys.GetStatus'' (w_env w) (w_env w1)"
    by (auto simp: GetSysStatus_def)
  have s1: "deviceReady S G pw addr n w1" "fd_config (w_env w1) = fd_config (w_env w)" "fakeJobs (w_env w1) = fakeJobs (w_env w)"
      "AuthEnabled (w_env w1) = AuthEnabled (w_env w)"
    using g(2,3) framed_config [OF g(3)] assms(2) by (auto simp: deviceReady_def framed_def)
  have id: "sysStamped dev dev"
    unfolding sysStamped_def
    by (rule exI [of _ "st_availableFirmware (d_status dev)"], rule exI [of _ "st_restartRequired (d_status dev)"]) simp
  show ?thesis
  proof (cases x)
    case (Inl err)
    then show ?thesis using g(1) s1 id by (simp add: stampSysStatus_def)
  next
    case (Inr st)
    then show ?thesis using g(1) s1 id
      by (auto simp: stampSysStatus_def Let_def cluster_patches [OF assms(1)] sysStamped_def
          deviceReady_same [of "record_effect x w1" w1 for x])
  qed
qed

lemma Diff_objects: "\<exists>cs. Diff desired (cfgJson c) = Inr cs"
proof -
  have "list_all (secDecodes desired (cfgJson c)) (sortedKeys desired)"
    by (auto simp: list_all_iff secDecodes_def split: option.splits)
  then show ?thesis by (simp add: Diff_eq)
qed

text \<open>A profile that enforces, and neither reboots nor updates on its own.\<close>

definition enforcing :: "ShellyProfile \<Rightarrow> bool" where
  "enforcing profile \<longleftrightarrow>
     ps_mode (p_spec profile) = ModeEnforce \<and> \<not> ps_rebootWhenRequired (p_spec profile) \<and>
     \<not> ps_updateWhenAvailable (p_spec profile)"

definition undamped :: "k8slib \<Rightarrow> ShellyDevice \<Rightarrow> bool" where
  "undamped K dev \<longleftrightarrow>
     (case findStatusCondition K (st_conditions (d_status dev)) ConditionInSync of
        None \<Rightarrow> True | Some c \<Rightarrow> c_reason c \<noteq> ReasonNotConverging)"

text \<open>
  Up to the decision: the status and the jobs are read, nothing is written to the device, and what
  is left to do depends on the findings.
\<close>

lemma checkDrift_start:
  assumes "clusterAnswers S" "enforcing profile" "deviceReady S G pw (st_address (d_status dev)) n w"
    and "authKnown profile (st_authEnabled (d_status dev)) (w_env w)" "\<not> ds_paused (d_spec dev)"
    and "Diff (Render G (ps_config (p_spec profile)) dn (cfgJson (fd_config (w_env w)))) (cfgJson (fd_config (w_env w))) = Inr cs"
  obtains sys dev1 w2 where "sysStamped dev dev1" "deviceReady S G pw (st_address (d_status dev)) n w2"
    and "fd_config (w_env w2) = fd_config (w_env w)" "fakeJobs (w_env w2) = fakeJobs (w_env w)"
    and "AuthEnabled (w_env w2) = AuthEnabled (w_env w)" "ext (confined readMethods) w w2"
    and "checkDrift S G K R (cachedConn S G (st_address (d_status dev))) dev profile dn pw wifiPw
        (cfgJson (fd_config (w_env w))) warns w =
      (if allFindings G profile cs (w_env w2) \<noteq> [] then
         (case runEnforce S G K R (cachedConn S G (st_address (d_status dev))) dev1 profile
             (Render G (ps_config (p_spec profile)) dn (cfgJson (fd_config (w_env w)))) dn pw wifiPw
             (allFindings G profile cs (w_env w2)) warns w2 of
            (Inl out, w) \<Rightarrow> (out, w)
          | (Inr (findings, dev'), w) \<Rightarrow>
              conclude S G K R (cachedConn S G (st_address (d_status dev))) dev' profile sys findings warns w)
       else conclude S G K R (cachedConn S G (st_address (d_status dev))) dev1 profile sys [] warns w2)"
proof -
  let ?addr = "st_address (d_status dev)"
  let ?cn = "cachedConn S G ?addr"
  obtain sys dev1 w1 where w1: "stampSysStatus S ?cn dev w = (sys, dev1, w1)" "sysStamped dev dev1"
      "deviceReady S G pw ?addr n w1" "fd_config (w_env w1) = fd_config (w_env w)"
      "fakeJobs (w_env w1) = fakeJobs (w_env w)" "AuthEnabled (w_env w1) = AuthEnabled (w_env w)"
    using stampSysStatus_ok [OF assms(1,3)] by blast
  have np: "\<not> ds_paused (d_spec dev1)" "st_authEnabled (d_status dev1) = st_authEnabled (d_status dev)"
    using w1(2) assms(5) by (auto simp: sysStamped_def)
  have u: "updateIfAvailable S G R ?cn dev1 profile sys w1 = (False, dev1, w1)"
    using assms(2) by (simp add: updateIfAvailable_def updateWanted_def enforcing_def)
  obtain w2 where w2: "recheckFindings G ?cn profile (cs @ authPart (authEnableOf profile) (AuthEnabled (w_env w))) ''fetching schedule jobs: ''
        ''fetching schedule jobs for schedule section: '' w1 = (Inr (allFindings G profile cs (w_env w2)), w2)"
      "deviceReady S G pw ?addr n w2" "fd_config (w_env w2) = fd_config (w_env w)"
      "fakeJobs (w_env w2) = fakeJobs (w_env w)" "AuthEnabled (w_env w2) = AuthEnabled (w_env w)"
    using networkedDevice.recheck_ok [OF w1(3), of profile "cs @ authPart (authEnableOf profile) (AuthEnabled (w_env w))"] w1(4-6)
    by (auto simp: allFindings_def)
  have reads: "''Sys.GetStatus'' \<in> readMethods" "''Schedule.List'' \<in> readMethods" by (simp_all add: readMethods_def)
  have "ext (confined readMethods) w w2"
    using ext_trans [OF cached.stampSysStatus_ext [OF w1(1) reads(1)] cached.recheckFindings_ext [OF w2(1) reads(2)]] .
  moreover have "checkDrift S G K R ?cn dev profile dn pw wifiPw (cfgJson (fd_config (w_env w))) warns w =
      (if allFindings G profile cs (w_env w2) \<noteq> [] then
         (case runEnforce S G K R ?cn dev1 profile (Render G (ps_config (p_spec profile)) dn (cfgJson (fd_config (w_env w)))) dn pw wifiPw
             (allFindings G profile cs (w_env w2)) warns w2 of
            (Inl out, w) \<Rightarrow> (out, w)
          | (Inr (findings, dev), w) \<Rightarrow> conclude S G K R ?cn dev profile sys findings warns w)
       else conclude S G K R ?cn dev1 profile sys [] warns w2)"
    unfolding checkDrift_def Let_def w1(1) prod.case u if_False bool.case assms(6) sum.case np(2) appendAuth_known [OF assms(4)] w2(1)
    using assms(2) np by (simp add: enforcing_def)
  ultimately show thesis using that [OF w1(2) w2(2-5)] by blast
qed

lemma checkDrift_ok:
  assumes "clusterAnswers S" "condition_laws K" "enforcing profile"
    and "deviceReady S G pw (st_address (d_status dev)) (jobRoom profile + n) w" "enforceableProfile G profile pw (w_env w)"
    and "undamped K dev" "\<not> ds_paused (d_spec dev)" "authKnown profile (st_authEnabled (d_status dev)) (w_env w)"
  shows "\<exists>w'. checkDrift S G K R (cachedConn S G (st_address (d_status dev))) dev profile dn pw wifiPw
      (cfgJson (fd_config (w_env w))) warns w = (Inr (jitter R), w') \<and>
    conforms G profile dn (w_env w') \<and> recorded K profile w w' \<and> deviceReady S G pw (st_address (d_status dev)) n w'"
proof -
  let ?addr = "st_address (d_status dev)" and ?cfg = "ps_config (p_spec profile)"
  let ?cn = "cachedConn S G ?addr"
  let ?desired = "Render G ?cfg dn (cfgJson (fd_config (w_env w)))"
  obtain cs where cs: "Diff ?desired (cfgJson (fd_config (w_env w))) = Inr cs" using Diff_objects by blast
  obtain sys dev1 w2 where s: "sysStamped dev dev1" and w2: "deviceReady S G pw ?addr (jobRoom profile + n) w2"
      "fd_config (w_env w2) = fd_config (w_env w)" "fakeJobs (w_env w2) = fakeJobs (w_env w)"
      "AuthEnabled (w_env w2) = AuthEnabled (w_env w)" "ext (confined readMethods) w w2"
    and unfold: "checkDrift S G K R ?cn dev profile dn pw wifiPw (cfgJson (fd_config (w_env w))) warns w =
      (if allFindings G profile cs (w_env w2) \<noteq> [] then
         (case runEnforce S G K R ?cn dev1 profile ?desired dn pw wifiPw (allFindings G profile cs (w_env w2)) warns w2 of
            (Inl out, w) \<Rightarrow> (out, w)
          | (Inr (findings, dev), w) \<Rightarrow> conclude S G K R ?cn dev profile sys findings warns w)
       else conclude S G K R ?cn dev1 profile sys [] warns w2)"
    by (rule checkDrift_start [OF assms(1,3,4,8,7) cs, of K R wifiPw warns]) blast
  have d1: "st_address (d_status dev1) = ?addr" "undamped K dev1" "authKnown profile (st_authEnabled (d_status dev1)) (w_env w2)"
    using s assms(6,8) w2(4) by (auto simp: sysStamped_def undamped_def authKnown_def)
  have nr: "\<not> ps_rebootWhenRequired (p_spec profile)" using assms(3) by (simp add: enforcing_def)
  show ?thesis
  proof (cases "allFindings G profile cs (w_env w2) = []")
    case True
    then have "conforms G profile dn (w_env w2)" using cs w2(2) by (simp add: conforms_def allFindings_def)
    moreover have "deviceReady S G pw ?addr n w2" using w2(1) by (auto simp: deviceReady_def fakeRoom_def)
    ultimately show ?thesis unfolding unfold
      using True conclude_ok [OF assms(1,2) nr, where A = UNIV, of G R ?cn dev1 sys warns w2] recorded_after [OF w2(5)]
      by (auto simp: deviceReady_def reachable_def)
  next
    case False
    have e2: "enforceableProfile G profile pw (w_env w2)" using assms(5) w2(2) by (simp add: enforceableProfile_def)
    have r2: "deviceReady S G pw (st_address (d_status dev1)) (jobRoom profile + n) w2" using w2(1) d1(1) by simp
    have ds: "?desired = Render G ?cfg dn (cfgJson (fd_config (w_env w2)))" using w2(2) by simp
    have cs2: "Diff ?desired (cfgJson (fd_config (w_env w2))) = Inr cs" using cs w2(2) by simp
    have ud: "c_reason c \<noteq> ReasonNotConverging"
      if "findStatusCondition K (st_conditions (d_status dev1)) ConditionInSync = Some c" for c
      using d1(2) that by (simp add: undamped_def)
    obtain dev' w3 where w3: "runEnforce S G K R ?cn dev1 profile ?desired dn pw wifiPw (allFindings G profile cs (w_env w2)) warns w2 =
        (Inr ([], dev'), w3)" "conforms G profile dn (w_env w3)" "deviceReady S G pw ?addr n w3"
      using runEnforce_ok [where K = K and R = R and wifiPw = wifiPw and warns = warns, OF r2 e2 ds cs2 d1(3) ud] d1(1) by auto
    then show ?thesis unfolding unfold
      using False conclude_ok [OF assms(1,2) nr, where A = UNIV, of G R ?cn dev' sys warns w3]
        recorded_after [OF w2(5)] recorded_after [OF runEnforce_ext [OF w3(1)]]
      by (auto simp: deviceReady_def reachable_def)
  qed
qed

text \<open>A device that has it all already is only read.\<close>

lemma checkDrift_steady:
  assumes "clusterAnswers S" "condition_laws K" "enforcing profile"
    and "deviceReady S G pw (st_address (d_status dev)) n w" "authKnown profile (st_authEnabled (d_status dev)) (w_env w)"
    and "conforms G profile dn (w_env w)" "\<not> ds_paused (d_spec dev)"
  shows "\<exists>w'. checkDrift S G K R (cachedConn S G (st_address (d_status dev))) dev profile dn pw wifiPw
      (cfgJson (fd_config (w_env w))) warns w = (Inr (jitter R), w') \<and>
    fd_config (w_env w') = fd_config (w_env w) \<and> fakeJobs (w_env w') = fakeJobs (w_env w) \<and>
    AuthEnabled (w_env w') = AuthEnabled (w_env w) \<and> recorded K profile w w' \<and> ext (confined readMethods) w w' \<and> deviceReady S G pw (st_address (d_status dev)) n w'"
proof -
  let ?cn = "cachedConn S G (st_address (d_status dev))"
  have cs: "Diff (Render G (ps_config (p_spec profile)) dn (cfgJson (fd_config (w_env w)))) (cfgJson (fd_config (w_env w))) = Inr []"
    using assms(6) by (simp add: conforms_def)
  have nr: "\<not> ps_rebootWhenRequired (p_spec profile)" using assms(3) by (simp add: enforcing_def)
  obtain sys dev1 w2 where w2: "fd_config (w_env w2) = fd_config (w_env w)" "fakeJobs (w_env w2) = fakeJobs (w_env w)"
      "AuthEnabled (w_env w2) = AuthEnabled (w_env w)" "ext (confined readMethods) w w2" "deviceReady S G pw (st_address (d_status dev)) n w2"
      "checkDrift S G K R ?cn dev profile dn pw wifiPw (cfgJson (fd_config (w_env w))) warns w =
        conclude S G K R ?cn dev1 profile sys [] warns w2"
    by (rule checkDrift_start [OF assms(1,3,4,5,7) cs, of K R wifiPw warns]) (use assms(6) in \<open>simp add: conforms_def allFindings_def\<close>)
  then show ?thesis
    using conclude_ok [OF assms(1,2) nr, where A = readMethods, of G R ?cn dev1 sys warns w2]
      recorded_after [OF w2(4)] ext_trans [OF w2(4)] by (auto simp: deviceReady_def reachable_def)
qed

section \<open>A whole reconciliation\<close>

lemma cluster_reads:
  assumes "clusterAnswers S"
  shows "askEnv (timeNow S) w = (fst (timeNow S (w_env w)), w)"
    "askEnv (getDevice S ns n) w = (fst (getDevice S ns n (w_env w)), w)"
    "askEnv (listProfiles S ns) w = (fst (listProfiles S ns (w_env w)), w)"
    "askEnv (getConfigMap S ns n) w = (fst (getConfigMap S ns n (w_env w)), w)"
    "askEnv (getSecret S ns n) w = (fst (getSecret S ns n (w_env w)), w)"
  using assms by (simp_all add: clusterAnswers_def askEnv_quiet)

lemma ResolveRegistry_quiet: "clusterAnswers S \<Longrightarrow> ResolveRegistry S G dev n w = (r, w') \<Longrightarrow> w' = w"
  by (auto simp: ResolveRegistry_def cluster_reads Let_def split: if_splits sum.splits)

lemma ResolveName_quiet: "clusterAnswers S \<Longrightarrow> ResolveName S G dev nm rn w = (r, w') \<Longrightarrow> w' = w"
  by (auto simp: ResolveName_def cluster_reads Let_def split: if_splits sum.splits prod.splits dest: ResolveRegistry_quiet)

lemma networkPassword_quiet:
  "clusterAnswers S \<Longrightarrow> secretValue S ns ref what w = (r, w') \<Longrightarrow> w' = w"
  "clusterAnswers S \<Longrightarrow> networkPassword S ns net what w = (r, w') \<Longrightarrow> w' = w"
  by (auto simp: networkPassword_def secretValue_def cluster_reads Let_def split: sum.splits option.splits)

lemma resolveInputs_quiet:
  assumes "clusterAnswers S" "resolveInputs S G R dev profile w = (r, w')"
  shows "w' = w"
proof -
  have p: "ResolvePassword S ns auth v = (x, v') \<Longrightarrow> v' = v" for ns auth v x v'
    by (auto simp: ResolvePassword_def split: option.splits dest: networkPassword_quiet(1) [OF assms(1)])
  have q: "ResolveWifiPasswords S ns wifi v = (x, v') \<Longrightarrow> v' = v" for ns wifi v x v'
    by (auto simp: ResolveWifiPasswords_def split: option.splits prod.splits sum.splits
        dest!: networkPassword_quiet(2) [OF assms(1)])
  show ?thesis
    using assms(2) by (auto simp: resolveInputs_def Let_def split: prod.splits sum.splits
        dest!: p q ResolveName_quiet [OF assms(1)])
qed

lemma stampRegistry_ok:
  assumes "clusterAnswers S" "fst (ResolveRegistry S G dev (rc_registryName R) w) = Inr entry"
  shows "\<exists>dev' w'. stampRegistry S G K R dev w = (None, dev', w') \<and> d_status dev' = d_status dev \<and> d_spec dev' = d_spec dev \<and>
    w_env w' = w_env w \<and> w_clients w' = w_clients w"
proof -
  have "ResolveRegistry S G dev (rc_registryName R) w = (Inr entry, w)"
    using ResolveRegistry_quiet [OF assms(1)] assms(2) by (metis prod.collapse)
  then show ?thesis by (simp add: stampRegistry_def Let_def cluster_patches [OF assms(1)])
qed

text \<open>The device behind the address, and a sound cache of clients.\<close>

definition deviceServed :: "fakeDevice sysops \<Rightarrow> golib \<Rightarrow> string \<Rightarrow> nat \<Rightarrow> fakeDevice \<Rightarrow> bool" where
  "deviceServed S G pw n d \<longleftrightarrow>
     servesFake G S \<and> hexDigest G \<and> cooperative d \<and> fakeRoom n d \<and> int64 (fd_Gen d) \<and>
     credentialsMatch G (NewClient [] pw) d"

definition clientSound :: "string \<Rightarrow> (string \<times> Client) gomap \<Rightarrow> bool" where
  "clientSound addr cache \<longleftrightarrow>
     (case map_of cache addr of None \<Rightarrow> True | Some (p, c) \<Rightarrow> cl_host c = addr \<and> cl_password c = p)"

lemma ready_served:
  "deviceReady S G pw addr n w \<Longrightarrow> deviceServed S G pw n (w_env w) \<and> clientSound addr (w_clients w)"
  by (auto simp: deviceReady_def reachable_def deviceServed_def clientSound_def credentialsMatch_def NewClient_def)

lemma deviceClient_makes_ready:
  assumes "deviceServed S G pw n (w_env w)" "clientSound addr (w_clients w)"
  shows "deviceReady S G pw addr n (deviceClient addr pw w)"
proof -
  have m: "credentialsMatch G c (w_env w)" if "cl_password c = pw" for c
    using that assms(1) by (simp add: deviceServed_def credentialsMatch_def NewClient_def)
  have "cl_host c = addr \<and> cl_password c = p" if "map_of (w_clients w) addr = Some (p, c)" for p c
    using assms(2) that by (simp add: clientSound_def)
  then show ?thesis
    using assms(1) m by (auto simp: deviceReady_def reachable_def deviceServed_def deviceClient_def NewClient_def
        map_of_update split: option.splits)
qed

text \<open>
  The operator gets to work on a device: the object is read, online, neither paused nor updating; a
  profile governs it, whose password, names and registry entry resolve.
\<close>

definition governed :: "'e sysops \<Rightarrow> golib \<Rightarrow> k8slib \<Rightarrow> reconciler \<Rightarrow> string \<Rightarrow> string \<Rightarrow> 'e world \<Rightarrow> ShellyDevice \<Rightarrow> ShellyProfile
    \<Rightarrow> string \<Rightarrow> WifiPasswords \<Rightarrow> string \<Rightarrow> bool" where
  "governed S G K R namespace name w dev profile pw wifiPw desiredName \<longleftrightarrow>
     fst (getDevice S namespace name (w_env w)) = Inr dev \<and> \<not> ds_paused (d_spec dev) \<and> st_online (d_status dev) \<and>
     \<not> fst (updateInFlight dev (fst (timeNow S (w_env w)))) \<and>
     (\<exists>profiles. fst (listProfiles S (m_namespace (d_meta dev)) (w_env w)) = Inr profiles \<and>
        fst (MatchProfile K dev profiles) = Some profile) \<and>
     fst (resolveInputs S G R dev profile w) = Inr (pw, wifiPw, desiredName) \<and>
     (\<exists>entry. fst (ResolveRegistry S G dev (rc_registryName R) w) = Inr entry)"

lemma Reconcile_start:
  assumes "clusterAnswers S" "clientSound (st_address (d_status dev)) (w_clients w)" "governed S G K R namespace name w dev profile pw wifiPw dn"
    and "deviceServed S G pw n (w_env w)"
  obtains dev1 warns w2 where "d_status dev1 = d_status dev" "d_spec dev1 = d_spec dev"
    and "deviceReady S G pw (st_address (d_status dev1)) n w2" "fd_config (w_env w2) = fd_config (w_env w)"
    and "fakeJobs (w_env w2) = fakeJobs (w_env w)" "AuthEnabled (w_env w2) = AuthEnabled (w_env w)"
    and "ext (confined readMethods) w w2"
    and "Reconcile S G K R namespace name w =
      checkDrift S G K R (cachedConn S G (st_address (d_status dev1))) dev1 profile dn pw wifiPw
        (cfgJson (fd_config (w_env w2))) warns w2"
proof -
  obtain profiles warns entry where g: "fst (getDevice S namespace name (w_env w)) = Inr dev" "\<not> ds_paused (d_spec dev)"
      "st_online (d_status dev)" "\<not> fst (updateInFlight dev (fst (timeNow S (w_env w))))"
      "fst (listProfiles S (m_namespace (d_meta dev)) (w_env w)) = Inr profiles"
      "MatchProfile K dev profiles = (Some profile, warns)"
      "fst (resolveInputs S G R dev profile w) = Inr (pw, wifiPw, dn)"
      "fst (ResolveRegistry S G dev (rc_registryName R) w) = Inr entry"
    using assms(3) unfolding governed_def by (metis prod.collapse)
  have inp: "resolveInputs S G R dev profile w = (Inr (pw, wifiPw, dn), w)"
    using resolveInputs_quiet [OF assms(1)] g(7) by (metis prod.collapse)
  obtain dev1 w1 where w1: "stampRegistry S G K R dev w = (None, dev1, w1)" "d_status dev1 = d_status dev"
      "d_spec dev1 = d_spec dev" "w_env w1 = w_env w" "w_clients w1 = w_clients w"
    using stampRegistry_ok [OF assms(1) g(8)] by blast
  let ?addr = "st_address (d_status dev1)"
  let ?cn = "cachedConn S G ?addr"
  have r: "deviceReady S G pw ?addr n (deviceClient ?addr pw w1)"
    using deviceClient_makes_ready [of S G pw n w1 ?addr] assms(2,4) w1(2,4,5) by simp
  have env: "w_env (deviceClient ?addr pw w1) = w_env w"
    by (simp add: deviceClient_def w1(4) split: option.splits prod.splits)
  obtain w2 where w2: "GetConfig ?cn (deviceClient ?addr pw w1) = (Inr (cfgJson (fd_config (w_env w2))), w2)"
      "deviceReady S G pw ?addr n w2" "fd_config (w_env w2) = fd_config (w_env w)" "fakeJobs (w_env w2) = fakeJobs (w_env w)"
      "AuthEnabled (w_env w2) = AuthEnabled (w_env w)"
    using networkedDevice.get_ok [OF r] env by auto
  have "''Shelly.GetConfig'' \<in> readMethods" by (simp add: readMethods_def)
  from ext_trans [OF stampRegistry_ext [OF w1(1)] ext_trans [OF deviceClient_ext cached.read_ext(1) [OF w2(1) this]]]
  have "ext (confined readMethods) w w2" .
  moreover have "Reconcile S G K R namespace name w = checkDrift S G K R ?cn dev1 profile dn pw wifiPw
      (cfgJson (fd_config (w_env w2))) (appendProfileWarnings profile dn warns) w2"
    using g(1-6) by (simp add: Reconcile_def cluster_reads [OF assms(1)] Let_def split_beta reconcileProfile_def inp w1(1) w2(1))
  ultimately show thesis using that w1(2,3) w2(2-5) by blast
qed

text \<open>
  A device at rest: served under the password, its cached client sound, and with everything the
  profile declares.
\<close>

definition settled :: "fakeDevice sysops \<Rightarrow> golib \<Rightarrow> ShellyProfile \<Rightarrow> string \<Rightarrow> string \<Rightarrow> string \<Rightarrow> fakeDevice world \<Rightarrow> bool" where
  "settled S G profile desiredName pw addr w \<longleftrightarrow>
     deviceServed S G pw 0 (w_env w) \<and> clientSound addr (w_clients w) \<and> conforms G profile desiredName (w_env w)"

text \<open>
  C1: Reconciliation converges, end to end. The API server answers and stores what it is sent,
  the network serves the emulated device, whose password the profile's secret holds; the device
  is governed by a profile that enforces and opted into neither reboots nor firmware updates, the
  last cycle did not find it impossible to converge, and where the profile manages
  authentication, the object records its state. Then one \<open>Reconcile\<close>, through the client cache, digest
  authentication and HTTP, ends with a regular requeue, leaves the device with every declared
  configuration value, authentication switched as declared, and every declared firmware job and
  schedule job, and records in its status that it is in sync
  with that profile and that no section drifts.
\<close>

theorem Reconcile_converges:
  assumes "clusterAnswers S" "condition_laws K" "clientSound (st_address (d_status dev)) (w_clients w)"
    and "governed S G K R namespace name w dev profile pw wifiPw desiredName" "enforcing profile" "undamped K dev"
    and "deviceServed S G pw (jobRoom profile) (w_env w)" "enforceableProfile G profile pw (w_env w)"
    and "authKnown profile (st_authEnabled (d_status dev)) (w_env w)"
  shows "\<exists>w'. Reconcile S G K R namespace name w = (Inr (jitter R), w') \<and>
    settled S G profile desiredName pw (st_address (d_status dev)) w' \<and> recorded K profile w w'"
proof -
  obtain dev1 warns w2 where d: "d_status dev1 = d_status dev" "d_spec dev1 = d_spec dev"
      and r: "deviceReady S G pw (st_address (d_status dev1)) (jobRoom profile) w2"
      and c: "fd_config (w_env w2) = fd_config (w_env w)" "AuthEnabled (w_env w2) = AuthEnabled (w_env w)" and x: "ext (confined readMethods) w w2"
      and R: "Reconcile S G K R namespace name w =
        checkDrift S G K R (cachedConn S G (st_address (d_status dev1))) dev1 profile desiredName pw wifiPw
          (cfgJson (fd_config (w_env w2))) warns w2"
    by (rule Reconcile_start [OF assms(1,3,4,7)])
  have e: "enforceableProfile G profile pw (w_env w2)" using assms(8) c by (simp add: enforceableProfile_def)
  have u: "undamped K dev1" "\<not> ds_paused (d_spec dev1)" "authKnown profile (st_authEnabled (d_status dev1)) (w_env w2)"
    using assms(4,6,9) d c by (simp_all add: undamped_def governed_def authKnown_def)
  have r0: "deviceReady S G pw (st_address (d_status dev1)) (jobRoom profile + 0) w2" using r by simp
  from checkDrift_ok [OF assms(1,2,5) r0 e u, of R desiredName wifiPw warns]
  obtain w' where "Reconcile S G K R namespace name w = (Inr (jitter R), w')" "conforms G profile desiredName (w_env w')"
      "recorded K profile w2 w'" "deviceReady S G pw (st_address (d_status dev)) 0 w'"
    unfolding R d by blast
  then show ?thesis using recorded_after [OF x] ready_served by (auto simp: settled_def)
qed

text \<open>One more reconciliation of a device at rest.\<close>

lemma Reconcile_steady:
  assumes "clusterAnswers S" "condition_laws K" "settled S G profile desiredName pw (st_address (d_status dev)) w"
    and "governed S G K R namespace name w dev profile pw wifiPw desiredName" "enforcing profile" "authKnown profile (st_authEnabled (d_status dev)) (w_env w)"
  shows "\<exists>w'. Reconcile S G K R namespace name w = (Inr (jitter R), w') \<and> recorded K profile w w' \<and>
    settled S G profile desiredName pw (st_address (d_status dev)) w' \<and>
    fd_config (w_env w') = fd_config (w_env w) \<and> fakeJobs (w_env w') = fakeJobs (w_env w) \<and> ext (confined readMethods) w w'"
proof -
  have rest: "clientSound (st_address (d_status dev)) (w_clients w)" "deviceServed S G pw 0 (w_env w)"
      "conforms G profile desiredName (w_env w)"
    using assms(3) by (simp_all add: settled_def)
  obtain dev1 warns w2 where d: "d_status dev1 = d_status dev" "d_spec dev1 = d_spec dev"
      and r: "deviceReady S G pw (st_address (d_status dev1)) 0 w2"
      and c: "fd_config (w_env w2) = fd_config (w_env w)" "fakeJobs (w_env w2) = fakeJobs (w_env w)"
        "AuthEnabled (w_env w2) = AuthEnabled (w_env w)"
      and x: "ext (confined readMethods) w w2"
      and R: "Reconcile S G K R namespace name w =
        checkDrift S G K R (cachedConn S G (st_address (d_status dev1))) dev1 profile desiredName pw wifiPw
          (cfgJson (fd_config (w_env w2))) warns w2"
    by (rule Reconcile_start [OF assms(1) rest(1) assms(4) rest(2)])
  have f: "conforms G profile desiredName (w_env w2)" using rest(3) c by (simp add: conforms_def)
  have np: "\<not> ds_paused (d_spec dev1)" "authKnown profile (st_authEnabled (d_status dev1)) (w_env w2)"
    using assms(4,6) d c by (simp_all add: governed_def authKnown_def)
  from checkDrift_steady [OF assms(1,2,5) r np(2) f np(1), of R wifiPw warns]
  obtain w' where w': "Reconcile S G K R namespace name w = (Inr (jitter R), w')" "fd_config (w_env w') = fd_config (w_env w)"
      "fakeJobs (w_env w') = fakeJobs (w_env w)" "AuthEnabled (w_env w') = AuthEnabled (w_env w)" "recorded K profile w2 w'" "ext (confined readMethods) w2 w'"
      "deviceReady S G pw (st_address (d_status dev)) 0 w'"
    unfolding R c d by blast
  then have "settled S G profile desiredName pw (st_address (d_status dev)) w'"
    using ready_served rest(3) by (auto simp: settled_def conforms_def)
  then show ?thesis using w' recorded_after [OF x] ext_trans [OF x] by blast
qed

text \<open>
  Any number of reconciliations of one device at one address, each under the same profile and with
  the same inputs, and the objects they read. What discovery and others store in between may differ
  from one to the next.
\<close>

inductive reconcileRun :: "fakeDevice sysops \<Rightarrow> golib \<Rightarrow> k8slib \<Rightarrow> reconciler \<Rightarrow> string \<Rightarrow> string \<Rightarrow> ShellyProfile \<Rightarrow> string \<Rightarrow> string \<Rightarrow> string
    \<Rightarrow> fakeDevice world \<Rightarrow> ShellyDevice list \<Rightarrow> fakeDevice world \<Rightarrow> bool"
  for S G K R namespace name profile pw desiredName addr w where
  run_start: "reconcileRun S G K R namespace name profile pw desiredName addr w [] w"
| run_step: "reconcileRun S G K R namespace name profile pw desiredName addr w devs w1 \<Longrightarrow>
    governed S G K R namespace name w1 dev profile pw wifiPw desiredName \<Longrightarrow> st_address (d_status dev) = addr \<Longrightarrow>
    Reconcile S G K R namespace name w1 = (out, w2) \<Longrightarrow>
    reconcileRun S G K R namespace name profile pw desiredName addr w (devs @ [dev]) w2"

text \<open>
  The object records the state of authentication that the profile declares, if it declares one. A
  sweep sees to that once the device is so; the reconciliation that switches it does not.
\<close>

definition authRecorded :: "ShellyProfile \<Rightarrow> ShellyDevice \<Rightarrow> bool" where
  "authRecorded profile dev \<longleftrightarrow>
     authEnableOf profile = None \<or> authEnableOf profile = Some (st_authEnabled (d_status dev))"

lemma authRecorded_known:
  "settled S G profile desiredName pw addr w \<Longrightarrow> authRecorded profile dev \<Longrightarrow>
   authKnown profile (st_authEnabled (d_status dev)) (w_env w)"
  by (auto simp: settled_def conforms_def authRecorded_def authKnown_def authPart_def split: if_splits)

text \<open>
  C2: Once converged and swept, the operator is silent. The profile enforces and opted into neither
  reboots nor firmware updates, and every object that is read records the authentication that the
  profile declares, if it declares one. Then from a device that has everything the profile
  declares, which is where a reconciliation that converges ends, any number of further
  reconciliations send nothing but the three reading methods, leave the configuration and the jobs
  of the device as they are, and end at rest again.
\<close>

theorem Reconcile_stays_settled:
  assumes "clusterAnswers S" "condition_laws K" "enforcing profile"
    and "settled S G profile desiredName pw addr w"
    and "reconcileRun S G K R namespace name profile pw desiredName addr w devs w'"
    and "list_all (authRecorded profile) devs"
  shows "settled S G profile desiredName pw addr w' \<and>
    fd_config (w_env w') = fd_config (w_env w) \<and> fakeJobs (w_env w') = fakeJobs (w_env w) \<and>
    (\<exists>xs. w_trace w' = w_trace w @ xs \<and>
       list_all (confined {''Shelly.GetConfig'', ''Sys.GetStatus'', ''Schedule.List''}) xs)"
proof -
  have "settled S G profile desiredName pw addr w' \<and> fd_config (w_env w') = fd_config (w_env w) \<and>
      fakeJobs (w_env w') = fakeJobs (w_env w) \<and> ext (confined readMethods) w w'"
    using assms(5,6)
  proof (induction rule: reconcileRun.induct)
    case run_start
    then show ?case using assms(4) by simp
  next
    case (run_step devs w1 dev wifiPw out w2)
    then have s: "settled S G profile desiredName pw (st_address (d_status dev)) w1" and "authRecorded profile dev"
      by auto
    from Reconcile_steady [OF assms(1,2) s run_step(2) assms(3) authRecorded_known [OF this]] show ?case
      using run_step ext_trans by fastforce
  qed
  then show ?thesis by (simp add: ext_def readMethods_def)
qed

text \<open>
  A fleet of one device whose cloud connection is on and whose authentication is off, under a
  profile that turns the one off and the other on.
\<close>

definition lockedDown :: ShellyProfile where
  "lockedDown = (exampleProfile ''plugs'' 1)\<lparr>p_spec := (p_spec (exampleProfile ''plugs'' 1))\<lparr>
     ps_config := emptyConfig\<lparr>pc_cloud := Some \<lparr>cloud_enable = Some False\<rparr>,
       pc_auth := Some \<lparr>auth_enable = Some True,
         auth_passwordSecretRef = Some \<lparr>skr_name = ''creds'', skr_key = ''password''\<rparr>\<rparr>\<rparr>\<rparr>\<rparr>"

text \<open>Discovery keeps the recorded state of authentication up to date.\<close>

definition plugObject :: "fakeDevice \<Rightarrow> ShellyDevice" where
  "plugObject d = exampleDevice\<lparr>d_status := exampleStatus\<lparr>st_authEnabled := AuthEnabled d\<rparr>\<rparr>"

definition plugOps :: "fakeDevice sysops" where
  "plugOps = (fakeOps hexLib)\<lparr>getDevice := (\<lambda>ns n d. (Inr (plugObject d), d)),
     listProfiles := (\<lambda>ns d. (Inr [lockedDown], d)),
     getSecret := (\<lambda>ns n d. (Inr [(''password'', ''tarn'')], d))\<rparr>"

definition openPlug :: fakeDevice where
  "openPlug = exampleFake\<lparr>fd_config := [(''cloud'', [(''enable'', JBool True)])]\<rparr>"

definition lockedPlug :: fakeDevice where
  "lockedPlug = exampleFake\<lparr>fd_config := [(''cloud'', [(''enable'', JBool False)])],
     fd_ha1 := sha256hex hexLib ''admin:shellyplug-1:tarn''\<rparr>"

lemma plug_cluster: "clusterAnswers plugOps"
  by (simp add: clusterAnswers_def plugOps_def fakeOps_def)

lemma plug_address: "st_address (d_status (plugObject d)) = ''10.0.0.9''"
  by (simp add: plugObject_def example_defs)

lemma plug_known: "authKnown lockedDown (st_authEnabled (d_status (plugObject d))) d"
  by (simp add: authKnown_def plugObject_def)

lemma plug_served:
  assumes "d \<in> {openPlug, lockedPlug}"
  shows "deviceServed plugOps hexLib ''tarn'' (jobRoom lockedDown) d"
proof -
  have "servesFake hexLib plugOps" using servesFake_fakeOps [of hexLib] by (simp add: servesFake_def plugOps_def)
  moreover have "plainText ''shellyplug-1''" "jobRoom lockedDown \<le> 8" by (code_simp, code_simp)
  ultimately show ?thesis
    using assms by (auto simp: deviceServed_def hexDigest_hexLib cooperative_def fakeRoom_def credentialsMatch_def fakeJobs_def
        openPlug_def lockedPlug_def exampleFake_def int64_def NewClient_def)
qed

lemma plug_enforceable: "enforceableProfile hexLib lockedDown ''tarn'' openPlug"
proof -
  have "\<not> isSwitchKey ''cloud''" by code_simp
  then show ?thesis
    by (simp add: enforceableProfile_def enforceable_def lockedDown_def openPlug_def exampleFake_def example_defs
        cfgJson_def locationSane_def authEnableOf_def scheduleSectionOf_def)
qed

lemma plug_governed:
  "governed plugOps hexLib exampleK8s exampleReconciler ''home'' ''aabb'' w (plugObject (w_env w)) lockedDown ''tarn''
     \<lparr>wp_sta = [], wp_sta1 = []\<rparr> []"
proof -
  let ?dev = "plugObject (w_env w)"
  have get: "fst (getDevice plugOps ''home'' ''aabb'' (w_env w)) = Inr ?dev"
      "fst (listProfiles plugOps (m_namespace (d_meta ?dev)) (w_env w)) = Inr [lockedDown]"
      "timeNow plugOps (w_env w) = (0, w_env w)"
    by (simp_all add: plugOps_def fakeOps_def)
  have "\<not> ds_paused (d_spec exampleDevice)" "st_online (d_status exampleDevice)" "\<not> fst (updateInFlight exampleDevice 0)"
      "fst (MatchProfile exampleK8s exampleDevice [lockedDown]) = Some lockedDown"
    by (code_simp, code_simp, code_simp, code_simp)
  then have dev: "\<not> ds_paused (d_spec ?dev)" "st_online (d_status ?dev)" "\<not> fst (updateInFlight ?dev 0)"
      "fst (MatchProfile exampleK8s ?dev [lockedDown]) = Some lockedDown"
    by (simp_all add: plugObject_def example_defs updateInFlight_def MatchProfile_def)
  have "fst (resolveInputs plugOps hexLib exampleReconciler ?dev lockedDown w) =
      Inr (''tarn'', \<lparr>wp_sta = [], wp_sta1 = []\<rparr>, [])"
    by (simp add: resolveInputs_def ResolvePassword_def secretValue_def askEnv_def plugOps_def ResolveWifiPasswords_def ResolveName_def
        ResolveRegistry_def lockedDown_def plugObject_def exampleReconciler_def example_defs zeroEntry_def)
  moreover have "fst (ResolveRegistry plugOps hexLib ?dev (rc_registryName exampleReconciler) w) = Inr zeroEntry"
    by (simp add: ResolveRegistry_def exampleReconciler_def)
  ultimately show ?thesis unfolding governed_def using get dev by auto
qed

theorem Reconcile_converges_witness:
  "\<exists>w'. Reconcile plugOps hexLib exampleK8s exampleReconciler ''home'' ''aabb'' (freshWorld openPlug) =
      (Inr (jitter exampleReconciler), w') \<and>
    settled plugOps hexLib lockedDown [] ''tarn'' ''10.0.0.9'' w' \<and> recorded exampleK8s lockedDown (freshWorld openPlug) w' \<and>
    AuthEnabled (w_env w') \<and> \<not> AuthEnabled openPlug"
proof -
  let ?w = "freshWorld openPlug" and ?dev = "plugObject openPlug"
  have env: "w_env ?w = openPlug" "w_clients ?w = []" by (simp_all add: freshWorld_def)
  have g: "governed plugOps hexLib exampleK8s exampleReconciler ''home'' ''aabb'' ?w ?dev lockedDown ''tarn'' \<lparr>wp_sta = [], wp_sta1 = []\<rparr> []"
    using plug_governed [of ?w] by (simp add: env)
  have "enforcing lockedDown" "undamped exampleK8s exampleDevice" by (code_simp, code_simp)
  then have u: "enforcing lockedDown" "undamped exampleK8s ?dev" by (simp_all add: undamped_def plugObject_def example_defs)
  have c: "clientSound (st_address (d_status ?dev)) (w_clients ?w)" by (simp add: clientSound_def env)
  have "deviceServed plugOps hexLib ''tarn'' (jobRoom lockedDown) (w_env ?w)" "enforceableProfile hexLib lockedDown ''tarn'' (w_env ?w)"
    "authKnown lockedDown (st_authEnabled (d_status ?dev)) (w_env ?w)"
    unfolding env by (simp add: plug_served, rule plug_enforceable, rule plug_known)
  from Reconcile_converges [OF plug_cluster condition_laws_example c g u this] obtain w' where
    w': "Reconcile plugOps hexLib exampleK8s exampleReconciler ''home'' ''aabb'' ?w = (Inr (jitter exampleReconciler), w')"
      "settled plugOps hexLib lockedDown [] ''tarn'' ''10.0.0.9'' w'" "recorded exampleK8s lockedDown ?w w'"
    by (auto simp: plug_address)
  moreover have "authEnableOf lockedDown = Some True" "\<not> AuthEnabled openPlug" by (code_simp, code_simp)
  ultimately show ?thesis by (auto simp: settled_def conforms_def authPart_def split: if_splits)
qed

theorem Reconcile_stays_settled_witness:
  "\<exists>w'. reconcileRun plugOps hexLib exampleK8s exampleReconciler ''home'' ''aabb'' lockedDown ''tarn'' [] ''10.0.0.9''
      (freshWorld lockedPlug) [plugObject lockedPlug] w' \<and>
    w_trace w' \<noteq> [] \<and> fd_config (w_env w') = fd_config lockedPlug \<and>
    list_all (confined {''Shelly.GetConfig'', ''Sys.GetStatus'', ''Schedule.List''}) (w_trace w')"
proof -
  let ?w = "freshWorld lockedPlug" and ?a = "''10.0.0.9''"
  let ?run = "reconcileRun plugOps hexLib exampleK8s exampleReconciler ''home'' ''aabb'' lockedDown ''tarn'' [] ?a"
  have env: "w_env ?w = lockedPlug" "w_clients ?w = []" "w_trace ?w = []" by (simp_all add: freshWorld_def)
  have u: "enforcing lockedDown" "conforms hexLib lockedDown [] lockedPlug" by (code_simp, code_simp)
  have "deviceServed plugOps hexLib ''tarn'' 0 lockedPlug"
    using plug_served [of lockedPlug] by (simp add: deviceServed_def fakeRoom_def)
  then have s: "settled plugOps hexLib lockedDown [] ''tarn'' ?a ?w" using u(2) by (simp add: settled_def env clientSound_def)
  obtain out w1 where r: "Reconcile plugOps hexLib exampleK8s exampleReconciler ''home'' ''aabb'' ?w = (out, w1)" by force
  have run: "?run ?w [plugObject lockedPlug] w1"
    using run_step [OF run_start plug_governed plug_address r] by (simp add: env)
  have a: "list_all (authRecorded lockedDown) [plugObject lockedPlug]" by code_simp
  have "w_trace w1 \<noteq> []"
    using Reconcile_steady [OF plug_cluster condition_laws_example s [folded plug_address [of "w_env (freshWorld lockedPlug)"]] plug_governed u(1) plug_known] r
    by (auto simp: recorded_def)
  then show ?thesis
    using Reconcile_stays_settled [OF plug_cluster condition_laws_example u(1) s run a] run env by auto
qed

end
