(* ===== verification/Cidr.thy ===== *)
theory Cidr
  imports Prelude
begin

text \<open>
  \<open>internal/discovery/cidr.go\<close>: expanding IPv4 prefixes into the host addresses to probe, with
  what it uses of \<open>net/netip\<close> (addresses as 32-bit words). Whether a text that is no IPv4 prefix
  is an IPv6 prefix only selects the error, and is a parameter.
\<close>

unbundle bit_operations_syntax

section \<open>net/netip\<close>

type_synonym addr4 = "32 word"

record prefix4 =
  pf_addr :: addr4
  pf_bits :: nat

text \<open>One decimal field of an address: no empty field, no leading zero, at most 255.\<close>

definition octet :: "string \<Rightarrow> nat option" where
  "octet s =
     (if s = [] \<or> \<not> list_all isDigitByte s \<or> (length s > 1 \<and> hd s = CHR ''0'') then None
      else (let n = foldl (\<lambda>acc c. acc * 10 + digitVal c) 0 s in if n > 255 then None else Some n))"

fun splitOn :: "char \<Rightarrow> string \<Rightarrow> string list" where
  "splitOn d [] = [[]]"
| "splitOn d (c # cs) =
     (if c = d then [] # splitOn d cs
      else (case splitOn d cs of f # fs \<Rightarrow> (c # f) # fs | [] \<Rightarrow> [[c]]))"

definition addrOf :: "nat \<Rightarrow> nat \<Rightarrow> nat \<Rightarrow> nat \<Rightarrow> addr4" where
  "addrOf a b c d = of_int (((int a * 256 + int b) * 256 + int c) * 256 + int d)"

definition parseAddr4 :: "string \<Rightarrow> addr4 option" where
  "parseAddr4 s =
     (case map octet (splitOn (CHR ''.'') s) of
        [Some a, Some b, Some c, Some d] \<Rightarrow> Some (addrOf a b c d)
      | _ \<Rightarrow> None)"

text \<open>\<open>ParsePrefix\<close> on IPv4 text: the bits follow the last slash, without sign or leading zero.\<close>

definition parsePrefix4 :: "string \<Rightarrow> prefix4 option" where
  "parsePrefix4 s =
     (if CHR ''/'' \<notin> set s then None
      else
        (let bitsStr = rev (takeWhile (\<lambda>c. c \<noteq> CHR ''/'') (rev s));
             ip = take (length s - length bitsStr - 1) s
         in case (parseAddr4 ip, bitsStr) of
              (Some a, b # bs) \<Rightarrow>
                if bs \<noteq> [] \<and> \<not> (byte (CHR ''1'') \<le> byte b \<and> byte b \<le> byte (CHR ''9'')) then None
                else
                  (case atoi bitsStr of
                     Some n \<Rightarrow> if n < 0 \<or> n > 32 then None else Some \<lparr>pf_addr = a, pf_bits = nat n\<rparr>
                   | None \<Rightarrow> None)
            | _ \<Rightarrow> None))"

definition masked :: "prefix4 \<Rightarrow> prefix4" where
  "masked p = p\<lparr>pf_addr := push_bit (32 - pf_bits p) (drop_bit (32 - pf_bits p) (pf_addr p))\<rparr>"

text \<open>\<open>Contains\<close>, and \<open>Next\<close> with the invalid address after the last one.\<close>

definition contains :: "prefix4 \<Rightarrow> addr4 option \<Rightarrow> bool" where
  "contains p a = (case a of None \<Rightarrow> False | Some x \<Rightarrow> drop_bit (32 - pf_bits p) (x XOR pf_addr p) = 0)"

definition addrNext :: "addr4 \<Rightarrow> addr4 option" where
  "addrNext x = (if x + 1 = 0 then None else Some (x + 1))"

definition addrString :: "addr4 \<Rightarrow> string" where
  "addrString x =
     (let n = uint x
      in itoa (n div 16777216) @ ''.'' @ itoa (n div 65536 mod 256) @ ''.'' @ itoa (n div 256 mod 256)
         @ ''.'' @ itoa (n mod 256))"

section \<open>cidr.go\<close>

abbreviation maxSweepHosts :: nat where
  "maxSweepHosts \<equiv> 4096"

definition isLastInPrefix :: "addr4 \<Rightarrow> prefix4 \<Rightarrow> bool" where
  "isLastInPrefix a p \<longleftrightarrow> \<not> contains p (addrNext a)"

function expandLoop :: "prefix4 \<Rightarrow> addr4 option \<Rightarrow> string list \<Rightarrow> go_error + string list" where
  "expandLoop p a hosts =
     (case a of
        None \<Rightarrow> Inr hosts
      | Some x \<Rightarrow>
          if \<not> contains p a then Inr hosts
          else if pf_bits p < 31 \<and> (x = pf_addr p \<or> isLastInPrefix x p) then expandLoop p (addrNext x) hosts
          else if length hosts + 1 > maxSweepHosts
          then Inl (ErrText (''discovery: CIDRs expand to more than '' @ natStr maxSweepHosts @ '' hosts''))
          else expandLoop p (addrNext x) (hosts @ [addrString x]))"
  by pat_completeness auto

lemma addr_bound: "unat (x :: addr4) < 4294967296"
  using unsigned_less [of x] by simp

lemma addrNext_Some:
  assumes "addrNext x = Some y"
  shows "y = x + 1 \<and> unat y = unat x + 1"
proof -
  have "y = x + 1" "1 + x \<noteq> 0" using assms by (auto simp: addrNext_def add.commute split: if_splits)
  then show ?thesis using unatSuc [of x] by (simp add: add.commute)
qed

definition addrsLeft :: "addr4 option \<Rightarrow> nat" where
  "addrsLeft a = (case a of None \<Rightarrow> 0 | Some x \<Rightarrow> 4294967296 - unat x)"

lemma addrsLeft_next: "addrsLeft (addrNext x) < addrsLeft (Some x)"
proof (cases "addrNext x")
  case None
  then show ?thesis using addr_bound [of x] by (simp add: addrsLeft_def)
next
  case (Some y)
  then show ?thesis using addr_bound [of x] addrNext_Some [OF Some] by (auto simp: addrsLeft_def)
qed

termination expandLoop
  by (relation "measure (\<lambda>(p, a, hosts). addrsLeft a)") (auto simp: addrsLeft_next)

declare expandLoop.simps [simp del]

fun expandCIDRLoop :: "(string \<Rightarrow> bool) \<Rightarrow> string list \<Rightarrow> string list \<Rightarrow> go_error + string list" where
  "expandCIDRLoop isPrefix6 [] hosts = Inr hosts"
| "expandCIDRLoop isPrefix6 (c # cs) hosts =
     (case parsePrefix4 c of
        None \<Rightarrow>
          if isPrefix6 c then Inl (ErrText (''discovery: only IPv4 CIDRs supported, got '' @ quoted c))
          else Inl (ErrWrap (''discovery: bad CIDR '' @ quoted c @ '': '') (ErrText ''netip.ParsePrefix''))
      | Some p \<Rightarrow>
          (let p = masked p
           in case expandLoop p (Some (pf_addr p)) hosts of
                Inl err \<Rightarrow> Inl err
              | Inr hosts \<Rightarrow> expandCIDRLoop isPrefix6 cs hosts))"

definition ExpandCIDRs :: "(string \<Rightarrow> bool) \<Rightarrow> string list \<Rightarrow> go_error + string list" where
  "ExpandCIDRs isPrefix6 cidrs = expandCIDRLoop isPrefix6 cidrs []"

section \<open>What is expanded\<close>

text \<open>The host addresses of a prefix: all but the first and last, or all of them from /31 on.\<close>

definition prefixHosts :: "prefix4 \<Rightarrow> string list" where
  "prefixHosts p =
     (let f = unat (pf_addr (masked p)); n = 2 ^ (32 - pf_bits p)
      in map (\<lambda>j. addrString (of_nat j)) (if pf_bits p < 31 then [f + 1 ..< f + n - 1] else [f ..< f + n]))"

text \<open>Addresses as numbers.\<close>

definition addrAt :: "nat \<Rightarrow> addr4 option" where
  "addrAt j = (if j < 4294967296 then Some (of_nat j) else None)"

lemma unat_of_nat_addr: "j < 4294967296 \<Longrightarrow> unat (of_nat j :: addr4) = j"
  by (simp add: unat_of_nat take_bit_nat_eq_self)

lemma addrNext_at: "j < 4294967296 \<Longrightarrow> addrNext (of_nat j) = addrAt (j + 1)"
proof -
  assume j: "j < 4294967296"
  have suc: "(of_nat j + 1 :: addr4) = of_nat (Suc j)" by simp
  have "(of_nat (Suc j) :: addr4) = 0 \<longleftrightarrow> 4294967296 dvd Suc j"
    using word_of_nat_eq_0_iff [where 'a = 32, of "Suc j"] by simp
  also have "\<dots> \<longleftrightarrow> j + 1 = 4294967296" using j dvd_imp_le [of 4294967296 "Suc j"] by auto
  finally have "(of_nat j + 1 :: addr4) = 0 \<longleftrightarrow> j + 1 = 4294967296" unfolding suc .
  then show ?thesis using j by (auto simp: addrNext_def addrAt_def add.commute)
qed

lemma contains_None [simp]: "\<not> contains p None"
  by (simp add: contains_def)

lemma unat_drop_bit: "unat (drop_bit k (x :: addr4)) = unat x div 2 ^ k"
proof -
  have "unat (drop_bit k x) = drop_bit k (unat x)"
    using addr_bound [of x] by (simp add: unsigned_drop_bit_eq take_bit_nat_eq_self)
  then show ?thesis by (simp only: drop_bit_eq_div)
qed

lemma contains_div:
  "contains p (Some x) \<longleftrightarrow> unat x div 2 ^ (32 - pf_bits p) = unat (pf_addr p) div 2 ^ (32 - pf_bits p)"
proof -
  let ?k = "32 - pf_bits p"
  have xor_zero: "u XOR v = 0 \<longleftrightarrow> u = v" for u v :: addr4
  proof
    assume "u XOR v = 0"
    then have "(u XOR v) XOR v = v" by simp
    then show "u = v" by (simp only: xor.assoc xor_self_eq xor.right_neutral)
  qed simp
  have "contains p (Some x) \<longleftrightarrow> drop_bit ?k x = drop_bit ?k (pf_addr p)"
    using xor_zero by (simp add: contains_def drop_bit_xor)
  also have "\<dots> \<longleftrightarrow> unat (drop_bit ?k x) = unat (drop_bit ?k (pf_addr p))" by (rule word_unat_eq_iff)
  also have "\<dots> \<longleftrightarrow> unat x div 2 ^ ?k = unat (pf_addr p) div 2 ^ ?k" by (simp only: unat_drop_bit)
  finally show ?thesis .
qed

lemma masked_bits [simp]: "pf_bits (masked p) = pf_bits p"
  by (simp add: masked_def)

lemma masked_addr: "unat (pf_addr (masked p)) = unat (pf_addr p) div 2 ^ (32 - pf_bits p) * 2 ^ (32 - pf_bits p)"
proof -
  let ?k = "32 - pf_bits p" and ?a = "unat (pf_addr p)"
  have le: "?a div 2 ^ ?k * 2 ^ ?k \<le> ?a" by simp
  then have lt: "?a div 2 ^ ?k * 2 ^ ?k < 4294967296" using addr_bound [of "pf_addr p"] by linarith
  have "unat (pf_addr (masked p)) = take_bit 32 (push_bit ?k (drop_bit ?k ?a))"
    using addr_bound [of "pf_addr p"]
    by (simp add: masked_def unsigned_push_bit_eq unsigned_drop_bit_eq take_bit_nat_eq_self)
  also have "\<dots> = ?a div 2 ^ ?k * 2 ^ ?k"
    using lt by (simp add: push_bit_eq_mult drop_bit_eq_div take_bit_nat_eq_self)
  finally show ?thesis .
qed

text \<open>A prefix in the form the loop works on: masked, with the numbers of its addresses.\<close>

locale masked_prefix =
  fixes p :: prefix4 and f n :: nat
  assumes f_def: "f = unat (pf_addr p)" and n_def: "n = 2 ^ (32 - pf_bits p)"
    and aligned: "n dvd f"
begin

lemma n_pos: "0 < n"
  by (simp add: n_def)

lemma within: "f + n \<le> 4294967296"
proof -
  have "n dvd 2 ^ 32" unfolding n_def by (rule le_imp_power_dvd) simp
  then have "n dvd 4294967296 - f" using aligned by (simp add: dvd_diff_nat)
  moreover have "0 < 4294967296 - f" using addr_bound [of "pf_addr p"] by (simp add: f_def)
  ultimately have "n \<le> 4294967296 - f" by (rule dvd_imp_le)
  then show ?thesis using \<open>0 < 4294967296 - f\<close> by linarith
qed

lemma contains_at: "f \<le> j \<Longrightarrow> contains p (addrAt j) \<longleftrightarrow> j < f + n"
proof -
  assume j: "f \<le> j"
  have "j div n = f div n \<longleftrightarrow> j < f + n" if "j < 4294967296"
  proof -
    obtain q where q: "f = n * q" using aligned by blast
    show ?thesis
    proof
      assume "j div n = f div n"
      then have "j div n = q" using q n_pos by simp
      then show "j < f + n" using q n_pos div_mult_mod_eq [of j n] mod_less_divisor [OF n_pos, of j] by (simp add: mult.commute)
    next
      assume lt: "j < f + n"
      define r where "r = j - f"
      have "j = r + n * q" "r < n" using j lt q by (auto simp: r_def)
      then show "j div n = f div n" using q n_pos by simp
    qed
  qed
  then show ?thesis using within
    by (auto simp: addrAt_def contains_div unat_of_nat_addr f_def n_def)
qed

lemma last_at: "f \<le> j \<Longrightarrow> j < f + n \<Longrightarrow> isLastInPrefix (of_nat j) p \<longleftrightarrow> j = f + n - 1"
  using contains_at [of "j + 1"] addrNext_at [of j] within by (auto simp: isLastInPrefix_def)

lemma first_at: "j < f + n \<Longrightarrow> (of_nat j :: addr4) = pf_addr p \<longleftrightarrow> j = f"
  using within by (simp add: word_unat_eq_iff unat_of_nat_addr f_def)

text \<open>The addresses the loop keeps from number \<open>j\<close> on.\<close>

definition kept :: "nat \<Rightarrow> string list" where
  "kept j = map (\<lambda>i. addrString (of_nat i))
     (filter (\<lambda>i. \<not> (pf_bits p < 31 \<and> (i = f \<or> i = f + n - 1))) [j ..< f + n])"

lemma kept_step:
  "j < f + n \<Longrightarrow> kept j = (if pf_bits p < 31 \<and> (j = f \<or> j = f + n - 1) then kept (Suc j)
     else addrString (of_nat j) # kept (Suc j))"
  by (simp add: kept_def upt_conv_Cons)

lemma expandLoop_at:
  "f \<le> j \<Longrightarrow> j \<le> f + n \<Longrightarrow> length hosts \<le> maxSweepHosts \<Longrightarrow>
   expandLoop p (addrAt j) hosts =
     (if length hosts + length (kept j) > maxSweepHosts
      then Inl (ErrText (''discovery: CIDRs expand to more than '' @ natStr maxSweepHosts @ '' hosts''))
      else Inr (hosts @ kept j))"
proof (induction "f + n - j" arbitrary: j hosts)
  case 0
  then have "j = f + n" by simp
  then have "\<not> contains p (addrAt j)" "kept j = []" using contains_at [of j] by (simp_all add: kept_def)
  then show ?case using 0 by (subst expandLoop.simps) (auto split: option.splits)
next
  case (Suc d)
  then have j: "j < f + n" "f \<le> j" by simp_all
  have at: "addrAt j = Some (of_nat j)" using j within by (simp add: addrAt_def)
  have cont: "contains p (Some (of_nat j))" using contains_at [of j] j at by simp
  have nxt: "addrNext (of_nat j) = addrAt (Suc j)" using addrNext_at [of j] j within by simp
  have skip: "(of_nat j :: addr4) = pf_addr p \<or> isLastInPrefix (of_nat j) p \<longleftrightarrow> j = f \<or> j = f + n - 1"
    using first_at [OF j(1)] last_at [OF j(2,1)] by blast
  have IH: "length hs \<le> maxSweepHosts \<Longrightarrow> expandLoop p (addrAt (Suc j)) hs =
     (if length hs + length (kept (Suc j)) > maxSweepHosts
      then Inl (ErrText (''discovery: CIDRs expand to more than '' @ natStr maxSweepHosts @ '' hosts''))
      else Inr (hs @ kept (Suc j)))" for hs
    using Suc.hyps(1) [of "Suc j" hs] Suc.hyps(2) j by simp
  show ?case
  proof (cases "pf_bits p < 31 \<and> (j = f \<or> j = f + n - 1)")
    case True
    then show ?thesis using IH [of hosts] Suc.prems(3) skip
      by (subst expandLoop.simps) (simp add: at cont nxt kept_step [OF j(1)])
  next
    case False
    then have "(pf_bits p < 31 \<and> ((of_nat j :: addr4) = pf_addr p \<or> isLastInPrefix (of_nat j) p)) = False"
      using skip by blast
    then have "expandLoop p (addrAt j) hosts =
       (if length hosts + 1 > maxSweepHosts
        then Inl (ErrText (''discovery: CIDRs expand to more than '' @ natStr maxSweepHosts @ '' hosts''))
        else expandLoop p (addrAt (Suc j)) (hosts @ [addrString (of_nat j)]))"
      by (subst expandLoop.simps) (simp only: at cont nxt option.case if_False not_True_eq_False)
    moreover have "kept j = addrString (of_nat j) # kept (Suc j)" using kept_step [OF j(1)] False by (simp only: if_False)
    ultimately show ?thesis using IH [of "hosts @ [addrString (of_nat j)]"] by simp
  qed
qed

lemma kept_all:
  "kept f = map (\<lambda>j. addrString (of_nat j)) (if pf_bits p < 31 then [f + 1 ..< f + n - 1] else [f ..< f + n])"
proof (cases "pf_bits p < 31")
  case False
  then show ?thesis by (simp add: kept_def)
next
  case True
  have "2 ^ 1 \<le> n" unfolding n_def using True by (intro power_increasing) simp_all
  then obtain m where m: "f + n = Suc (f + 1 + m)" by (metis add.assoc add_Suc_right le_Suc_ex one_add_one plus_1_eq_Suc power_one_right)
  have "[f ..< f + n] = f # [f + 1 ..< f + 1 + m] @ [f + 1 + m]"
    unfolding m by (simp add: upt_conv_Cons)
  moreover have "filter (\<lambda>i. \<not> (i = f \<or> i = f + n - 1)) [f + 1 ..< f + 1 + m] = [f + 1 ..< f + 1 + m]"
    by (rule filter_True) (auto simp: m)
  ultimately show ?thesis using True by (simp add: kept_def m)
qed

end

interpretation sweep: masked_prefix "masked p" "unat (pf_addr (masked p))" "2 ^ (32 - pf_bits p)" for p
  by unfold_locales (simp_all add: masked_addr)

lemma expandPrefix:
  assumes "length hosts \<le> maxSweepHosts"
  shows "expandLoop (masked p) (Some (pf_addr (masked p))) hosts =
    (if length hosts + length (prefixHosts p) > maxSweepHosts
     then Inl (ErrText (''discovery: CIDRs expand to more than '' @ natStr maxSweepHosts @ '' hosts''))
     else Inr (hosts @ prefixHosts p))"
proof -
  have "sweep.kept p (unat (pf_addr (masked p))) = prefixHosts p"
    using sweep.kept_all [of p] by (simp add: prefixHosts_def Let_def)
  moreover have "addrAt (unat (pf_addr (masked p))) = Some (pf_addr (masked p))"
    using addr_bound [of "pf_addr (masked p)"] by (simp add: addrAt_def)
  ultimately show ?thesis
    using sweep.expandLoop_at [of p "unat (pf_addr (masked p))" hosts] assms by simp
qed

lemma expandCIDRLoop_exact:
  assumes "length hosts \<le> maxSweepHosts"
  shows "expandCIDRLoop v6 cidrs hosts = Inr out \<longleftrightarrow>
    (\<exists>ps. map parsePrefix4 cidrs = map Some ps \<and> out = hosts @ concat (map prefixHosts ps) \<and> length out \<le> maxSweepHosts)"
  using assms
proof (induction cidrs arbitrary: hosts)
  case (Cons c cs)
  show ?case
  proof (cases "parsePrefix4 c")
    case None
    then show ?thesis by auto
  next
    case (Some p)
    have parsed: "(\<exists>ps. map parsePrefix4 (c # cs) = map Some ps \<and> Q ps) \<longleftrightarrow>
        (\<exists>qs. map parsePrefix4 cs = map Some qs \<and> Q (p # qs))" for Q
      using Some by (auto simp: map_eq_Cons_conv Cons_eq_map_conv)
    show ?thesis
    proof (cases "length hosts + length (prefixHosts p) > maxSweepHosts")
      case True
      then have "expandCIDRLoop v6 (c # cs) hosts \<noteq> Inr out" using Cons.prems Some by (simp add: expandPrefix)
      moreover have "\<not> length (hosts @ prefixHosts p @ concat (map prefixHosts ps)) \<le> maxSweepHosts" for ps
        using True by simp
      ultimately show ?thesis unfolding parsed by (metis concat.simps(2) list.simps(9))
    next
      case False
      then have step: "expandCIDRLoop v6 (c # cs) hosts = expandCIDRLoop v6 cs (hosts @ prefixHosts p)"
        using Cons.prems Some by (simp add: expandPrefix)
      have "length (hosts @ prefixHosts p) \<le> maxSweepHosts" using False by simp
      from Cons.IH [OF this] show ?thesis unfolding parsed step by simp
    qed
  qed
qed auto

text \<open>
  C19: \<open>ExpandCIDRs\<close> succeeds exactly when every text is an IPv4 prefix and they have at most 4096
  hosts together, and then returns in order exactly the host addresses of each prefix: every
  address of a /31 or /32, and all but the network and the broadcast address of a shorter
  prefix. It ends on every input, a /0 and the end of the address space included.
\<close>

theorem ExpandCIDRs_exact:
  "ExpandCIDRs isPrefix6 cidrs = Inr hosts \<longleftrightarrow>
     (\<exists>ps. map parsePrefix4 cidrs = map Some ps \<and> hosts = concat (map prefixHosts ps) \<and> length hosts \<le> 4096)"
  unfolding ExpandCIDRs_def using expandCIDRLoop_exact [of "[]"] by simp

end
