(* ===== verification/Discovery.thy ===== *)
theory Discovery
  imports Cidr Fleet
begin

text \<open>
  \<open>internal/discovery\<close>: the sweep that probes addresses and maintains the device objects. A probe
  runs in a goroutine of its own; the model runs them one after another in the order of the list
  of targets, and the theorems hold for every such list, hence for every order.
\<close>

section \<open>probe.go\<close>

abbreviation defaultProbeConcurrency :: int where
  "defaultProbeConcurrency \<equiv> 32"

record Found =
  fo_host :: string
  fo_info :: DeviceInfo

definition usable :: "go_error + DeviceInfo \<Rightarrow> bool" where
  "usable r \<longleftrightarrow> (case r of Inl _ \<Rightarrow> False | Inr info \<Rightarrow> di_mac info \<noteq> [] \<and> \<not> di_gen info < 2)"

fun probeAll :: "'e sysops \<Rightarrow> string list \<Rightarrow> 'e world \<Rightarrow> Found list \<times> 'e world" where
  "probeAll S [] w = ([], w)"
| "probeAll S (target # targets) w =
     (case askEnv (ctxErr S) w of
        (Some _, w) \<Rightarrow> ([], w)
      | (None, w) \<Rightarrow>
          (case Probe S target w of
             (r, w) \<Rightarrow>
               (case probeAll S targets w of
                  (found, w) \<Rightarrow>
                    ((case r of Inr info \<Rightarrow> if usable r then [\<lparr>fo_host = target, fo_info = info\<rparr>] else [] | Inl _ \<Rightarrow> [])
                     @ found, w))))"

section \<open>upsert.go\<close>

definition hasLabels :: "string gomap \<Rightarrow> string gomap \<Rightarrow> bool" where
  "hasLabels labels want \<longleftrightarrow> list_all (\<lambda>(k, v). mgetS labels k = v) want"

definition newDevice :: "string \<Rightarrow> string \<Rightarrow> string gomap \<Rightarrow> ShellyDevice" where
  "newDevice namespace name labels =
     \<lparr>d_meta = \<lparr>m_name = name, m_namespace = namespace, m_generation = 0, m_labels = labels, m_annotations = []\<rparr>,
      d_spec = \<lparr>ds_paused = False, ds_displayName = [], ds_profileRef = []\<rparr>,
      d_status = \<lparr>st_address = [], st_mac = [], st_model = [], st_app = [], st_gen = 0, st_firmware = [],
        st_availableFirmware = [], st_authEnabled = False, st_restartRequired = False,
        st_lastFirmwareUpdate = None, st_deviceName = [], st_online = False, st_lastSeen = None,
        st_matchedProfile = [], st_driftedSections = [], st_conditions = []\<rparr>\<rparr>"

text \<open>The status fields a probe result determines.\<close>

definition discovered :: "time \<Rightarrow> Found \<Rightarrow> ShellyDeviceStatus \<Rightarrow> ShellyDeviceStatus" where
  "discovered now f s =
     s\<lparr>st_address := fo_host f, st_mac := di_mac (fo_info f), st_model := di_model (fo_info f),
       st_app := di_app (fo_info f), st_gen := of_int (di_gen (fo_info f)), st_firmware := di_firmware (fo_info f),
       st_authEnabled := di_authEnabled (fo_info f), st_deviceName := di_name (fo_info f),
       st_online := True, st_lastSeen := Some now\<rparr>"

text \<open>
  The first half of \<open>applyDevice\<close>: \<open>Inr None\<close> is the early return for a stale cache, \<open>Inr (Some
  dev)\<close> the object to go on with.
\<close>

definition ensureDevice :: "'e sysops \<Rightarrow> string \<Rightarrow> Found \<Rightarrow> 'e world \<Rightarrow> (go_error + ShellyDevice option) \<times> 'e world" where
  "ensureDevice S namespace f w =
     (let name = DeviceObjectName (di_mac (fo_info f));
          labels = DeviceLabels (di_model (fo_info f)) (di_app (fo_info f)) (of_int (di_gen (fo_info f)))
      in case askEnv (getDevice S namespace name) w of
           (Inl err, w) \<Rightarrow>
             if isNotFound err then
               (case createDeviceW S (newDevice namespace name labels) w of
                  (Inr dev, w) \<Rightarrow> (Inr (Some dev), w)
                | (Inl err, w) \<Rightarrow>
                    (if isAlreadyExists err then Inr None
                     else Inl (ErrWrap (''discovery: create '' @ name @ '': '') err), w))
             else (Inl (ErrWrap (''discovery: get '' @ name @ '': '') err), w)
         | (Inr dev, w) \<Rightarrow>
             if hasLabels (m_labels (d_meta dev)) labels then (Inr (Some dev), w)
             else
               (let dev' = dev\<lparr>d_meta := (d_meta dev)\<lparr>m_labels := mapsCopy (m_labels (d_meta dev)) labels\<rparr>\<rparr>
                in case updateDeviceW S dev dev' w of
                     (Inr dev, w) \<Rightarrow> (Inr (Some dev), w)
                   | (Inl err, w) \<Rightarrow> (Inl (ErrWrap (''discovery: update labels '' @ name @ '': '') err), w)))"

definition applyDevice :: "'e sysops \<Rightarrow> string \<Rightarrow> time \<Rightarrow> Found \<Rightarrow> 'e world \<Rightarrow> go_error option \<times> 'e world" where
  "applyDevice S namespace now f w =
     (case ensureDevice S namespace f w of
        (Inl err, w) \<Rightarrow> (Some err, w)
      | (Inr None, w) \<Rightarrow> (None, w)
      | (Inr (Some dev), w) \<Rightarrow>
          (case updateStatusW S dev (dev\<lparr>d_status := discovered now f (d_status dev)\<rparr>) w of
             (Inr _, w) \<Rightarrow> (None, w)
           | (Inl err, w) \<Rightarrow>
               (if isConflict err then None
                else Some (ErrWrap (''discovery: update status '' @ DeviceObjectName (di_mac (fo_info f)) @ '': '') err), w)))"

section \<open>stale.go\<close>

definition staleAt :: "time \<Rightarrow> ShellyDevice \<Rightarrow> bool" where
  "staleAt cutoff dev \<longleftrightarrow>
     \<not> (\<not> st_online (d_status dev) \<or>
        (case st_lastSeen (d_status dev) of None \<Rightarrow> True | Some t \<Rightarrow> t > cutoff))"

definition offline :: "ShellyDevice \<Rightarrow> ShellyDevice" where
  "offline dev = dev\<lparr>d_status := (d_status dev)\<lparr>st_online := False\<rparr>\<rparr>"

fun staleLoop :: "'e sysops \<Rightarrow> time \<Rightarrow> ShellyDevice list \<Rightarrow> 'e world \<Rightarrow> go_error list \<times> 'e world" where
  "staleLoop S cutoff [] w = ([], w)"
| "staleLoop S cutoff (dev # devs) w =
     (if \<not> staleAt cutoff dev then staleLoop S cutoff devs w
      else
        (case updateStatusW S dev (offline dev) w of
           (Inr _, w) \<Rightarrow> staleLoop S cutoff devs w
         | (Inl err, w) \<Rightarrow>
             if isConflict err then staleLoop S cutoff devs w
             else
               (case staleLoop S cutoff devs w of
                  (errs, w) \<Rightarrow>
                    (ErrWrap (''discovery: mark '' @ m_name (d_meta dev) @ '' offline: '') err # errs, w))))"

text \<open>\<open>errors.Join\<close>: nil when there is nothing to join.\<close>

definition joinErrors :: "go_error list \<Rightarrow> go_error option" where
  "joinErrors errs = (if errs = [] then None else Some (ErrJoin errs))"

definition markStale :: "'e sysops \<Rightarrow> string \<Rightarrow> time \<Rightarrow> 'e world \<Rightarrow> go_error option \<times> 'e world" where
  "markStale S namespace cutoff w =
     (case askEnv (listDevices S namespace) w of
        (Inl err, w) \<Rightarrow> (Some (ErrWrap ''discovery: list devices: '' err), w)
      | (Inr devs, w) \<Rightarrow> (case staleLoop S cutoff devs w of (errs, w) \<Rightarrow> (joinErrors errs, w)))"

section \<open>sweeper.go\<close>

text \<open>An empty list of targets is the nil slice that \<open>init\<close> fills.\<close>

record Sweeper =
  sw_namespace :: string
  sw_cidrs :: "string list"
  sw_extraHosts :: "string list"
  sw_interval :: time
  sw_probeTimeout :: time
  sw_concurrency :: int
  sw_offlineAfter :: time
  sw_targets :: "string list"

definition sweeperInit :: "(string \<Rightarrow> bool) \<Rightarrow> Sweeper \<Rightarrow> go_error + Sweeper" where
  "sweeperInit isPrefix6 s =
     (let s = (if sw_interval s \<le> 0 then s\<lparr>sw_interval := minutes 5\<rparr> else s);
          s = (if sw_probeTimeout s \<le> 0 then s\<lparr>sw_probeTimeout := seconds 3\<rparr> else s);
          s = (if sw_concurrency s \<le> 0 then s\<lparr>sw_concurrency := defaultProbeConcurrency\<rparr> else s);
          s = (if sw_offlineAfter s \<le> 0 then s\<lparr>sw_offlineAfter := 3 * sw_interval s\<rparr> else s);
          s = (if sw_offlineAfter s < seconds 1 then s\<lparr>sw_offlineAfter := seconds 1\<rparr> else s)
      in if sw_targets s \<noteq> [] then Inr s
         else
           (case ExpandCIDRs isPrefix6 (sw_cidrs s) of
              Inl err \<Rightarrow> Inl err
            | Inr hosts \<Rightarrow> Inr (s\<lparr>sw_targets := hosts @ sw_extraHosts s\<rparr>)))"

fun applyAll :: "'e sysops \<Rightarrow> string \<Rightarrow> time \<Rightarrow> Found list \<Rightarrow> 'e world \<Rightarrow> go_error list \<times> 'e world" where
  "applyAll S namespace now [] w = ([], w)"
| "applyAll S namespace now (f # fs) w =
     (case applyDevice S namespace now f w of
        (r, w) \<Rightarrow>
          (case applyAll S namespace now fs w of
             (errs, w) \<Rightarrow> ((case r of None \<Rightarrow> [] | Some err \<Rightarrow> [err]) @ errs, w)))"

definition RunOnce :: "'e sysops \<Rightarrow> (string \<Rightarrow> bool) \<Rightarrow> Sweeper \<Rightarrow> 'e world \<Rightarrow> go_error option \<times> Sweeper \<times> 'e world" where
  "RunOnce S isPrefix6 s w =
     (case sweeperInit isPrefix6 s of
        Inl err \<Rightarrow> (Some err, s, w)
      | Inr s \<Rightarrow>
          (let (now, w) = askEnv (timeNow S) w;
               (found, w) = probeAll S (sw_targets s) w
           in case askEnv (ctxErr S) w of
                (Some err, w) \<Rightarrow> (Some err, s, w)
              | (None, w) \<Rightarrow>
                  (let (errs, w) = applyAll S (sw_namespace s) now found w;
                       (stale, w) = markStale S (sw_namespace s) (now - sw_offlineAfter s) w
                   in (joinErrors (errs @ (case stale of None \<Rightarrow> [] | Some err \<Rightarrow> [err])), s, w))))"

text \<open>
  \<open>Start\<close> sweeps until the context ends; a failed sweep is logged and does not stop the loop.
  \<open>None\<close> is a sweeper that never returns.
\<close>

partial_function (option) sweepLoop :: "'e sysops \<Rightarrow> (string \<Rightarrow> bool) \<Rightarrow> Sweeper \<Rightarrow> 'e world \<Rightarrow> 'e world option" where
  "sweepLoop S isPrefix6 s w =
     (case RunOnce S isPrefix6 s w of
        (_, s, w) \<Rightarrow>
          (case askEnv (waitRetry S (sw_interval s)) w of
             (Some _, w) \<Rightarrow> Some w
           | (None, w) \<Rightarrow> sweepLoop S isPrefix6 s w))"

definition Start :: "'e sysops \<Rightarrow> (string \<Rightarrow> bool) \<Rightarrow> Sweeper \<Rightarrow> 'e world \<Rightarrow> (go_error option \<times> 'e world) option" where
  "Start S isPrefix6 s w =
     (case sweeperInit isPrefix6 s of
        Inl err \<Rightarrow> Some (Some err, w)
      | Inr s \<Rightarrow> map_option (\<lambda>w. (None, w)) (sweepLoop S isPrefix6 s w))"

section \<open>What a sweep may do\<close>










text \<open>The stale pass writes one update for each stale device, in order, whatever the answers are.\<close>

lemma staleLoop_spec:
  assumes "staleLoop S cutoff devs w = (errs, w')"
  shows "\<exists>oks. length oks = length (filter (staleAt cutoff) devs) \<and>
    w_trace w' = w_trace w @ map2 (\<lambda>d ok. StatusUpdate d (offline d) ok) (filter (staleAt cutoff) devs) oks"
  using assms
proof (induction devs arbitrary: w errs w')
  case (Cons d devs)
  show ?case
  proof (cases "staleAt cutoff d")
    case False
    then show ?thesis using Cons by simp
  next
    case True
    obtain r w1 where u: "updateStatusW S d (offline d) w = (r, w1)" by force
    have t1: "w_trace w1 = w_trace w @ [StatusUpdate d (offline d) (isOk r)]"
      using trace_updateStatusW [of S d "offline d" w] u by simp
    obtain es where rest: "staleLoop S cutoff devs w1 = (es, w')"
      using Cons.prems True u by (auto split: sum.splits if_splits prod.splits)
    from Cons.IH [OF rest] obtain oks where "length oks = length (filter (staleAt cutoff) devs)"
        "w_trace w' = w_trace w1 @ map2 (\<lambda>d ok. StatusUpdate d (offline d) ok) (filter (staleAt cutoff) devs) oks" by blast
    then show ?thesis using True t1 by (intro exI [of _ "isOk r # oks"]) simp
  qed
qed simp




definition exampleSweeper :: Sweeper where
  "exampleSweeper = \<lparr>sw_namespace = ''home'', sw_cidrs = [], sw_extraHosts = [], sw_interval = 0,
     sw_probeTimeout = 0, sw_concurrency = 0, sw_offlineAfter = 0, sw_targets = [''10.0.0.9'']\<rparr>"

lemma exampleSweeper_init:
  "sweeperInit p exampleSweeper = Inr (exampleSweeper\<lparr>sw_interval := minutes 5, sw_probeTimeout := seconds 3,
     sw_concurrency := 32, sw_offlineAfter := minutes 15\<rparr>)"
  by (simp add: sweeperInit_def exampleSweeper_def Let_def)


text \<open>
  C21: The stale pass is exact: of the devices listed, it writes precisely those that are marked
  online and were last seen at or before the cutoff, each once and in order, flipping only the
  online flag (the time a device was last seen is kept), and it goes on when a write fails.
\<close>

theorem markStale_exact:
  assumes "listDevices S namespace (w_env w) = (Inr devs, e)" "markStale S namespace cutoff w = (err, w')"
  shows "\<exists>oks. length oks = length (filter (staleAt cutoff) devs) \<and>
    w_trace w' = w_trace w @ map2 (\<lambda>d ok. StatusUpdate d (d\<lparr>d_status := (d_status d)\<lparr>st_online := False\<rparr>\<rparr>) ok)
      (filter (staleAt cutoff) devs) oks"
proof -
  have l: "askEnv (listDevices S namespace) w = (Inr devs, w\<lparr>w_env := e\<rparr>)" using assms(1) by (simp add: askEnv_def)
  obtain errs w2 where st: "staleLoop S cutoff devs (w\<lparr>w_env := e\<rparr>) = (errs, w2)" by force
  have "w' = w2" using assms(2) l st by (simp add: markStale_def)
  then show ?thesis using staleLoop_spec [OF st] by (simp add: offline_def)
qed

definition forgottenDevice :: ShellyDevice where
  "forgottenDevice = exampleDevice\<lparr>d_status := exampleStatus\<lparr>st_lastSeen := Some (seconds 10)\<rparr>\<rparr>"

theorem markStale_exact_witness:
  "\<exists>err w' oks. markStale (quietOps\<lparr>listDevices := (\<lambda>ns e. (Inr [exampleDevice, forgottenDevice], e))\<rparr>) ''home''
       (seconds 10) (startWorld 0) = (err, w') \<and>
     w_trace w' = map2 (\<lambda>d ok. StatusUpdate d (d\<lparr>d_status := (d_status d)\<lparr>st_online := False\<rparr>\<rparr>) ok) [forgottenDevice] oks \<and>
     length oks = 1"
proof -
  let ?S = "quietOps\<lparr>listDevices := (\<lambda>ns e. (Inr [exampleDevice, forgottenDevice], e))\<rparr>"
  obtain err w' where m: "markStale ?S ''home'' (seconds 10) (startWorld 0) = (err, w')" by force
  have l: "listDevices ?S ''home'' (w_env (startWorld 0)) = (Inr [exampleDevice, forgottenDevice], 0)"
    by (simp add: startWorld_def)
  have "filter (staleAt (seconds 10)) [exampleDevice, forgottenDevice] = [forgottenDevice]"
    by (simp add: staleAt_def forgottenDevice_def example_defs)
  then show ?thesis using markStale_exact [OF l m] m by (auto simp: startWorld_def)
qed

text \<open>
  C22: A device that answered in this sweep is never taken offline by it: with the defaults and
  the lower bound that \<open>init\<close> applies, even a time of last contact that the API server has cut
  down to whole seconds lies after the cutoff of the same sweep.
\<close>

theorem refreshed_not_stale:
  assumes "sweeperInit isPrefix6 s = Inr s'" "st_lastSeen (d_status dev) = Some (now - now mod seconds 1)"
  shows "\<not> staleAt (now - sw_offlineAfter s') dev"
proof -
  have "seconds 1 \<le> sw_offlineAfter s'"
    using assms(1) by (auto simp: sweeperInit_def Let_def split: if_splits sum.splits)
  moreover have "now mod seconds 1 < seconds 1" by (rule pos_mod_bound) simp
  ultimately have "now mod seconds 1 < sw_offlineAfter s'" by (rule less_le_trans [rotated])
  then show ?thesis using assms(2) by (simp add: staleAt_def)
qed

theorem refreshed_not_stale_witness:
  "\<not> staleAt (seconds 20 + 999999999 - minutes 15)
     (exampleDevice\<lparr>d_status := exampleStatus\<lparr>st_lastSeen := Some (seconds 20)\<rparr>\<rparr>)"
  using refreshed_not_stale [OF exampleSweeper_init [of "\<lambda>_. False"],
      of "exampleDevice\<lparr>d_status := exampleStatus\<lparr>st_lastSeen := Some (seconds 20)\<rparr>\<rparr>" "seconds 20 + 999999999"]
  by simp

end
