(* ===== verification/Exporter.thy ===== *)
theory Exporter
  imports World
begin

text \<open>
  \<open>internal/exporterfeed\<close>: the ConfigMap with the addresses of the online devices that the
  Prometheus exporter reads. The YAML encoder is a parameter.
\<close>

section \<open>render.go\<close>

record Options =
  op_listenAddress :: string
  op_debug :: bool
  op_deviceUpdateInterval :: int

record exporterConfig =
  ec_listenAddress :: string
  ec_debug :: bool
  ec_deviceUpdateInterval :: int
  ec_devices :: "string list"

type_synonym yamlMarshal = "exporterConfig \<Rightarrow> go_error + string"

text \<open>\<open>slices.Sort\<close> and \<open>slices.Compact\<close>.\<close>

definition exporterHosts :: "ShellyDevice list \<Rightarrow> string list" where
  "exporterHosts devs =
     remdups_adj (sort (map (\<lambda>d. st_address (d_status d))
       (filter (\<lambda>d. st_online (d_status d) \<and> st_address (d_status d) \<noteq> []) devs)))"

definition RenderConfig :: "yamlMarshal \<Rightarrow> ShellyDevice list \<Rightarrow> Options \<Rightarrow> go_error + string" where
  "RenderConfig marshal devs opts =
     marshal \<lparr>ec_listenAddress = op_listenAddress opts, ec_debug = op_debug opts,
       ec_deviceUpdateInterval = op_deviceUpdateInterval opts, ec_devices = exporterHosts devs\<rparr>"

section \<open>reconciler.go\<close>

abbreviation dataKey :: string where "dataKey \<equiv> ''config.yaml''"

record feedReconciler =
  fr_namespace :: string
  fr_configMapName :: string
  fr_options :: Options

definition feedReconcile :: "'e sysops \<Rightarrow> yamlMarshal \<Rightarrow> feedReconciler \<Rightarrow> 'e world \<Rightarrow> go_error option \<times> 'e world" where
  "feedReconcile S marshal R w =
     (let ns = fr_namespace R; name = fr_configMapName R
      in case askEnv (listDevices S ns) w of
           (Inl err, w) \<Rightarrow> (Some (ErrWrap ''exporterfeed: list devices: '' err), w)
         | (Inr devs, w) \<Rightarrow>
             (case RenderConfig marshal devs (fr_options R) of
                Inl err \<Rightarrow> (Some (ErrWrap ''exporterfeed: render: '' err), w)
              | Inr rendered \<Rightarrow>
                  (case askEnv (getConfigMap S ns name) w of
                     (Inl err, w) \<Rightarrow>
                       if isNotFound err then
                         (case createConfigMapW S ns name [(''app.kubernetes.io/managed-by'', ''shelly-operator'')]
                                 [(dataKey, rendered)] w of
                            (Some err, w) \<Rightarrow> (Some (ErrWrap (''exporterfeed: create '' @ name @ '': '') err), w)
                          | (None, w) \<Rightarrow> (None, w))
                       else (Some (ErrWrap (''exporterfeed: get '' @ name @ '': '') err), w)
                   | (Inr data, w) \<Rightarrow>
                       if mgetS data dataKey = rendered then (None, w)
                       else
                         (case updateConfigMapW S ns name (AList.update dataKey rendered data) w of
                            (Some err, w) \<Rightarrow> (Some (ErrWrap (''exporterfeed: update '' @ name @ '': '') err), w)
                          | (None, w) \<Rightarrow> (None, w)))))"

text \<open>The events that trigger it: an update counts when reachability or address changed.\<close>

definition relevant :: "ShellyDevice \<Rightarrow> ShellyDevice \<Rightarrow> bool" where
  "relevant oldDev newDev \<longleftrightarrow>
     st_online (d_status oldDev) \<noteq> st_online (d_status newDev) \<or>
     st_address (d_status oldDev) \<noteq> st_address (d_status newDev)"

section \<open>Correctness\<close>

lemma strict_sorted_remdups_adj: "sorted xs \<Longrightarrow> sorted_wrt (<) (remdups_adj (xs :: 'a :: linorder list))"
  by (induction xs rule: remdups_adj.induct) (auto simp: le_less)

text \<open>
  C31: The rendered device list is canonical: the addresses of the devices that are online and
  have one, in strictly increasing order. It depends neither on the order in which the API
  lists the devices nor on duplicates, and an event that the watch predicate drops leaves the
  rendered text as it was.
\<close>

theorem exporterHosts_canonical:
  "exporterHosts devs =
     sorted_list_of_set {st_address (d_status d) | d. d \<in> set devs \<and> st_online (d_status d) \<and> st_address (d_status d) \<noteq> []} \<and>
   (relevant old new \<or>
     RenderConfig marshal (before @ old # after) opts = RenderConfig marshal (before @ new # after) opts)"
proof
  let ?xs = "map (\<lambda>d. st_address (d_status d)) (filter (\<lambda>d. st_online (d_status d) \<and> st_address (d_status d) \<noteq> []) devs)"
  have "sorted_wrt (<) (exporterHosts devs)" by (simp add: exporterHosts_def strict_sorted_remdups_adj)
  moreover have "set (exporterHosts devs) =
      {st_address (d_status d) | d. d \<in> set devs \<and> st_online (d_status d) \<and> st_address (d_status d) \<noteq> []}"
    by (auto simp: exporterHosts_def)
  ultimately show "exporterHosts devs =
     sorted_list_of_set {st_address (d_status d) | d. d \<in> set devs \<and> st_online (d_status d) \<and> st_address (d_status d) \<noteq> []}"
    by (metis sorted_list_of_set.idem_if_sorted_distinct strict_sorted_iff)
  show "relevant old new \<or>
     RenderConfig marshal (before @ old # after) opts = RenderConfig marshal (before @ new # after) opts"
    by (auto simp: relevant_def RenderConfig_def exporterHosts_def)
qed

text \<open>
  C30: The feed writes exactly when it must. Given the listed devices and the ConfigMap that is
  stored, a reconciliation writes nothing when the stored text is already the rendered one;
  otherwise it makes a single update that carries the rendered text under \<open>config.yaml\<close> and keeps
  every other key. When there is no ConfigMap, it makes a single create, with the rendered text
  and the label that says who manages it; when the ConfigMap cannot be read, it writes nothing
  and fails. A write that fails is the error that is returned.
\<close>

theorem feedReconcile_exact:
  assumes "listDevices S (fr_namespace R) (w_env w) = (Inr devs, e)"
    and "RenderConfig marshal devs (fr_options R) = Inr rendered"
    and "getConfigMap S (fr_namespace R) (fr_configMapName R) e = (stored, e')"
    and "feedReconcile S marshal R w = (err, w')"
  shows "case stored of
      Inr data \<Rightarrow>
        (if mgetS data dataKey = rendered then err = None \<and> w_trace w' = w_trace w
         else \<exists>data'. w_trace w' = w_trace w @ [ConfigMapUpdate (fr_namespace R) (fr_configMapName R) data' (err = None)] \<and>
                map_of data' = (map_of data)(dataKey \<mapsto> rendered))
    | Inl e0 \<Rightarrow>
        (if isNotFound e0
         then w_trace w' = w_trace w @ [ConfigMapCreate (fr_namespace R) (fr_configMapName R)
                [(''app.kubernetes.io/managed-by'', ''shelly-operator'')] [(dataKey, rendered)] (err = None)]
         else err \<noteq> None \<and> w_trace w' = w_trace w)"
proof -
  have l: "askEnv (listDevices S (fr_namespace R)) w = (Inr devs, w\<lparr>w_env := e\<rparr>)"
    using assms(1) by (simp add: askEnv_def)
  have g: "askEnv (getConfigMap S (fr_namespace R) (fr_configMapName R)) (w\<lparr>w_env := e\<rparr>) = (stored, w\<lparr>w_env := e'\<rparr>)"
    using assms(3) by (simp add: askEnv_def)
  show ?thesis
  proof (cases stored)
    case (Inl e0)
    then show ?thesis using assms(4)
      by (auto simp: feedReconcile_def Let_def l g assms(2) split: prod.splits option.splits dest!: trace_createConfigMapW)
  next
    case (Inr data)
    then show ?thesis using assms(4)
      by (auto simp: feedReconcile_def Let_def l g assms(2) update_conv' split: prod.splits option.splits
          dest!: trace_updateConfigMapW simp del: fun_upd_apply)
  qed
qed

text \<open>A stored ConfigMap with a foreign key and stale text, and an encoder that joins the hosts.\<close>

definition staleFeedOps :: "time sysops" where
  "staleFeedOps = quietOps\<lparr>getConfigMap := (\<lambda>ns n e. (Inr [(''note'', ''kept''), (''config.yaml'', ''devices: []'')], e))\<rparr>"

definition joinMarshal :: yamlMarshal where
  "joinMarshal c = Inr (''devices: '' @ concat (ec_devices c))"

definition exampleFeed :: feedReconciler where
  "exampleFeed = \<lparr>fr_namespace = ''ns'', fr_configMapName = ''feed'',
     fr_options = \<lparr>op_listenAddress = '':9924'', op_debug = False, op_deviceUpdateInterval = 30\<rparr>\<rparr>"

theorem feedReconcile_exact_witness:
  "case feedReconcile staleFeedOps joinMarshal exampleFeed (startWorld 0) of (err, w') \<Rightarrow>
     \<exists>data'. w_trace w' = [ConfigMapUpdate ''ns'' ''feed'' data' (err = None)] \<and>
       map_of data' = (map_of [(''note'', ''kept''), (''config.yaml'', ''devices: []'')])
         (''config.yaml'' \<mapsto> ''devices: 10.0.0.9'')"
proof -
  obtain err w' where r: "feedReconcile staleFeedOps joinMarshal exampleFeed (startWorld 0) = (err, w')" by force
  have m: "RenderConfig joinMarshal [exampleDevice] (fr_options exampleFeed) = Inr ''devices: 10.0.0.9''" by code_simp
  have l: "listDevices staleFeedOps (fr_namespace exampleFeed) (w_env (startWorld 0)) = (Inr [exampleDevice], 0)"
    and g: "getConfigMap staleFeedOps (fr_namespace exampleFeed) (fr_configMapName exampleFeed) 0 =
        (Inr [(''note'', ''kept''), (''config.yaml'', ''devices: []'')], 0)"
    by (simp_all add: staleFeedOps_def quietOps_def startWorld_def)
  show ?thesis
    unfolding r prod.case using feedReconcile_exact [OF l m g r]
    by (simp add: startWorld_def exampleFeed_def mgetS_def)
qed

end
