(* ===== verification/Metrics.thy ===== *)
theory Metrics
  imports Fleet
begin

text \<open>
  \<open>internal/metrics\<close>: the Prometheus collector that turns the listed devices into gauges. The
  channel it sends on is the list of what is sent; a gauge value is a \<open>float64\<close>.
\<close>

section \<open>devices.go\<close>

record Desc =
  desc_fqName :: string
  desc_help :: string
  desc_labels :: "string list"

definition deviceDesc :: "string \<Rightarrow> string \<Rightarrow> Desc" where
  "deviceDesc fqName help =
     \<lparr>desc_fqName = fqName, desc_help = help, desc_labels = [''mac'', ''name'', ''room'', ''appliance'']\<rparr>"

definition descOnline :: Desc where
  "descOnline = deviceDesc ''shelly_device_online''
     ''1 if the device is online (answers discovery sweeps), 0 otherwise''"

definition descInSync :: Desc where
  "descInSync = deviceDesc ''shelly_device_in_sync'' ''1 if the device InSync condition is True, 0 otherwise''"

definition descUpdateAvailable :: Desc where
  "descUpdateAvailable = deviceDesc ''shelly_device_update_available''
     ''1 if a firmware update is available for the device, 0 otherwise''"

definition descRestartRequired :: Desc where
  "descRestartRequired = deviceDesc ''shelly_device_restart_required''
     ''1 if the device reports a setting that needs a restart to take effect, 0 otherwise''"

definition descFirmwareUpdateRefused :: Desc where
  "descFirmwareUpdateRefused = deviceDesc ''shelly_device_firmware_update_refused''
     ''1 if the operator's last Shelly.Update was refused and that version is still pending, 0 otherwise''"

datatype Metric =
    ConstMetric Desc float64 "string list"
  | InvalidMetric Desc go_error

record DeviceCollector =
  dc_namespace :: string
  dc_registryName :: string

definition NewDeviceCollector :: "string \<Rightarrow> string \<Rightarrow> DeviceCollector" where
  "NewDeviceCollector namespace registryName = \<lparr>dc_namespace = namespace, dc_registryName = registryName\<rparr>"

definition Describe :: "DeviceCollector \<Rightarrow> Desc list" where
  "Describe c = [descOnline, descInSync, descUpdateAvailable, descRestartRequired, descFirmwareUpdateRefused]"

definition updateRefused :: "ShellyDevice \<Rightarrow> bool" where
  "updateRefused dev \<longleftrightarrow>
     (case st_lastFirmwareUpdate (d_status dev) of
        None \<Rightarrow> False
      | Some a \<Rightarrow> fa_refused a \<and> fa_target a \<noteq> [] \<and> fa_target a = st_availableFirmware (d_status dev))"

definition labelValues :: "'e sysops \<Rightarrow> golib \<Rightarrow> DeviceCollector \<Rightarrow> ShellyDevice \<Rightarrow> 'e world
    \<Rightarrow> (string \<times> string \<times> string \<times> string) \<times> 'e world" where
  "labelValues S G c dev w =
     (let mac = st_mac (d_status dev);
          mac = (if mac = [] then m_name (d_meta dev) else mac);
          (r, w) = ResolveRegistry S G dev (dc_registryName c) w;
          entry = (case r of Inl err \<Rightarrow> zeroEntry | Inr entry \<Rightarrow> entry);
          name = ds_displayName (d_spec dev);
          name = (if name = [] then re_name entry else name);
          name = (if name = [] then st_deviceName (d_status dev) else name);
          name = (if name = [] then m_name (d_meta dev) else name)
      in ((mac, name, re_room entry, re_type entry), w))"

definition boolToFloat :: "bool \<Rightarrow> float64" where
  "boolToFloat b = (if b then Fin 1 else Fin 0)"

fun inSyncValue :: "Condition list \<Rightarrow> float64" where
  "inSyncValue [] = Fin 0"
| "inSyncValue (c # cs) =
     (if c_type c = ConditionInSync
      then (if c_status c = ConditionTrue then Fin 1 else Fin 0)
      else inSyncValue cs)"

definition deviceMetrics :: "string \<times> string \<times> string \<times> string \<Rightarrow> ShellyDevice \<Rightarrow> Metric list" where
  "deviceMetrics vals dev =
     (let (mac, name, room, appliance) = vals; ls = [mac, name, room, appliance]; st = d_status dev
      in [ConstMetric descOnline (boolToFloat (st_online st)) ls,
          ConstMetric descInSync (inSyncValue (st_conditions st)) ls,
          ConstMetric descUpdateAvailable (boolToFloat (st_availableFirmware st \<noteq> [])) ls,
          ConstMetric descRestartRequired (boolToFloat (st_restartRequired st)) ls,
          ConstMetric descFirmwareUpdateRefused (boolToFloat (updateRefused dev)) ls])"

fun collectLoop :: "'e sysops \<Rightarrow> golib \<Rightarrow> DeviceCollector \<Rightarrow> ShellyDevice list \<Rightarrow> 'e world
    \<Rightarrow> Metric list \<times> 'e world" where
  "collectLoop S G c [] w = ([], w)"
| "collectLoop S G c (dev # devs) w =
     (let (vals, w) = labelValues S G c dev w;
          (ms, w) = collectLoop S G c devs w
      in (deviceMetrics vals dev @ ms, w))"

definition Collect :: "'e sysops \<Rightarrow> golib \<Rightarrow> DeviceCollector \<Rightarrow> 'e world \<Rightarrow> Metric list \<times> 'e world" where
  "Collect S G c w =
     (case askEnv (listDevices S (dc_namespace c)) w of
        (Inl err, w) \<Rightarrow> ([InvalidMetric descOnline (ErrWrap ''listing ShellyDevices: '' err)], w)
      | (Inr devs, w) \<Rightarrow> collectLoop S G c devs w)"

section \<open>What a scrape returns\<close>

text \<open>
  The specification: the health of a device as five booleans in the order of \<open>Describe\<close>, and
  the sample of each under one list of label values.
\<close>

definition health :: "ShellyDevice \<Rightarrow> bool list" where
  "health dev =
     [st_online (d_status dev),
      (case find (\<lambda>c. c_type c = ConditionInSync) (st_conditions (d_status dev)) of
         None \<Rightarrow> False | Some c \<Rightarrow> c_status c = ConditionTrue),
      st_availableFirmware (d_status dev) \<noteq> [],
      st_restartRequired (d_status dev),
      updateRefused dev]"

definition samples :: "ShellyDevice \<Rightarrow> string list \<Rightarrow> Metric list" where
  "samples dev ls =
     map2 (\<lambda>d b. ConstMetric d (if b then Fin 1 else Fin 0) ls) (Describe (NewDeviceCollector [] [])) (health dev)"

definition macLabel :: "ShellyDevice \<Rightarrow> string" where
  "macLabel dev = (if st_mac (d_status dev) = [] then m_name (d_meta dev) else st_mac (d_status dev))"

text \<open>
  The label values, given the registry's entry: the name is the first one that is set of the
  display name, the registry's, the one on the device and the object's.
\<close>

definition firstSet :: "string list \<Rightarrow> string" where
  "firstSet xs = (case find (\<lambda>x. x \<noteq> []) xs of None \<Rightarrow> [] | Some x \<Rightarrow> x)"

definition labelsOf :: "ShellyDevice \<Rightarrow> RegistryEntry \<Rightarrow> string list" where
  "labelsOf dev entry =
     [macLabel dev,
      firstSet [ds_displayName (d_spec dev), re_name entry, st_deviceName (d_status dev), m_name (d_meta dev)],
      re_room entry, re_type entry]"

text \<open>What the registry answers for the devices, one read after the other; a failed read is an empty entry.\<close>

fun registryReads :: "'e sysops \<Rightarrow> golib \<Rightarrow> string \<Rightarrow> ShellyDevice list \<Rightarrow> 'e world \<Rightarrow> RegistryEntry list" where
  "registryReads S G registry [] w = []"
| "registryReads S G registry (dev # devs) w =
     (case ResolveRegistry S G dev registry w of
        (r, w) \<Rightarrow> (case r of Inl _ \<Rightarrow> zeroEntry | Inr entry \<Rightarrow> entry) # registryReads S G registry devs w)"

lemma length_registryReads [simp]: "length (registryReads S G registry devs w) = length devs"
  by (induction devs arbitrary: w) (simp_all split: prod.split)

text \<open>What identifies a series to Prometheus, which refuses a scrape that repeats one.\<close>

fun series :: "Metric \<Rightarrow> string \<times> string list" where
  "series (ConstMetric d v ls) = (desc_fqName d, ls)"
| "series (InvalidMetric d e) = (desc_fqName d, [])"

lemma inSyncValue_find:
  "inSyncValue cs = boolToFloat (case find (\<lambda>c. c_type c = ConditionInSync) cs of
     None \<Rightarrow> False | Some c \<Rightarrow> c_status c = ConditionTrue)"
  by (induction cs) (simp_all add: boolToFloat_def)

lemma labelValues_spec:
  assumes "labelValues S G c dev w = (vals, w')" "ResolveRegistry S G dev (dc_registryName c) w = (r, w1)"
  shows "w' = w1" "w_trace w' = w_trace w"
    and "deviceMetrics vals dev = samples dev (labelsOf dev (case r of Inl _ \<Rightarrow> zeroEntry | Inr entry \<Rightarrow> entry))"
proof -
  let ?e = "case r of Inl _ \<Rightarrow> zeroEntry | Inr entry \<Rightarrow> entry"
  obtain mac name room appliance where v: "vals = (mac, name, room, appliance)" by (cases vals)
  show "w' = w1" using assms by (auto simp: labelValues_def Let_def)
  then show "w_trace w' = w_trace w" using ResolveRegistry_trace [OF assms(2)] by simp
  have "[mac, name, room, appliance] = labelsOf dev ?e"
    using assms by (auto simp: labelValues_def v Let_def labelsOf_def macLabel_def firstSet_def split: if_splits)
  moreover have "deviceMetrics vals dev = samples dev [mac, name, room, appliance]"
    by (simp add: v deviceMetrics_def samples_def Describe_def health_def inSyncValue_find boolToFloat_def Let_def)
  ultimately show "deviceMetrics vals dev = samples dev (labelsOf dev ?e)" by simp
qed

lemma collectLoop_spec:
  "collectLoop S G c devs w = (ms, w') \<Longrightarrow>
   w_trace w' = w_trace w \<and>
   ms = concat (map2 (\<lambda>dev entry. samples dev (labelsOf dev entry)) devs (registryReads S G (dc_registryName c) devs w))"
proof (induction devs arbitrary: w ms)
  case Nil
  then show ?case by simp
next
  case (Cons dev devs)
  obtain vals w1 where v: "labelValues S G c dev w = (vals, w1)" by (cases "labelValues S G c dev w")
  obtain r w2 where r: "ResolveRegistry S G dev (dc_registryName c) w = (r, w2)" by force
  obtain ns w3 where n: "collectLoop S G c devs w1 = (ns, w3)" by force
  note l = labelValues_spec [OF v r]
  show ?case using Cons.IH [of w1 ns] Cons.prems v n r l by simp
qed

lemma series_samples: "series ` set (samples dev ls) \<subseteq> UNIV \<times> {ls}"
  by (auto simp: samples_def set_zip)

lemma distinct_series_samples: "distinct (map series (samples dev ls))"
  unfolding samples_def Describe_def health_def descOnline_def descInSync_def descUpdateAvailable_def
    descRestartRequired_def descFirmwareUpdateRefused_def deviceDesc_def
  by simp

lemma distinct_series:
  "length devs = length es \<Longrightarrow> distinct (map macLabel devs) \<Longrightarrow>
   distinct (map series (concat (map2 (\<lambda>dev entry. samples dev (labelsOf dev entry)) devs es)))"
proof (induction devs es rule: list_induct2)
  case Nil
  then show ?case by simp
next
  case (Cons dev devs entry es)
  let ?f = "\<lambda>dev entry. samples dev (labelsOf dev entry)"
  let ?A = "series ` set (?f dev entry)" and ?B = "series ` set (concat (map2 ?f devs es))"
  have mac: "snd x ! 0 = macLabel d" if "x \<in> series ` set (?f d e)" for x d e
    using that series_samples [of d "labelsOf d e"] by (auto simp: labelsOf_def)
  have rest: "snd x ! 0 \<in> set (map macLabel devs)" if "x \<in> ?B" for x
  proof -
    from that obtain i where "i < length devs" "x \<in> series ` set (?f (devs ! i) (es ! i))"
      using Cons.hyps by (auto simp: set_zip)
    then show ?thesis using mac by fastforce
  qed
  have "macLabel dev \<notin> set (map macLabel devs)" using Cons.prems by simp
  then have "x \<notin> ?B" if "x \<in> ?A" for x using mac [OF that] rest [of x] by metis
  then have "?A \<inter> ?B = {}" by blast
  moreover have "distinct (map series (concat (map2 ?f devs es)))" using Cons.IH Cons.prems by simp
  ultimately show ?case using distinct_series_samples [of dev "labelsOf dev entry"]
    by (simp only: zip_Cons_Cons list.map prod.case concat.simps map_append distinct_append set_map)
qed

text \<open>
  C29: A scrape reads only, and returns for every listed device, in order, the gauges that
  \<open>Describe\<close> announces, each 0 or 1 according to the device's status, all under the same four
  label values: the MAC (or the object name where there is none), the first name that is set of
  display name, registry, device and object, and the registry's room and appliance, which are
  empty where it has none. A failed registry read counts as an empty entry and never fails the
  scrape. No series appears twice as long as the MACs differ.
\<close>

theorem Collect_series:
  assumes "listDevices S (dc_namespace c) (w_env w) = (Inr devs, e)"
    and "Collect S G c w = (ms, w')"
  shows "w_trace w' = w_trace w \<and>
    ms = concat (map2 (\<lambda>dev entry. samples dev (labelsOf dev entry)) devs
           (registryReads S G (dc_registryName c) devs (w\<lparr>w_env := e\<rparr>))) \<and>
    (distinct (map macLabel devs) \<longrightarrow> distinct (map series ms))"
proof -
  have "collectLoop S G c devs (w\<lparr>w_env := e\<rparr>) = (ms, w')" using assms by (simp add: Collect_def askEnv_def)
  from collectLoop_spec [OF this] show ?thesis by (simp add: distinct_series)
qed

text \<open>Two devices, one of them in sync, and a registry that cannot be read.\<close>

definition twoDevices :: "ShellyDevice list" where
  "twoDevices =
     [exampleDevice\<lparr>d_status := exampleStatus\<lparr>st_conditions :=
        [\<lparr>c_type = ConditionInSync, c_status = ConditionTrue, c_reason = ''Synced'', c_message = [], c_observedGeneration = 1\<rparr>]\<rparr>\<rparr>,
      exampleDevice\<lparr>d_status := exampleStatus\<lparr>st_mac := ''CCDD'', st_online := False\<rparr>\<rparr>]"

definition scrapeOps :: "time sysops" where
  "scrapeOps = quietOps\<lparr>listDevices := (\<lambda>ns e. (Inr twoDevices, e)),
     getConfigMap := (\<lambda>ns n e. (Inl (ErrText ''forbidden''), e))\<rparr>"

theorem Collect_series_witness:
  "case Collect scrapeOps exampleLib (NewDeviceCollector ''ns'' ''registry'') (startWorld 0) of (ms, w') \<Rightarrow>
     distinct (map series ms) \<and> w_trace w' = []"
proof -
  let ?c = "NewDeviceCollector ''ns'' ''registry''"
  obtain ms w' where r: "Collect scrapeOps exampleLib ?c (startWorld 0) = (ms, w')" by force
  have l: "listDevices scrapeOps (dc_namespace ?c) (w_env (startWorld 0)) = (Inr twoDevices, 0)"
    by (simp add: scrapeOps_def startWorld_def)
  have "w_trace (startWorld (0 :: time)) = []" "distinct (map macLabel twoDevices)" by (simp add: startWorld_def, code_simp)
  then show ?thesis unfolding r prod.case using Collect_series [OF l r] by metis
qed

end
