(* ===== verification/Dashboard.thy ===== *)
theory Dashboard
  imports Fleet Drift Render Effects
begin

text \<open>
  \<open>internal/dashboard\<close>: the read-only web pages. The HTML templates and the JSON printer are
  parameters; a page is the response that is written.
\<close>

section \<open>server.go\<close>

record Server =
  srv_namespace :: string
  srv_nameMapName :: string
  srv_registryName :: string

record page =
  pg_status :: int
  pg_contentType :: string
  pg_body :: string

definition httpError :: "string \<Rightarrow> int \<Rightarrow> page" where
  "httpError msg code =
     \<lparr>pg_status = code, pg_contentType = ''text/plain; charset=utf-8'', pg_body = msg @ [CHR 0x0A]\<rparr>"

definition notFound :: page where
  "notFound = httpError ''404 page not found'' 404"

record fleetRow =
  fr_object :: string
  fr_name :: string
  fr_room :: string
  fr_type :: string
  fr_model :: string
  fr_address :: string
  fr_profile :: string
  fr_sync :: string
  fr_syncClass :: string
  fr_drift :: string
  fr_update :: string
  fr_online :: bool

definition syncState :: "k8slib \<Rightarrow> ShellyDevice \<Rightarrow> string \<times> string" where
  "syncState K d =
     (case findStatusCondition K (st_conditions (d_status d)) ConditionInSync of
        None \<Rightarrow> (''unknown'', ''unk'')
      | Some c \<Rightarrow>
          (c_reason c,
           case c_status c of ConditionTrue \<Rightarrow> ''ok'' | ConditionFalse \<Rightarrow> ''bad'' | ConditionUnknown \<Rightarrow> ''unk''))"

definition render :: "('a \<Rightarrow> go_error + string) \<Rightarrow> 'a \<Rightarrow> page" where
  "render t data =
     (case t data of
        Inl err \<Rightarrow> httpError (errText err) 500
      | Inr buf \<Rightarrow> \<lparr>pg_status = 200, pg_contentType = ''text/html; charset=utf-8'', pg_body = buf\<rparr>)"

definition toFleetRow :: "k8slib \<Rightarrow> ShellyDevice \<Rightarrow> fleetRow" where
  "toFleetRow K d =
     (let (sync, cls) = syncState K d;
          name = ds_displayName (d_spec d);
          name = (if name = [] then st_deviceName (d_status d) else name)
      in \<lparr>fr_object = m_name (d_meta d), fr_name = name,
          fr_room = mgetS (m_labels (d_meta d)) LabelRoom, fr_type = mgetS (m_labels (d_meta d)) LabelAppliance,
          fr_model = st_model (d_status d), fr_address = st_address (d_status d),
          fr_profile = st_matchedProfile (d_status d), fr_sync = sync, fr_syncClass = cls,
          fr_drift = joinStrings (st_driftedSections (d_status d)) '', '',
          fr_update = st_availableFirmware (d_status d), fr_online = st_online (d_status d)\<rparr>)"

text \<open>Object names are unique in a namespace, so any sort by name gives the same rows.\<close>

definition handleFleet :: "'e sysops \<Rightarrow> k8slib \<Rightarrow> (fleetRow list \<Rightarrow> go_error + string) \<Rightarrow> Server \<Rightarrow> 'e world
    \<Rightarrow> page \<times> 'e world" where
  "handleFleet S K fleetTmpl s w =
     (case askEnv (listDevices S (srv_namespace s)) w of
        (Inl err, w) \<Rightarrow> (httpError (errText err) 500, w)
      | (Inr devs, w) \<Rightarrow> (render fleetTmpl (sort_key fr_object (map (toFleetRow K) devs)), w))"

section \<open>detail.go\<close>

text \<open>
  The pattern \<open>(?i)pass|token|secret|key\<close>: \<open>(?i)\<close> folds the ASCII letters and the two other
  runes whose simple folding is one of them, long s and the Kelvin sign.
\<close>

definition foldRune :: "nat \<Rightarrow> nat" where
  "foldRune r =
     (if 65 \<le> r \<and> r \<le> 90 then r + 32
      else if r = 383 then 115
      else if r = 8490 then 107
      else r)"

fun containsRunes :: "nat list \<Rightarrow> nat list \<Rightarrow> bool" where
  "containsRunes [] p \<longleftrightarrow> p = []"
| "containsRunes (r # rs) p \<longleftrightarrow> take (length p) (r # rs) = p \<or> containsRunes rs p"

definition secretKeyPattern :: "string \<Rightarrow> bool" where
  "secretKeyPattern k \<longleftrightarrow>
     list_ex (\<lambda>p. containsRunes (map foldRune (goRunes k)) (map byte p)) [''pass'', ''token'', ''secret'', ''key'']"

fun redactSecrets :: "jmap \<Rightarrow> jmap" and redactValue :: "json \<Rightarrow> json" and redactArr :: "json list \<Rightarrow> json list" where
  "redactSecrets [] = []"
| "redactSecrets ((k, v) # m) =
     (k, if secretKeyPattern k \<and> v \<noteq> JNull then JStr ''[redacted]'' else redactValue v) # redactSecrets m"
| "redactValue (JObj t) = JObj (redactSecrets t)"
| "redactValue (JArr t) = JArr (redactArr t)"
| "redactValue v = v"
| "redactArr [] = []"
| "redactArr (e # t) = redactValue e # redactArr t"

definition appendMsg :: "string \<Rightarrow> string \<Rightarrow> string" where
  "appendMsg existing add = (if existing = [] then add else existing @ ''; '' @ add)"

definition mustJSON :: "(jmap \<Rightarrow> go_error + string) \<Rightarrow> jmap \<Rightarrow> string" where
  "mustJSON marshalIndent v =
     (case marshalIndent v of Inl err \<Rightarrow> ''render error: '' @ errText err | Inr b \<Rightarrow> b)"

record deviceView =
  dv_object :: string
  dv_name :: string
  dv_model :: string
  dv_address :: string
  dv_firmware :: string
  dv_availableFirmware :: string
  dv_profile :: string
  dv_sync :: string
  dv_syncClass :: string
  dv_message :: string
  dv_gen :: int32
  dv_online :: bool
  dv_findings :: "Finding list"
  dv_desired :: string
  dv_actual :: string

text \<open>The view of a device before its live configuration is read.\<close>

definition storedView :: "k8slib \<Rightarrow> ShellyDevice \<Rightarrow> deviceView" where
  "storedView K dev =
     (let (sync, cls) = syncState K dev
      in \<lparr>dv_object = m_name (d_meta dev), dv_name = [], dv_model = st_model (d_status dev),
          dv_address = st_address (d_status dev), dv_firmware = st_firmware (d_status dev),
          dv_availableFirmware = st_availableFirmware (d_status dev),
          dv_profile = st_matchedProfile (d_status dev), dv_sync = sync, dv_syncClass = cls,
          dv_message = (case findStatusCondition K (st_conditions (d_status dev)) ConditionInSync of
                          Some c \<Rightarrow> c_message c | None \<Rightarrow> []),
          dv_gen = st_gen (d_status dev), dv_online = st_online (d_status dev),
          dv_findings = [], dv_desired = [], dv_actual = []\<rparr>)"

definition addMsg :: "string \<Rightarrow> deviceView \<Rightarrow> deviceView" where
  "addMsg m view = view\<lparr>dv_message := appendMsg (dv_message view) m\<rparr>"

text \<open>A client of its own per request: its digest state is part of the connection's state.\<close>

definition clientConn :: "'e sysops \<Rightarrow> golib \<Rightarrow> string \<Rightarrow> (Client \<times> 'e world) conn" where
  "clientConn S G host =
     \<lparr>cn_host = host,
      cn_call = (\<lambda>rpc params (c, w). case Call S G c rpc params w of (r, c, w) \<Rightarrow> (r, (c, w)))\<rparr>"

definition redactedDesired :: "jmap gomap \<Rightarrow> jmap" where
  "redactedDesired desired = map (\<lambda>(k, v). (k, JObj (redactSecrets v))) desired"

definition actualTree :: "jmap \<Rightarrow> jmap" where
  "actualTree actual = map (\<lambda>(k, v). (k, case v of JObj m \<Rightarrow> JObj (redactSecrets m) | _ \<Rightarrow> v)) actual"

definition withConfig :: "golib \<Rightarrow> (jmap \<Rightarrow> go_error + string) \<Rightarrow> ShellyProfile \<Rightarrow> string \<Rightarrow> jmap \<Rightarrow> deviceView \<Rightarrow> deviceView" where
  "withConfig G marshalIndent profile name actual view =
     (let desired = Render G (ps_config (p_spec profile)) name actual;
          view = (case Diff desired actual of
                    Inl err \<Rightarrow> addMsg (''diff failed: '' @ errText err) view
                  | Inr findings \<Rightarrow> view\<lparr>dv_findings := findings\<rparr>)
      in view\<lparr>dv_desired := mustJSON marshalIndent (redactedDesired desired),
              dv_actual := mustJSON marshalIndent (actualTree actual)\<rparr>)"

text \<open>The live part: only for a device that is reachable and governed by a profile.\<close>

definition liveView :: "'e sysops \<Rightarrow> golib \<Rightarrow> (jmap \<Rightarrow> go_error + string) \<Rightarrow> ShellyDevice \<Rightarrow> ShellyProfile option
    \<Rightarrow> string \<Rightarrow> deviceView \<Rightarrow> 'e world \<Rightarrow> deviceView \<times> 'e world" where
  "liveView S G marshalIndent dev profile name view w =
     (case profile of
        None \<Rightarrow> (view, w)
      | Some profile \<Rightarrow>
          if st_online (d_status dev) \<and> st_address (d_status dev) \<noteq> [] then
            (let addr = st_address (d_status dev);
                 (pw, w) = ResolvePassword S (m_namespace (d_meta dev)) (pc_auth (ps_config (p_spec profile))) w;
                 view = (case pw of Inl err \<Rightarrow> addMsg (''password secret unavailable: '' @ errText err) view | Inr _ \<Rightarrow> view);
                 password = (case pw of Inl _ \<Rightarrow> [] | Inr password \<Rightarrow> password);
                 (r, (c, w)) = GetConfig (clientConn S G addr) (NewClient addr password, w)
             in case r of
                  Inr actual \<Rightarrow> (withConfig G marshalIndent profile name actual view, w)
                | Inl err \<Rightarrow> (addMsg (''live config fetch failed: '' @ errText err) view, w))
          else (view, w))"

definition deviceViewOf :: "'e sysops \<Rightarrow> golib \<Rightarrow> k8slib \<Rightarrow> (jmap \<Rightarrow> go_error + string) \<Rightarrow> Server \<Rightarrow> string \<Rightarrow> 'e world
    \<Rightarrow> (page + deviceView) \<times> 'e world" where
  "deviceViewOf S G K marshalIndent s path w =
     (case askEnv (getDevice S (srv_namespace s) path) w of
        (Inl err, w) \<Rightarrow> (Inl (if isNotFound err then notFound else httpError (errText err) 500), w)
      | (Inr dev, w) \<Rightarrow>
          (case askEnv (listProfiles S (srv_namespace s)) w of
             (Inl err, w) \<Rightarrow> (Inl (httpError (errText err) 500), w)
           | (Inr profiles, w) \<Rightarrow>
               (let (profile, warnings) = MatchProfile K dev profiles;
                    (n, w) = ResolveName S G dev (srv_nameMapName s) (srv_registryName s) w;
                    view = storedView K dev;
                    view = (case n of Inl err \<Rightarrow> addMsg (''name map unavailable: '' @ errText err) view | Inr _ \<Rightarrow> view);
                    name = (case n of Inl _ \<Rightarrow> [] | Inr name \<Rightarrow> name);
                    (view, w) = liveView S G marshalIndent dev profile name (view\<lparr>dv_name := name\<rparr>) w
                in (Inr view, w))))"

definition handleDevice :: "'e sysops \<Rightarrow> golib \<Rightarrow> k8slib \<Rightarrow> (jmap \<Rightarrow> go_error + string) \<Rightarrow> (deviceView \<Rightarrow> go_error + string)
    \<Rightarrow> Server \<Rightarrow> string \<Rightarrow> 'e world \<Rightarrow> page \<times> 'e world" where
  "handleDevice S G K marshalIndent deviceTmpl s path w =
     (case deviceViewOf S G K marshalIndent s path w of
        (Inl p, w) \<Rightarrow> (p, w)
      | (Inr view, w) \<Rightarrow> (render deviceTmpl view, w))"

record profileRow =
  pr_name :: string
  pr_mode :: string
  pr_priority :: int32
  pr_matched :: nat

fun countMatches :: "k8slib \<Rightarrow> ShellyProfile list \<Rightarrow> ShellyDevice list \<Rightarrow> nat gomap \<Rightarrow> nat gomap" where
  "countMatches K profiles [] counts = counts"
| "countMatches K profiles (dev # devs) counts =
     countMatches K profiles devs
       (case fst (MatchProfile K dev profiles) of
          None \<Rightarrow> counts
        | Some p \<Rightarrow> AList.update (profileName p)
            (Suc (case map_of counts (profileName p) of None \<Rightarrow> 0 | Some n \<Rightarrow> n)) counts)"

definition profileRows :: "k8slib \<Rightarrow> ShellyProfile list \<Rightarrow> ShellyDevice list \<Rightarrow> profileRow list" where
  "profileRows K profiles devs =
     (let counts = countMatches K profiles devs []
      in sort_key pr_name (map (\<lambda>p.
           \<lparr>pr_name = profileName p, pr_mode = ps_mode (p_spec p), pr_priority = ps_priority (p_spec p),
            pr_matched = (case map_of counts (profileName p) of None \<Rightarrow> 0 | Some n \<Rightarrow> n)\<rparr>) profiles))"

definition handleProfiles :: "'e sysops \<Rightarrow> k8slib \<Rightarrow> (profileRow list \<Rightarrow> go_error + string) \<Rightarrow> Server \<Rightarrow> 'e world
    \<Rightarrow> page \<times> 'e world" where
  "handleProfiles S K profilesTmpl s w =
     (case askEnv (listProfiles S (srv_namespace s)) w of
        (Inl err, w) \<Rightarrow> (httpError (errText err) 500, w)
      | (Inr profiles, w) \<Rightarrow>
          (case askEnv (listDevices S (srv_namespace s)) w of
             (Inl err, w) \<Rightarrow> (httpError (errText err) 500, w)
           | (Inr devs, w) \<Rightarrow> (render profilesTmpl (profileRows K profiles devs), w)))"

section \<open>server.go, the routes\<close>

text \<open>
  The templates and the JSON printer, and \<open>handler\<close> with the routing of \<open>http.ServeMux\<close>. The path
  of a request is the list of its decoded segments, so that \<open>/\<close> is one empty segment; the
  redirects of \<open>ServeMux\<close> to a cleaned path come before and are left out. \<open>GET\<close> patterns match
  \<open>HEAD\<close> too, and a path that only other methods match is answered with 405.
\<close>

record templates =
  tm_fleet :: "fleetRow list \<Rightarrow> go_error + string"
  tm_device :: "deviceView \<Rightarrow> go_error + string"
  tm_profiles :: "profileRow list \<Rightarrow> go_error + string"
  tm_json :: "jmap \<Rightarrow> go_error + string"

datatype route = FleetPage | DevicePage string | ProfilesPage

definition routeOf :: "string list \<Rightarrow> route option" where
  "routeOf segs =
     (if segs = [[]] then Some FleetPage
      else if segs = [''profiles''] then Some ProfilesPage
      else if length segs = 2 \<and> hd segs = ''device'' \<and> segs ! 1 \<noteq> [] then Some (DevicePage (segs ! 1))
      else None)"

definition handler :: "'e sysops \<Rightarrow> golib \<Rightarrow> k8slib \<Rightarrow> templates \<Rightarrow> Server \<Rightarrow> string \<Rightarrow> string list \<Rightarrow> 'e world
    \<Rightarrow> page \<times> 'e world" where
  "handler S G K T s rqMethod segs w =
     (case routeOf segs of
        None \<Rightarrow> (notFound, w)
      | Some r \<Rightarrow>
          if rqMethod \<noteq> ''GET'' \<and> rqMethod \<noteq> ''HEAD'' then (httpError ''Method Not Allowed'' 405, w)
          else
            (case r of
               FleetPage \<Rightarrow> handleFleet S K (tm_fleet T) s w
             | DevicePage name \<Rightarrow> handleDevice S G K (tm_json T) (tm_device T) s name w
             | ProfilesPage \<Rightarrow> handleProfiles S K (tm_profiles T) s w))"

section \<open>Redaction\<close>

text \<open>A place in a JSON tree, and what is there.\<close>

datatype step = Key string | Idx nat

fun jsonAt :: "json \<Rightarrow> step list \<Rightarrow> json option" where
  "jsonAt v [] = Some v"
| "jsonAt (JObj m) (Key k # ps) = (case map_of m k of None \<Rightarrow> None | Some v \<Rightarrow> jsonAt v ps)"
| "jsonAt (JArr vs) (Idx i # ps) = (if i < length vs then jsonAt (vs ! i) ps else None)"
| "jsonAt _ _ = None"

fun secretStep :: "step \<Rightarrow> bool" where
  "secretStep (Key k) \<longleftrightarrow> secretKeyPattern k"
| "secretStep (Idx i) \<longleftrightarrow> False"

definition masked :: "json option \<Rightarrow> bool" where
  "masked v \<longleftrightarrow> v = None \<or> v = Some JNull \<or> v = Some (JStr ''[redacted]'')"

lemma map_of_redactSecrets:
  "map_of (redactSecrets m) k =
     map_option (\<lambda>v. if secretKeyPattern k \<and> v \<noteq> JNull then JStr ''[redacted]'' else redactValue v) (map_of m k)"
  by (induction m) (auto simp del: secretStep.simps)

lemma redactArr_map: "redactArr vs = map redactValue vs"
  by (induction vs) simp_all

lemma jsonAt_leaf: "jsonAt JNull ps = (if ps = [] then Some JNull else None)"
  "jsonAt (JStr x) ps = (if ps = [] then Some (JStr x) else None)"
  by (cases ps; simp)+

lemma redactValue_shown:
  "\<not> list_ex secretStep ps \<Longrightarrow> jsonAt (redactValue v) ps = map_option redactValue (jsonAt v ps)"
  by (induction v ps rule: jsonAt.induct)
    (auto simp: map_of_redactSecrets redactArr_map split: option.splits)

lemma redactValue_hides: "list_ex secretStep ps \<Longrightarrow> masked (jsonAt (redactValue v) ps)"
proof (induction v ps rule: jsonAt.induct)
  case (2 m k ps)
  then show ?case by (auto simp: map_of_redactSecrets jsonAt_leaf masked_def split: option.splits)
next
  case (3 vs i ps)
  then show ?case by (auto simp: redactArr_map masked_def)
qed (auto simp: masked_def)

lemma jsonAt_append: "jsonAt v (ps @ qs) = Option.bind (jsonAt v ps) (\<lambda>u. jsonAt u qs)"
  by (induction v ps rule: jsonAt.induct) (auto split: option.splits)

lemma redactValue_key:
  assumes "secretStep s"
  shows "jsonAt (redactValue u) (s # qs) =
    (case jsonAt u [s] of
       None \<Rightarrow> None
     | Some x \<Rightarrow> if qs = [] then Some (if x = JNull then JNull else JStr ''[redacted]'') else None)"
proof -
  obtain k where "s = Key k" "secretKeyPattern k" using assms by (cases s) auto
  then show ?thesis
    by (cases u) (auto simp: map_of_redactSecrets jsonAt_leaf split: option.splits)
qed

text \<open>
  The same thing is shown at a place: a value as it was, an object with the same keys, an array
  of the same length, or nothing where there was nothing.
\<close>

definition shownAs :: "json option \<Rightarrow> json option \<Rightarrow> bool" where
  "shownAs a b \<longleftrightarrow>
     (case a of
        None \<Rightarrow> b = None
      | Some (JObj m) \<Rightarrow> (\<exists>m'. b = Some (JObj m') \<and> map fst m' = map fst m)
      | Some (JArr vs) \<Rightarrow> (\<exists>vs'. b = Some (JArr vs') \<and> length vs' = length vs)
      | Some x \<Rightarrow> b = Some x)"

lemma keys_redactSecrets: "map fst (redactSecrets m) = map fst m"
  by (induction m) auto

lemma shownAs_redacted: "shownAs x (map_option redactValue x)"
  by (auto simp: shownAs_def keys_redactSecrets redactArr_map split: option.split json.split)

text \<open>
  C26: Redaction hides exactly what it should, at every place of a tree. A place that is reached
  through no secret-looking key (whatever its case, in nested objects and in arrays) shows what
  was there: the same value, an object with the same keys, an array of the same length. At the
  first secret-looking key on the way the tree has the mask where there was a value, null where
  there was null and nothing where there was nothing, and below such a key it has nothing.
\<close>

theorem redaction_exact:
  "case dropWhile (\<lambda>s. \<not> secretStep s) ps of
     [] \<Rightarrow> shownAs (jsonAt v ps) (jsonAt (redactValue v) ps)
   | s # qs \<Rightarrow>
       jsonAt (redactValue v) ps =
         (case jsonAt v (takeWhile (\<lambda>s. \<not> secretStep s) ps @ [s]) of
            None \<Rightarrow> None
          | Some x \<Rightarrow> if qs = [] then Some (if x = JNull then JNull else JStr ''[redacted]'') else None)"
proof (cases "dropWhile (\<lambda>s. \<not> secretStep s) ps")
  case Nil
  then have "\<not> list_ex secretStep ps" by (auto simp: dropWhile_eq_Nil_conv list_ex_iff)
  then show ?thesis unfolding Nil list.case by (simp add: redactValue_shown shownAs_redacted)
next
  case (Cons s qs)
  let ?pre = "takeWhile (\<lambda>s. \<not> secretStep s) ps"
  have s: "secretStep s" using hd_dropWhile [of "\<lambda>s. \<not> secretStep s" ps] Cons by simp
  have pre: "\<not> list_ex secretStep ?pre" by (auto simp: list_ex_iff dest: set_takeWhileD)
  have "ps = ?pre @ s # qs" using takeWhile_dropWhile_id [of "\<lambda>s. \<not> secretStep s" ps] Cons by simp
  then have "jsonAt (redactValue v) ps = Option.bind (map_option redactValue (jsonAt v ?pre)) (\<lambda>u. jsonAt u (s # qs))"
    using redactValue_shown [OF pre, of v] jsonAt_append by metis
  then show ?thesis using Cons redactValue_key [OF s]
    by (cases "jsonAt v ?pre") (auto simp: jsonAt_append)
qed

section \<open>The pages only read\<close>

lemma GetConfig_client_trace:
  assumes "GetConfig (clientConn S G (cl_host c)) (c, w) = (r, (c', w'))"
  shows "\<exists>xs. w_trace w' = w_trace w @ xs \<and> length xs \<le> 6 \<and>
    list_all (isPost c (rpcRequest ''Shelly.GetConfig'' None)) xs"
proof -
  obtain r1 c1 w1 where "Call S G c ''Shelly.GetConfig'' None w = (r1, c1, w1)" by (metis prod_cases3)
  moreover from this have "w' = w1" using assms
    by (auto simp: GetConfig_def callDec_def clientConn_def Let_def split: sum.splits)
  ultimately show ?thesis using Call_trace by metis
qed

text \<open>What a configuration pane may show: no secret below any section.\<close>

definition paneSafe :: "(jmap \<Rightarrow> go_error + string) \<Rightarrow> string \<Rightarrow> bool" where
  "paneSafe marshalIndent pane \<longleftrightarrow>
     pane = [] \<or>
     (\<exists>tree. pane = mustJSON marshalIndent tree \<and>
        (\<forall>sec v ps. map_of tree sec = Some v \<longrightarrow> list_ex secretStep ps \<longrightarrow> masked (jsonAt v ps)))"

text \<open>
  \<open>Shelly.GetConfig\<close> answers one object per component. The pane of the actual configuration relies
  on it: a section that is no object is shown as it came.
\<close>

definition reportsObjects :: "'e sysops \<Rightarrow> golib \<Rightarrow> bool" where
  "reportsObjects S G \<longleftrightarrow>
     (\<forall>c w actual cw. GetConfig (clientConn S G (cl_host c)) (c, w) = (Inr actual, cw) \<longrightarrow>
        list_all (\<lambda>(sec, v). is_JObj v) actual)"

lemma actualTree_array_shown:
  "actualTree [(''rules'', JArr [JObj [(''pass'', JStr x)]])] = [(''rules'', JArr [JObj [(''pass'', JStr x)]])]"
  by (simp add: actualTree_def)

lemma paneSafe_desired: "paneSafe mi (mustJSON mi (redactedDesired desired))"
proof -
  have "masked (jsonAt (JObj (redactSecrets m)) ps)" if "list_ex secretStep ps" for m ps
    using redactValue_hides [OF that, of "JObj m"] by simp
  then show ?thesis unfolding paneSafe_def
    by (intro disjI2 exI [of _ "redactedDesired desired"]) (auto simp: redactedDesired_def map_of_map)
qed

lemma paneSafe_actual:
  assumes "list_all (\<lambda>(sec, v). is_JObj v) actual"
  shows "paneSafe mi (mustJSON mi (actualTree actual))"
proof -
  have "actualTree actual = map (\<lambda>(k, v). (k, redactValue v)) actual"
    using assms unfolding actualTree_def list_all_iff
    by (intro map_cong refl) (fastforce split: json.split)
  then show ?thesis unfolding paneSafe_def
    by (intro disjI2 exI [of _ "actualTree actual"]) (auto simp: map_of_map redactValue_hides)
qed

lemma addMsg_panes [simp]: "dv_desired (addMsg m v) = dv_desired v" "dv_actual (addMsg m v) = dv_actual v"
  "dv_object (addMsg m v) = dv_object v" "dv_online (addMsg m v) = dv_online v"
  by (simp_all add: addMsg_def)

lemma liveView_spec:
  assumes "liveView S G mi dev profile name view w = (view', w')" "dv_desired view = []" "dv_actual view = []"
  shows "paneSafe mi (dv_desired view') \<and> (reportsObjects S G \<longrightarrow> paneSafe mi (dv_actual view')) \<and>
    (\<exists>xs. w_trace w' = w_trace w @ xs \<and> length xs \<le> 6 \<and>
       list_all (isPost (NewClient (st_address (d_status dev)) []) (rpcRequest ''Shelly.GetConfig'' None)) xs \<and>
       (xs = [] \<or> st_online (d_status dev) \<and> st_address (d_status dev) \<noteq> [] \<and> profile \<noteq> None))"
proof (cases "\<exists>p. profile = Some p \<and> st_online (d_status dev) \<and> st_address (d_status dev) \<noteq> []")
  case False
  then have "view' = view" "w' = w" using assms(1) by (auto simp: liveView_def split: option.splits)
  then show ?thesis using assms(2,3) by (simp add: paneSafe_def)
next
  case True
  then obtain p where p: "profile = Some p" "st_online (d_status dev)" "st_address (d_status dev) \<noteq> []" by blast
  let ?a = "st_address (d_status dev)"
  obtain pw w1 where pw: "ResolvePassword S (m_namespace (d_meta dev)) (pc_auth (ps_config (p_spec p))) w = (pw, w1)"
    by force
  define c where "c = NewClient ?a (case pw of Inl _ \<Rightarrow> [] | Inr password \<Rightarrow> password)"
  have h: "cl_host c = ?a" by (simp add: c_def NewClient_def)
  obtain r c2 w2 where g: "GetConfig (clientConn S G ?a) (c, w1) = (r, (c2, w2))" by (metis prod_cases3)
  have "list_all (\<lambda>(sec, v). is_JObj v) actual" if "reportsObjects S G" "r = Inr actual" for actual
    using that g h unfolding reportsObjects_def by metis
  then have "w' = w2" "paneSafe mi (dv_desired view') \<and> (reportsObjects S G \<longrightarrow> paneSafe mi (dv_actual view'))"
    using assms p
    by (auto simp: liveView_def pw g c_def [symmetric] Let_def withConfig_def paneSafe_desired paneSafe_actual
        paneSafe_def [of mi "[]"] split: sum.splits)
  moreover obtain xs where "w_trace w2 = w_trace w1 @ xs" "length xs \<le> 6"
      "list_all (isPost c (rpcRequest ''Shelly.GetConfig'' None)) xs"
    using GetConfig_client_trace [of S G c w1 r c2 w2] g h by auto
  moreover have "isPost c = isPost (NewClient ?a [])"
    by (rule ext) (rule isPost_host, simp add: h NewClient_def)
  ultimately show ?thesis using p ResolvePassword_trace [OF pw] by auto
qed

lemma device_view_reads_only:
  assumes "getDevice S (srv_namespace s) path (w_env w) = (Inr dev, e)"
    and "deviceViewOf S G K mi s path w = (r, w')"
  shows "(\<exists>xs. w_trace w' = w_trace w @ xs \<and> length xs \<le> 6 \<and>
       list_all (isPost (NewClient (st_address (d_status dev)) []) (rpcRequest ''Shelly.GetConfig'' None)) xs \<and>
       (st_online (d_status dev) \<or> xs = [])) \<and>
    (\<forall>view. r = Inr view \<longrightarrow>
       dv_object view = m_name (d_meta dev) \<and> paneSafe mi (dv_desired view) \<and>
       (reportsObjects S G \<longrightarrow> paneSafe mi (dv_actual view)))"
proof -
  have d: "askEnv (getDevice S (srv_namespace s) path) w = (Inr dev, w\<lparr>w_env := e\<rparr>)"
    using assms(1) by (simp add: askEnv_def)
  obtain ps w2 where l: "askEnv (listProfiles S (srv_namespace s)) (w\<lparr>w_env := e\<rparr>) = (ps, w2)" by force
  have t2: "w_trace w2 = w_trace w" using askEnv_trace [OF l] by simp
  show ?thesis
  proof (cases ps)
    case (Inl err)
    then show ?thesis using assms(2) t2 by (auto simp: deviceViewOf_def d l)
  next
    case (Inr profiles)
    obtain n w3 where n: "ResolveName S G dev (srv_nameMapName s) (srv_registryName s) w2 = (n, w3)" by force
    define v where "v = (case n of Inl err \<Rightarrow> addMsg (''name map unavailable: '' @ errText err) (storedView K dev)
      | Inr _ \<Rightarrow> storedView K dev)\<lparr>dv_name := (case n of Inl _ \<Rightarrow> [] | Inr name \<Rightarrow> name)\<rparr>"
    have v: "dv_desired v = []" "dv_actual v = []" "dv_object v = m_name (d_meta dev)"
      by (auto simp: v_def storedView_def split_beta split: sum.splits)
    obtain v' w4 where lv: "liveView S G mi dev (fst (MatchProfile K dev profiles))
        (case n of Inl _ \<Rightarrow> [] | Inr name \<Rightarrow> name) v w3 = (v', w4)" by force
    have "r = Inr v'" "w' = w4"
      using assms(2) lv by (auto simp: deviceViewOf_def d l Inr n Let_def split_beta v_def)
    moreover have "dv_object v' = dv_object v"
      using lv by (auto simp: liveView_def withConfig_def Let_def split_beta split: option.splits if_splits sum.splits)
    ultimately show ?thesis using liveView_spec [OF lv v(1,2)] v(3) t2 ResolveName_trace [OF n] by auto
  qed
qed

lemma lists_quiet:
  "handleFleet S K t s w = (p, w') \<Longrightarrow> w_trace w' = w_trace w"
  "handleProfiles S K t' s w = (p, w') \<Longrightarrow> w_trace w' = w_trace w"
  by (auto simp: handleFleet_def handleProfiles_def split: prod.splits sum.splits dest!: askEnv_trace)

lemma missing_device_quiet:
  assumes "getDevice S (srv_namespace s) path (w_env w) = (Inl err, e)" "deviceViewOf S G K mi s path w = (r, w')"
  shows "w_trace w' = w_trace w" "\<exists>p. r = Inl p"
  using assms by (auto simp: deviceViewOf_def askEnv_def)

lemma error_pages: "deviceViewOf S G K mi s path w = (Inl p, w') \<Longrightarrow> pg_status p \<noteq> 200"
  by (auto simp: deviceViewOf_def notFound_def httpError_def Let_def split: prod.splits sum.splits if_splits)

text \<open>
  C24: The dashboard is read-only. Whatever is requested, and whatever the device, the cluster and
  the network answer, a request has no effect but, on the page of an online device, at most six
  POSTs of \<open>Shelly.GetConfig\<close> to that device's own address; a method other than \<open>GET\<close> and \<open>HEAD\<close>
  touches nothing at all. A device page that is shown is rendered from a view whose pane of the
  desired configuration is empty or printed from a tree in which every secret-looking key below a
  section is masked; the same holds of the pane of the actual configuration, provided that devices
  report every section of their configuration as an object, as \<open>Shelly.GetConfig\<close> is documented to.
\<close>

theorem dashboard_reads_only:
  assumes "handler S G K T s rqMethod segs w = (p, w')"
  shows "(\<exists>xs. w_trace w' = w_trace w @ xs \<and> length xs \<le> 6 \<and>
      (xs = [] \<or> (\<exists>name dev e. routeOf segs = Some (DevicePage name) \<and>
        getDevice S (srv_namespace s) name (w_env w) = (Inr dev, e) \<and> st_online (d_status dev) \<and>
        list_all (isPost (NewClient (st_address (d_status dev)) []) (rpcRequest ''Shelly.GetConfig'' None)) xs))) \<and>
    (rqMethod \<notin> {''GET'', ''HEAD''} \<longrightarrow> w' = w \<and> pg_status p \<in> {404, 405}) \<and>
    (\<forall>name. routeOf segs = Some (DevicePage name) \<and> pg_status p = 200 \<longrightarrow>
      (\<exists>view. p = render (tm_device T) view \<and> paneSafe (tm_json T) (dv_desired view) \<and>
        (reportsObjects S G \<longrightarrow> paneSafe (tm_json T) (dv_actual view))))"
proof (cases "(rqMethod = ''GET'' \<or> rqMethod = ''HEAD'') \<and> (\<exists>name. routeOf segs = Some (DevicePage name))")
  case False
  then show ?thesis using assms
    by (auto simp: handler_def notFound_def httpError_def split: option.splits if_splits route.splits dest: lists_quiet)
next
  case True
  then obtain name where n: "routeOf segs = Some (DevicePage name)" by blast
  obtain r w1 where v: "deviceViewOf S G K (tm_json T) s name w = (r, w1)" by force
  have h: "w' = w1" "p = (case r of Inl p \<Rightarrow> p | Inr view \<Rightarrow> render (tm_device T) view)"
    using assms True n v by (auto simp: handler_def handleDevice_def split: sum.splits)
  obtain g e where g: "getDevice S (srv_namespace s) name (w_env w) = (g, e)" by force
  show ?thesis
  proof (cases g)
    case (Inl err)
    then obtain p' where "r = Inl p'" "w_trace w1 = w_trace w" using missing_device_quiet [OF _ v] g by blast
    then show ?thesis using error_pages [of S G K "tm_json T" s name w p' w1] v h True by auto
  next
    case (Inr dev)
    from device_view_reads_only [OF g [unfolded Inr] v]
    obtain xs where xs: "w_trace w1 = w_trace w @ xs" "length xs \<le> 6" "st_online (d_status dev) \<or> xs = []"
        "list_all (isPost (NewClient (st_address (d_status dev)) []) (rpcRequest ''Shelly.GetConfig'' None)) xs"
      and view: "\<And>view. r = Inr view \<Longrightarrow>
        paneSafe (tm_json T) (dv_desired view) \<and> (reportsObjects S G \<longrightarrow> paneSafe (tm_json T) (dv_actual view))"
      by blast
    have "pg_status p = 200 \<Longrightarrow> \<exists>view. p = render (tm_device T) view \<and> paneSafe (tm_json T) (dv_desired view) \<and>
        (reportsObjects S G \<longrightarrow> paneSafe (tm_json T) (dv_actual view))"
      using h(2) view error_pages [of S G K "tm_json T" s name w _ w1] v by (cases r) auto
    then show ?thesis using xs h(1) n g Inr True by blast
  qed
qed

text \<open>A governed device that answers its configuration, with a password in it.\<close>

definition secretConfig :: jmap where
  "secretConfig = [(''wifi'', JObj [(''sta'', JObj [(''ssid'', JStr ''home''), (''Pass'', JStr ''hunter2'')])])]"

definition pageOps :: "time sysops" where
  "pageOps = quietOps\<lparr>listProfiles := (\<lambda>ns e. (Inr [exampleProfile ''p'' 0], e)),
     doHttp := (\<lambda>rq e. (Inr \<lparr>rs_code = 200, rs_status = ''200 OK'', rs_authenticate = [],
        rs_body = Some (JObj [(''id'', jInt 1), (''result'', JObj secretConfig)]), rs_text = []\<rparr>, e))\<rparr>"

definition exampleServer :: Server where
  "exampleServer = \<lparr>srv_namespace = ''ns'', srv_nameMapName = [], srv_registryName = []\<rparr>"

text \<open>A printer that shows the one string the pane should not reveal.\<close>

definition passMarshal :: "jmap \<Rightarrow> go_error + string" where
  "passMarshal m =
     (case jsonAt (JObj m) [Key ''wifi'', Key ''sta'', Key ''Pass''] of Some (JStr x) \<Rightarrow> Inr x | _ \<Rightarrow> Inr [])"

definition dv_texts :: "deviceView \<Rightarrow> go_error + string" where
  "dv_texts view = Inr (dv_actual view)"

definition pageTemplates :: templates where
  "pageTemplates = \<lparr>tm_fleet = (\<lambda>rows. Inr []), tm_device = dv_texts, tm_profiles = (\<lambda>rows. Inr []), tm_json = passMarshal\<rparr>"

lemma pageOps_objects: "reportsObjects pageOps exampleLib"
proof -
  have d: "decodeResponse (Some (JObj [(''id'', jInt 1), (''result'', JObj secretConfig)])) = Inr (Some (JObj secretConfig), None)"
    "decMap (JObj secretConfig) = Inr secretConfig" by (code_simp, code_simp)
  have "fst (GetConfig (clientConn pageOps exampleLib h) (c, w)) = Inr secretConfig" for h c w
    by (simp add: GetConfig_def callDec_def clientConn_def Call_def postRetrying_def postLoop.simps post_def sendRpc_def
        httpW_def askEnv_def pageOps_def orNull_def d split_beta Let_def)
  moreover have "list_all (\<lambda>(sec, v). is_JObj v) secretConfig" by code_simp
  ultimately show ?thesis unfolding reportsObjects_def by (metis fst_conv sum.inject(2))
qed

theorem dashboard_reads_only_witness:
  "\<exists>p w'. handler pageOps exampleLib exampleK8s pageTemplates exampleServer ''GET'' [''device'', ''aabb''] (startWorld 0) = (p, w') \<and>
     length (w_trace w') = 1 \<and> pg_body p = ''[redacted]'' \<and>
     list_all (isPost (NewClient ''10.0.0.9'' []) (rpcRequest ''Shelly.GetConfig'' None)) (w_trace w') \<and>
     (\<exists>view. p = render dv_texts view \<and> paneSafe passMarshal (dv_actual view))"
proof -
  obtain p w' where r: "handler pageOps exampleLib exampleK8s pageTemplates exampleServer ''GET'' [''device'', ''aabb''] (startWorld 0) = (p, w')"
    by force
  have g: "getDevice pageOps (srv_namespace exampleServer) ''aabb'' (w_env (startWorld 0)) = (Inr exampleDevice, 0)"
    by (simp add: pageOps_def quietOps_def startWorld_def)
  have n: "routeOf [''device'', ''aabb''] = Some (DevicePage ''aabb'')" by code_simp
  have "case handler pageOps exampleLib exampleK8s pageTemplates exampleServer ''GET'' [''device'', ''aabb''] (startWorld 0) of
     (p, w') \<Rightarrow> length (w_trace w') = 1 \<and> pg_body p = ''[redacted]'' \<and> pg_status p = 200"
    by code_simp
  then have c: "length (w_trace w') = 1" "pg_body p = ''[redacted]''" "pg_status p = 200" by (simp_all add: r)
  have "st_address (d_status exampleDevice) = ''10.0.0.9''" by (simp add: example_defs)
  then show ?thesis
    using dashboard_reads_only [OF r] g n c r pageOps_objects by (auto simp: startWorld_def pageTemplates_def)
qed

section \<open>The profile page\<close>

definition governs :: "k8slib \<Rightarrow> ShellyProfile list \<Rightarrow> string \<Rightarrow> ShellyDevice \<Rightarrow> bool" where
  "governs K profiles name dev \<longleftrightarrow> map_option profileName (fst (MatchProfile K dev profiles)) = Some name"

abbreviation countOf :: "nat gomap \<Rightarrow> string \<Rightarrow> nat" where
  "countOf counts name \<equiv> (case map_of counts name of None \<Rightarrow> 0 | Some n \<Rightarrow> n)"

lemma countMatches_count:
  "countOf (countMatches K profiles devs counts) name = countOf counts name + length (filter (governs K profiles name) devs)"
  by (induction devs arbitrary: counts)
    (auto simp: governs_def map_of_update split: option.splits)

lemma sum_list_mset_eq:
  assumes "mset xs = mset ys"
  shows "sum_list (map f xs) = (sum_list (map f ys) :: nat)"
  using arg_cong [OF assms, of "\<lambda>m. sum_mset (image_mset f m)"] by (simp add: sum_mset_sum_list flip: mset_map)

lemma sum_governs:
  assumes "distinct names"
  shows "(\<Sum>n\<leftarrow>names. length (filter (governs K profiles n) devs)) =
    length (filter (\<lambda>d. \<exists>n \<in> set names. governs K profiles n d) devs)"
proof (induction devs)
  case (Cons d devs)
  have "(\<Sum>n\<leftarrow>names. if governs K profiles n d then 1 else 0) = (if \<exists>n \<in> set names. governs K profiles n d then 1 else (0 :: nat))"
    using assms by (induction names) (auto simp: governs_def)
  moreover have "(\<Sum>n\<leftarrow>names. length (filter (governs K profiles n) (d # devs))) =
      (\<Sum>n\<leftarrow>names. if governs K profiles n d then 1 else 0) + (\<Sum>n\<leftarrow>names. length (filter (governs K profiles n) devs))"
    by (subst sum_list_addf [symmetric]) (auto intro!: arg_cong [of _ _ sum_list])
  ultimately show ?case using Cons.IH by simp
qed simp

text \<open>
  The profile page counts every device once: its rows are the profiles in the order of their
  names, each with the number of devices whose governing profile it is, so that over all rows
  the counts add up to the number of devices that some profile governs.
\<close>

theorem profileRows_count:
  assumes "distinct (map profileName profiles)"
  shows "sorted (map pr_name (profileRows K profiles devs)) \<and>
    mset (map pr_name (profileRows K profiles devs)) = mset (map profileName profiles) \<and>
    (\<forall>row \<in> set (profileRows K profiles devs).
       pr_matched row = length (filter (governs K profiles (pr_name row)) devs)) \<and>
    (\<Sum>row\<leftarrow>profileRows K profiles devs. pr_matched row) =
       length (filter (\<lambda>d. fst (MatchProfile K d profiles) \<noteq> None) devs)"
proof -
  let ?rows = "profileRows K profiles devs"
  have m: "mset ?rows = mset (map (\<lambda>p. \<lparr>pr_name = profileName p, pr_mode = ps_mode (p_spec p),
      pr_priority = ps_priority (p_spec p), pr_matched = length (filter (governs K profiles (profileName p)) devs)\<rparr>) profiles)"
    by (simp add: profileRows_def Let_def countMatches_count)
  have g: "(\<exists>n \<in> set (map profileName profiles). governs K profiles n d) \<longleftrightarrow> fst (MatchProfile K d profiles) \<noteq> None" for d
    by (cases "MatchProfile K d profiles") (auto simp: governs_def dest: MatchProfile_mem)
  have n: "mset (map pr_name ?rows) = mset (map profileName profiles)"
    using arg_cong [OF m, of "image_mset pr_name"] by (simp add: image_mset.compositionality comp_def)
  have row: "\<forall>row \<in> set ?rows. pr_matched row = length (filter (governs K profiles (pr_name row)) devs)"
    using mset_eq_setD [OF m] by auto
  have "(\<Sum>row\<leftarrow>?rows. pr_matched row) = (\<Sum>row\<leftarrow>?rows. length (filter (governs K profiles (pr_name row)) devs))"
    using row by (auto intro!: arg_cong [of _ _ sum_list])
  also have "\<dots> = sum_list (map (\<lambda>n. length (filter (governs K profiles n) devs)) (map pr_name ?rows))"
    by (simp add: comp_def)
  also have "\<dots> = (\<Sum>n\<leftarrow>map profileName profiles. length (filter (governs K profiles n) devs))"
    by (rule sum_list_mset_eq [OF n])
  also have "\<dots> = length (filter (\<lambda>d. fst (MatchProfile K d profiles) \<noteq> None) devs)"
    unfolding sum_governs [OF assms] g ..
  finally show ?thesis using n row by (simp add: profileRows_def Let_def del: mset_map)
qed

theorem profileRows_count_witness:
  "(\<Sum>row\<leftarrow>profileRows exampleK8s [exampleProfile ''b'' 0, exampleProfile ''a'' 0] [exampleDevice, exampleDevice]. pr_matched row) = 2"
proof -
  let ?ps = "[exampleProfile ''b'' 0, exampleProfile ''a'' 0]"
  have d: "distinct (map profileName ?ps)" by code_simp
  have "length (filter (\<lambda>d. fst (MatchProfile exampleK8s d ?ps) \<noteq> None) [exampleDevice, exampleDevice]) = 2" by code_simp
  then show ?thesis using profileRows_count [OF d, of exampleK8s "[exampleDevice, exampleDevice]"] by simp
qed

end
