(* ===== verification/Triggers.thy ===== *)
theory Triggers
  imports Reconcile_Safety Discovery Exporter Complex_Main
begin

text \<open>
  What starts a reconciliation: the delay of a requeue, and the watch predicate and the profile
  mapping of the device controller's \<open>SetupWithManager\<close>. The events of the device watch carry device objects, so the
  failed type assertions have no counterpart.
\<close>

section \<open>shellydevice_controller.go, SetupWithManager\<close>

text \<open>\<open>maps.Equal\<close>: as many keys, and every entry of the first in the second.\<close>

definition mapsEqual :: "string gomap \<Rightarrow> string gomap \<Rightarrow> bool" where
  "mapsEqual m n \<longleftrightarrow> length m = length n \<and> list_all (\<lambda>(k, v). map_of n k = Some v) m"

definition mapAll :: "'e sysops \<Rightarrow> string \<Rightarrow> 'e world \<Rightarrow> (string \<times> string) list \<times> 'e world" where
  "mapAll S namespace w =
     (case askEnv (listDevices S namespace) w of
        (Inl _, w) \<Rightarrow> ([], w)
      | (Inr devs, w) \<Rightarrow> (map (\<lambda>d. (m_namespace (d_meta d), m_name (d_meta d))) devs, w))"

definition devChanged :: "ShellyDevice \<Rightarrow> ShellyDevice \<Rightarrow> bool" where
  "devChanged oldDev newDev \<longleftrightarrow>
     (if m_generation (d_meta oldDev) \<noteq> m_generation (d_meta newDev) \<or>
         \<not> mapsEqual (m_labels (d_meta oldDev)) (m_labels (d_meta newDev))
      then True
      else st_online (d_status oldDev) \<noteq> st_online (d_status newDev) \<or>
           st_address (d_status oldDev) \<noteq> st_address (d_status newDev) \<or>
           st_authEnabled (d_status oldDev) \<noteq> st_authEnabled (d_status newDev) \<or>
           st_firmware (d_status oldDev) \<noteq> st_firmware (d_status newDev))"

section \<open>The delay of a requeue\<close>

text \<open>
  \<open>jitter\<close> multiplies in \<open>float64\<close> and cuts the product down to whole nanoseconds. Rounding is a
  parameter; \<open>floatLaws\<close> is the error bound of rounding to nearest with 53 significant bits, and
  \<open>u\<close> is the number that \<open>rand.Float64\<close> draws from \<open>[0, 1)\<close>.
\<close>

definition floatLaws :: "(real \<Rightarrow> real) \<Rightarrow> bool" where
  "floatLaws rnd \<longleftrightarrow> (\<forall>x. \<bar>rnd x - x\<bar> \<le> \<bar>x\<bar> / 2 ^ 53)"

definition requeueInterval :: "reconciler \<Rightarrow> time" where
  "requeueInterval R = (if rc_interval R \<le> 0 then minutes 5 else rc_interval R)"

definition jitterDelay :: "(real \<Rightarrow> real) \<Rightarrow> real \<Rightarrow> reconciler \<Rightarrow> time" where
  "jitterDelay rnd u R =
     \<lfloor>rnd (rnd (real_of_int (requeueInterval R)) * rnd (rnd (9 / 10) + rnd (rnd (1 / 5) * u)))\<rfloor>"

lemma jitter_interval: "jitter R = RequeueJittered (requeueInterval R)"
  by (simp add: jitter_def requeueInterval_def)

lemma requeueInterval_pos: "0 < requeueInterval R"
  by (simp add: requeueInterval_def)

lemma rounded:
  assumes "floatLaws rnd" "l \<le> x" "x \<le> h" "0 \<le> l"
  shows "l * (1 - 1 / 2 ^ 53) \<le> rnd x" "rnd x \<le> h * (1 + 1 / 2 ^ 53)"
proof -
  have "\<bar>rnd x - x\<bar> \<le> x / 2 ^ 53" using assms by (auto simp: floatLaws_def dest: spec [of _ x])
  then have "x * (1 - 1 / 2 ^ 53) \<le> rnd x" "rnd x \<le> x * (1 + 1 / 2 ^ 53)"
    unfolding right_diff_distrib distrib_left times_divide_eq_right mult_1_right by linarith+
  moreover have "l * (1 - 1 / 2 ^ 53) \<le> x * (1 - 1 / 2 ^ 53)" "x * (1 + 1 / 2 ^ 53) \<le> h * (1 + 1 / 2 ^ 53)"
    using assms(2,3) by (simp_all add: mult_right_mono)
  ultimately show "l * (1 - 1 / 2 ^ 53) \<le> rnd x" "rnd x \<le> h * (1 + 1 / 2 ^ 53)" by linarith+
qed

text \<open>The delay lies within ten percent of the interval, up to the rounding of the product.\<close>

lemma jitterDelay_bounds:
  assumes "floatLaws rnd" "0 \<le> u" "u < 1" and d_def: "d = real_of_int (requeueInterval R)"
  shows "d * (9 / 10) * (1 - 1 / 2 ^ 50) - 1 < jitterDelay rnd u R" "jitterDelay rnd u R \<le> d * (11 / 10) * (1 + 1 / 2 ^ 50)"
proof -
  let ?m = "1 - 1 / 2 ^ 53 :: real" and ?p = "1 + 1 / 2 ^ 53 :: real"
  note r = rounded [OF assms(1)]
  let ?a = "rnd (9 / 10)" and ?c = "rnd (rnd (1 / 5) * u)" and ?f = "rnd d"
  have d: "0 < d" using requeueInterval_pos [of R] by (simp add: d_def)
  have a: "9 / 10 * ?m \<le> ?a" "?a \<le> 9 / 10 * ?p" using r [of "9 / 10" "9 / 10" "9 / 10"] by simp_all
  have b: "0 \<le> rnd (1 / 5)" "rnd (1 / 5) \<le> 1 / 5 * ?p" using r [of "1 / 5" "1 / 5" "1 / 5"] by simp_all
  have "0 \<le> rnd (1 / 5) * u" "rnd (1 / 5) * u \<le> 1 / 5 * ?p"
    using assms(2,3) b mult_left_le [of u "rnd (1 / 5)"] by simp_all
  then have c: "0 \<le> ?c" "?c \<le> 1 / 5 * ?p * ?p" using r [of 0 "rnd (1 / 5) * u" "1 / 5 * ?p"] by simp_all
  have f: "d * ?m \<le> ?f" "?f \<le> d * ?p" using r [of d d d] d by simp_all
  have s: "9 / 10 * ?m * ?m \<le> rnd (?a + ?c)" "rnd (?a + ?c) \<le> (9 / 10 * ?p + 1 / 5 * ?p * ?p) * ?p"
    using r [of "9 / 10 * ?m" "?a + ?c" "9 / 10 * ?p + 1 / 5 * ?p * ?p"] a c by simp_all
  have q: "d * ?m * (9 / 10 * ?m * ?m) \<le> ?f * rnd (?a + ?c)"
    "?f * rnd (?a + ?c) \<le> d * ?p * ((9 / 10 * ?p + 1 / 5 * ?p * ?p) * ?p)"
    using f s d by (intro mult_mono; simp)+
  have "0 \<le> d * ?m * (9 / 10 * ?m * ?m)" using d by simp
  then have "d * ?m * (9 / 10 * ?m * ?m) * ?m \<le> rnd (?f * rnd (?a + ?c))"
    "rnd (?f * rnd (?a + ?c)) \<le> d * ?p * ((9 / 10 * ?p + 1 / 5 * ?p * ?p) * ?p) * ?p"
    using r [OF q] by blast+
  moreover have "d * (9 / 10 * (1 - 1 / 2 ^ 50)) \<le> d * (?m * (9 / 10 * ?m * ?m) * ?m)"
    "d * (?p * ((9 / 10 * ?p + 1 / 5 * ?p * ?p) * ?p) * ?p) \<le> d * (11 / 10 * (1 + 1 / 2 ^ 50))"
    using d by (intro mult_left_mono; simp)+
  ultimately have "d * (9 / 10) * (1 - 1 / 2 ^ 50) \<le> rnd (?f * rnd (?a + ?c))"
    "rnd (?f * rnd (?a + ?c)) \<le> d * (11 / 10) * (1 + 1 / 2 ^ 50)"
    unfolding mult.assoc by linarith+
  then show "d * (9 / 10) * (1 - 1 / 2 ^ 50) - 1 < jitterDelay rnd u R"
    "jitterDelay rnd u R \<le> d * (11 / 10) * (1 + 1 / 2 ^ 50)"
    unfolding jitterDelay_def d_def by linarith+
qed

section \<open>Which writes are quiet\<close>

lemma mapsEqual_iff:
  assumes "wfmap m" "wfmap n"
  shows "mapsEqual m n \<longleftrightarrow> map_of m = map_of n"
proof
  assume e: "mapsEqual m n"
  then have sub: "set m \<subseteq> set n" by (auto simp: mapsEqual_def list_all_iff dest: map_of_SomeD)
  have "card (set m) = length m" "card (set n) = length n"
    using assms by (auto simp: wfmap_def distinct_map distinct_card)
  then have "set m = set n" using sub e by (intro card_subset_eq) (simp_all add: mapsEqual_def)
  then show "map_of m = map_of n" using assms by (intro map_of_inject_set [THEN iffD2]) (simp_all add: wfmap_def)
next
  assume e: "map_of m = map_of n"
  then have eq: "set m = set n" using assms by (intro map_of_inject_set [THEN iffD1]) (simp_all add: wfmap_def)
  then have "length m = length n" using assms by (metis distinct_card distinct_map wfmap_def)
  then show "mapsEqual m n" using e eq assms by (auto simp: mapsEqual_def list_all_iff wfmap_def)
qed

text \<open>A write that keeps the metadata and all that discovery owns wakes neither watcher.\<close>

lemma kept_is_quiet:
  assumes "wfmap (m_labels (d_meta b))" "d_meta d = d_meta b" "discoveryKept b d"
  shows "\<not> devChanged b d" "\<not> relevant b d"
  using assms by (simp_all add: devChanged_def relevant_def discoveryKept_def Let_def mapsEqual_iff)

lemma refresh_is_quiet:
  assumes "wfmap (m_labels (d_meta d))"
  shows "\<not> devChanged (d\<lparr>d_status := discovered t f s\<rparr>) (d\<lparr>d_status := discovered t' f s'\<rparr>)"
    "\<not> relevant (d\<lparr>d_status := discovered t f s\<rparr>) (d\<lparr>d_status := discovered t' f s'\<rparr>)"
  using assms by (simp_all add: devChanged_def relevant_def discovered_def mapsEqual_iff)

lemma going_offline_wakes: "staleAt cutoff d \<Longrightarrow> devChanged d (offline d) \<and> relevant d (offline d)"
  by (simp add: staleAt_def devChanged_def relevant_def offline_def)

end
