(* ===== verification/Ownership.thy ===== *)
theory Ownership
  imports Reconcile_Safety Discovery
begin

text \<open>
  The two writers of a device object. Reconciliations (up to four at a time, of different
  devices) and the sweeps of discovery write the same objects without a lock between them. The
  controller sends merge patches computed from a copy that may be out of date; discovery replaces
  the object, guarded by its resource version. Each keeps to its own fields, so that every
  interleaving of their writes leaves each field as its owner alone would have left it.
\<close>

section \<open>Two writers with separate views\<close>



section \<open>The API server\<close>



definition labelAt :: "string \<Rightarrow> ShellyDevice \<Rightarrow> string option" where
  "labelAt k d = map_of (m_labels (d_meta d)) k"

definition annotationAt :: "string \<Rightarrow> ShellyDevice \<Rightarrow> string option" where
  "annotationAt k d = map_of (m_annotations (d_meta d)) k"

definition objectKey :: "ShellyDevice \<Rightarrow> string \<times> string" where
  "objectKey d = (m_namespace (d_meta d), m_name (d_meta d))"





section \<open>What each writer owns\<close>

definition labelsIn :: "(string \<Rightarrow> bool) \<Rightarrow> ShellyDevice \<Rightarrow> string \<Rightarrow> string option" where
  "labelsIn P d = map_of (m_labels (d_meta d)) |` Collect P"

definition annotationsIn :: "(string \<Rightarrow> bool) \<Rightarrow> ShellyDevice \<Rightarrow> string \<Rightarrow> string option" where
  "annotationsIn P d = map_of (m_annotations (d_meta d)) |` Collect P"

definition controllerStatus where
  "controllerStatus d =
     (st_availableFirmware (d_status d), st_restartRequired (d_status d), st_lastFirmwareUpdate (d_status d),
      st_matchedProfile (d_status d), st_driftedSections (d_status d), st_conditions (d_status d))"

definition discoveryStatus where
  "discoveryStatus d =
     (st_address (d_status d), st_mac (d_status d), st_model (d_status d), st_app (d_status d),
      st_gen (d_status d), st_firmware (d_status d), st_authEnabled (d_status d), st_deviceName (d_status d),
      st_online (d_status d), st_lastSeen (d_status d))"







lemma labelsIn_eq: "labelsIn P s = labelsIn P t \<longleftrightarrow> (\<forall>k. P k \<longrightarrow> labelAt k s = labelAt k t)"
  by (auto simp: labelsIn_def labelAt_def restrict_map_def fun_eq_iff)

lemma annotationsIn_eq: "annotationsIn P s = annotationsIn P t \<longleftrightarrow> (\<forall>k. P k \<longrightarrow> annotationAt k s = annotationAt k t)"
  by (auto simp: annotationsIn_def annotationAt_def restrict_map_def fun_eq_iff)





section \<open>Merge patches, a group of fields at a time\<close>








section \<open>The sweep\<close>

lemma stored_parts [simp]:
  "objectKey (s\<lparr>d_status := st\<rparr>) = objectKey s" "labelsIn P (s\<lparr>d_status := st\<rparr>) = labelsIn P s"
  "annotationsIn P (s\<lparr>d_status := st\<rparr>) = annotationsIn P s"
  "controllerStatus (s\<lparr>d_meta := m, d_spec := sp\<rparr>) = controllerStatus s"
  "discoveryStatus (s\<lparr>d_meta := m, d_spec := sp\<rparr>) = discoveryStatus s"
  by (simp_all add: objectKey_def labelsIn_eq annotationsIn_eq labelAt_def annotationAt_def controllerStatus_def
      discoveryStatus_def)

lemma status_of [simp]:
  "controllerStatus (s\<lparr>d_status := d_status d\<rparr>) = controllerStatus d"
  "discoveryStatus (s\<lparr>d_status := d_status d\<rparr>) = discoveryStatus d"
  by (simp_all add: controllerStatus_def discoveryStatus_def)

lemma meta_of [simp]:
  "objectKey (s\<lparr>d_meta := (d_meta s)\<lparr>m_labels := ls, m_annotations := as\<rparr>, d_spec := sp\<rparr>) = objectKey s"
  "labelsIn P (s\<lparr>d_meta := (d_meta s)\<lparr>m_labels := ls, m_annotations := as\<rparr>, d_spec := sp\<rparr>) = map_of ls |` Collect P"
  "annotationsIn P (s\<lparr>d_meta := (d_meta s)\<lparr>m_labels := ls, m_annotations := as\<rparr>, d_spec := sp\<rparr>) = map_of as |` Collect P"
  by (simp_all add: objectKey_def labelsIn_def annotationsIn_def)





section \<open>A server that merges field by field\<close>







section \<open>Reconciliations and sweeps interleaved\<close>











end
