(* ===== verification/Wiring.thy ===== *)
theory Wiring
  imports Triggers Metrics Dashboard "HOL-Library.Log_Nat"
begin

text \<open>
  \<open>cmd/main.go\<close>: the command line, the checks on it, and which parts of the operator the process
  builds, with which settings and in which order. The manager of controller-runtime is a
  parameter: a function that answers every call the process makes to it. Flags that other packages
  define (logging, kubeconfig) and \<open>time.ParseDuration\<close> are parameters too.
\<close>

section \<open>The command line\<close>

record settings =
  fl_metricsAddr :: string
  fl_probeAddr :: string
  fl_enableLeaderElection :: bool
  fl_secureMetrics :: bool
  fl_webhookCertPath :: string
  fl_webhookCertName :: string
  fl_webhookCertKey :: string
  fl_metricsCertPath :: string
  fl_metricsCertName :: string
  fl_metricsCertKey :: string
  fl_enableHTTP2 :: bool
  fl_discoveryCIDRs :: string
  fl_deviceNamespace :: string
  fl_discoveryInterval :: time
  fl_nameMapName :: string
  fl_registryName :: string
  fl_reconcileInterval :: time
  fl_firmwareUpdateSpacing :: time
  fl_exporterConfigMap :: string
  fl_exporterDeviceUpdateInterval :: time
  fl_dashboardAddr :: string

definition flagDefaults :: settings where
  "flagDefaults = \<lparr>fl_metricsAddr = ''0'', fl_probeAddr = '':8081'', fl_enableLeaderElection = False,
     fl_secureMetrics = True, fl_webhookCertPath = [], fl_webhookCertName = ''tls.crt'',
     fl_webhookCertKey = ''tls.key'', fl_metricsCertPath = [], fl_metricsCertName = ''tls.crt'',
     fl_metricsCertKey = ''tls.key'', fl_enableHTTP2 = False, fl_discoveryCIDRs = [],
     fl_deviceNamespace = ''default'', fl_discoveryInterval = minutes 5, fl_nameMapName = ''shelly-names'',
     fl_registryName = ''shelly-registry'', fl_reconcileInterval = minutes 5,
     fl_firmwareUpdateSpacing = minutes 2, fl_exporterConfigMap = [],
     fl_exporterDeviceUpdateInterval = seconds 30, fl_dashboardAddr = '':8090''\<rparr>"

text \<open>A flag writes one variable, according to its kind.\<close>

datatype flagVar =
    StringVar "string \<Rightarrow> settings \<Rightarrow> settings"
  | BoolVar "bool \<Rightarrow> settings \<Rightarrow> settings"
  | DurationVar "time \<Rightarrow> settings \<Rightarrow> settings"

definition flagTable :: "flagVar gomap" where
  "flagTable = [
     (''metrics-bind-address'', StringVar (\<lambda>v. fl_metricsAddr_update (\<lambda>_. v))),
     (''health-probe-bind-address'', StringVar (\<lambda>v. fl_probeAddr_update (\<lambda>_. v))),
     (''leader-elect'', BoolVar (\<lambda>v. fl_enableLeaderElection_update (\<lambda>_. v))),
     (''metrics-secure'', BoolVar (\<lambda>v. fl_secureMetrics_update (\<lambda>_. v))),
     (''webhook-cert-path'', StringVar (\<lambda>v. fl_webhookCertPath_update (\<lambda>_. v))),
     (''webhook-cert-name'', StringVar (\<lambda>v. fl_webhookCertName_update (\<lambda>_. v))),
     (''webhook-cert-key'', StringVar (\<lambda>v. fl_webhookCertKey_update (\<lambda>_. v))),
     (''metrics-cert-path'', StringVar (\<lambda>v. fl_metricsCertPath_update (\<lambda>_. v))),
     (''metrics-cert-name'', StringVar (\<lambda>v. fl_metricsCertName_update (\<lambda>_. v))),
     (''metrics-cert-key'', StringVar (\<lambda>v. fl_metricsCertKey_update (\<lambda>_. v))),
     (''enable-http2'', BoolVar (\<lambda>v. fl_enableHTTP2_update (\<lambda>_. v))),
     (''discovery-cidrs'', StringVar (\<lambda>v. fl_discoveryCIDRs_update (\<lambda>_. v))),
     (''device-namespace'', StringVar (\<lambda>v. fl_deviceNamespace_update (\<lambda>_. v))),
     (''discovery-interval'', DurationVar (\<lambda>v. fl_discoveryInterval_update (\<lambda>_. v))),
     (''name-map'', StringVar (\<lambda>v. fl_nameMapName_update (\<lambda>_. v))),
     (''registry-configmap'', StringVar (\<lambda>v. fl_registryName_update (\<lambda>_. v))),
     (''reconcile-interval'', DurationVar (\<lambda>v. fl_reconcileInterval_update (\<lambda>_. v))),
     (''firmware-update-spacing'', DurationVar (\<lambda>v. fl_firmwareUpdateSpacing_update (\<lambda>_. v))),
     (''exporter-configmap'', StringVar (\<lambda>v. fl_exporterConfigMap_update (\<lambda>_. v))),
     (''exporter-device-update-interval'', DurationVar (\<lambda>v. fl_exporterDeviceUpdateInterval_update (\<lambda>_. v))),
     (''dashboard-bind'', StringVar (\<lambda>v. fl_dashboardAddr_update (\<lambda>_. v)))]"

text \<open>
  \<open>flag.Parse\<close>. A flag of another package is known by whether it is boolean and by the values it
  accepts; setting it does not concern the operator.
\<close>

datatype flagError = ErrHelp | BadFlag

record flaglib =
  parseDuration :: "string \<Rightarrow> time option"
  foreignFlag :: "string \<Rightarrow> (bool \<times> (string \<Rightarrow> bool)) option"

definition parseBool :: "string \<Rightarrow> bool option" where
  "parseBool s =
     (if s \<in> set [''1'', ''t'', ''T'', ''TRUE'', ''true'', ''True''] then Some True
      else if s \<in> set [''0'', ''f'', ''F'', ''FALSE'', ''false'', ''False''] then Some False
      else None)"

definition isBoolFlag :: "flaglib \<Rightarrow> string \<Rightarrow> bool option" where
  "isBoolFlag F name =
     (case map_of flagTable name of
        Some (BoolVar _) \<Rightarrow> Some True
      | Some _ \<Rightarrow> Some False
      | None \<Rightarrow> map_option fst (foreignFlag F name))"

definition setVar :: "flaglib \<Rightarrow> flagVar \<Rightarrow> string \<Rightarrow> settings \<Rightarrow> settings option" where
  "setVar F var v st =
     (case var of
        StringVar f \<Rightarrow> Some (f v st)
      | BoolVar f \<Rightarrow> map_option (\<lambda>b. f b st) (parseBool v)
      | DurationVar f \<Rightarrow> map_option (\<lambda>d. f d st) (parseDuration F v))"

definition setFlag :: "flaglib \<Rightarrow> string \<Rightarrow> string \<Rightarrow> settings \<Rightarrow> settings option" where
  "setFlag F name v st =
     (case map_of flagTable name of
        Some var \<Rightarrow> setVar F var v st
      | None \<Rightarrow>
          (case foreignFlag F name of
             None \<Rightarrow> None
           | Some (_, accepts) \<Rightarrow> if accepts v then Some st else None))"

text \<open>The text of an argument after its dashes: the name and what follows the first \<open>=\<close> after it.\<close>

definition cutFlag :: "string \<Rightarrow> string \<times> string option" where
  "cutFlag s =
     (let name = takeWhile (\<lambda>c. c \<noteq> CHR ''='') s
      in (name, if length name < length s then Some (drop (length name + 1) s) else None))"

text \<open>
  One argument: the end of the flags, an error, or the new settings and the number of arguments
  taken after it.
\<close>

datatype flagStep = FlagsEnd | FlagFails flagError | FlagSets settings nat

definition parseOne :: "flaglib \<Rightarrow> string \<Rightarrow> string list \<Rightarrow> settings \<Rightarrow> flagStep" where
  "parseOne F s args st =
     (if length s < 2 \<or> hd s \<noteq> CHR ''-'' then FlagsEnd
      else if s = ''--'' then FlagsEnd
      else
        (let body = (if s ! 1 = CHR ''-'' then drop 2 s else drop 1 s)
         in if body = [] \<or> hd body = CHR ''-'' \<or> hd body = CHR ''='' then FlagFails BadFlag
            else
              (let (name, value) = cutFlag body;
                   put = (\<lambda>v n. case setFlag F name v st of None \<Rightarrow> FlagFails BadFlag | Some st \<Rightarrow> FlagSets st n)
               in case isBoolFlag F name of
                    None \<Rightarrow> FlagFails (if name = ''help'' \<or> name = ''h'' then ErrHelp else BadFlag)
                  | Some True \<Rightarrow> put (case value of None \<Rightarrow> ''true'' | Some v \<Rightarrow> v) 0
                  | Some False \<Rightarrow>
                      (case value of
                         Some v \<Rightarrow> put v 0
                       | None \<Rightarrow> if args = [] then FlagFails BadFlag else put (hd args) 1))))"

fun parseArgs :: "flaglib \<Rightarrow> string list \<Rightarrow> settings \<Rightarrow> flagError + settings" where
  "parseArgs F [] st = Inr st"
| "parseArgs F (s # args) st =
     (case parseOne F s args st of
        FlagsEnd \<Rightarrow> Inr st
      | FlagFails err \<Rightarrow> Inl err
      | FlagSets st n \<Rightarrow> parseArgs F (drop n args) st)"

section \<open>What the process builds\<close>

text \<open>The options of the two servers; \<open>http/1.1\<close> only is the TLS option that disables HTTP/2.\<close>

record serving =
  so_bindAddress :: string
  so_secure :: bool
  so_authenticated :: bool
  so_http11Only :: bool
  so_certDir :: string
  so_certName :: string
  so_keyName :: string

definition webhookServing :: "settings \<Rightarrow> serving" where
  "webhookServing st =
     (let o0 = \<lparr>so_bindAddress = [], so_secure = True, so_authenticated = False,
                so_http11Only = \<not> fl_enableHTTP2 st, so_certDir = [], so_certName = [], so_keyName = []\<rparr>
      in if length (fl_webhookCertPath st) > 0
         then o0\<lparr>so_certDir := fl_webhookCertPath st, so_certName := fl_webhookCertName st,
                so_keyName := fl_webhookCertKey st\<rparr>
         else o0)"

definition metricsServing :: "settings \<Rightarrow> serving" where
  "metricsServing st =
     (let o0 = \<lparr>so_bindAddress = fl_metricsAddr st, so_secure = fl_secureMetrics st, so_authenticated = False,
                so_http11Only = \<not> fl_enableHTTP2 st, so_certDir = [], so_certName = [], so_keyName = []\<rparr>;
          o1 = (if fl_secureMetrics st then o0\<lparr>so_authenticated := True\<rparr> else o0)
      in if length (fl_metricsCertPath st) > 0
         then o1\<lparr>so_certDir := fl_metricsCertPath st, so_certName := fl_metricsCertName st,
                so_keyName := fl_metricsCertKey st\<rparr>
         else o1)"

record managerOptions =
  mo_metrics :: serving
  mo_webhook :: serving
  mo_healthProbeBindAddress :: string
  mo_leaderElection :: bool
  mo_leaderElectionID :: string

definition managerOptionsOf :: "settings \<Rightarrow> managerOptions" where
  "managerOptionsOf st = \<lparr>mo_metrics = metricsServing st, mo_webhook = webhookServing st,
     mo_healthProbeBindAddress = fl_probeAddr st, mo_leaderElection = fl_enableLeaderElection st,
     mo_leaderElectionID = ''fc288ded.thirdimpact.io''\<rparr>"

text \<open>
  A controller as \<open>SetupWithManager\<close> registers it: its name, which device updates pass its
  predicate, whether changed profiles enqueue the devices of their namespace, and how many
  reconciliations may run at a time (one unless set).
\<close>

record controllerSetup =
  ct_name :: string
  ct_passes :: "ShellyDevice \<Rightarrow> ShellyDevice \<Rightarrow> bool"
  ct_watchesProfiles :: bool
  ct_maxConcurrent :: nat

definition deviceSetup :: controllerSetup where
  "deviceSetup = \<lparr>ct_name = ''shellydevice'', ct_passes = devChanged, ct_watchesProfiles = True, ct_maxConcurrent = 4\<rparr>"

definition feedSetup :: controllerSetup where
  "feedSetup = \<lparr>ct_name = ''exporterfeed'', ct_passes = relevant, ct_watchesProfiles = False, ct_maxConcurrent = 1\<rparr>"

text \<open>
  \<open>int(d.Seconds())\<close> for a duration that is not negative. \<open>Seconds\<close> adds the whole seconds and
  the fraction in \<open>float64\<close>; for very long durations a fraction close to one is rounded up to it.
\<close>

definition wholeSeconds :: "time \<Rightarrow> int" where
  "wholeSeconds d =
     (let sec = d div 10 ^ 9; nsec = d mod 10 ^ 9
      in if sec \<ge> 1 \<and> (10 ^ 9 - nsec) * 2 ^ 53 \<le> 10 ^ 9 * 2 ^ (floorlog 2 (nat sec) - 1) then sec + 1 else sec)"

definition reconcilerOf :: "settings \<Rightarrow> reconciler" where
  "reconcilerOf st = \<lparr>rc_nameMapName = fl_nameMapName st, rc_registryName = fl_registryName st,
     rc_interval = fl_reconcileInterval st, rc_updateSpacing = fl_firmwareUpdateSpacing st\<rparr>"

definition feedOf :: "settings \<Rightarrow> feedReconciler" where
  "feedOf st = \<lparr>fr_namespace = fl_deviceNamespace st, fr_configMapName = fl_exporterConfigMap st,
     fr_options = \<lparr>op_listenAddress = '':8080'', op_debug = False,
       op_deviceUpdateInterval = wholeSeconds (fl_exporterDeviceUpdateInterval st)\<rparr>\<rparr>"

definition serverOf :: "settings \<Rightarrow> Server" where
  "serverOf st = \<lparr>srv_namespace = fl_deviceNamespace st, srv_nameMapName = fl_nameMapName st,
     srv_registryName = fl_registryName st\<rparr>"

text \<open>\<open>strings.TrimSpace\<close>: the UTF-8 encodings of the white space runes.\<close>

definition spaceRunes :: "string list" where
  "spaceRunes = [
     [CHR 0x09], [CHR 0x0A], [CHR 0x0B], [CHR 0x0C], [CHR 0x0D], [CHR 0x20], [CHR 0xC2, CHR 0x85],
     [CHR 0xC2, CHR 0xA0], [CHR 0xE1, CHR 0x9A, CHR 0x80], [CHR 0xE2, CHR 0x80, CHR 0x80],
     [CHR 0xE2, CHR 0x80, CHR 0x81], [CHR 0xE2, CHR 0x80, CHR 0x82], [CHR 0xE2, CHR 0x80, CHR 0x83],
     [CHR 0xE2, CHR 0x80, CHR 0x84], [CHR 0xE2, CHR 0x80, CHR 0x85], [CHR 0xE2, CHR 0x80, CHR 0x86],
     [CHR 0xE2, CHR 0x80, CHR 0x87], [CHR 0xE2, CHR 0x80, CHR 0x88], [CHR 0xE2, CHR 0x80, CHR 0x89],
     [CHR 0xE2, CHR 0x80, CHR 0x8A], [CHR 0xE2, CHR 0x80, CHR 0xA8], [CHR 0xE2, CHR 0x80, CHR 0xA9],
     [CHR 0xE2, CHR 0x80, CHR 0xAF], [CHR 0xE2, CHR 0x81, CHR 0x9F], [CHR 0xE3, CHR 0x80, CHR 0x80]]"

lemma drop_found: "find (\<lambda>r. r \<noteq> [] \<and> hasPrefix s r) rs = Some r \<Longrightarrow> length s - length r < length s"
  by (cases s) (auto simp: find_Some_iff hasPrefix_def)

function trimStart :: "string list \<Rightarrow> string \<Rightarrow> string" where
  "trimStart runes s =
     (case find (\<lambda>r. r \<noteq> [] \<and> hasPrefix s r) runes of
        None \<Rightarrow> s
      | Some r \<Rightarrow> trimStart runes (drop (length r) s))"
  by auto
termination
  by (relation "measure (\<lambda>(runes, s). length s)") (auto dest: drop_found)

definition trimSpace :: "string \<Rightarrow> string" where
  "trimSpace s = rev (trimStart (map rev spaceRunes) (rev (trimStart spaceRunes s)))"

definition sweepCIDRs :: "settings \<Rightarrow> string list" where
  "sweepCIDRs st = filter (\<lambda>c. c \<noteq> []) (map trimSpace (splitOn CHR '','' (fl_discoveryCIDRs st)))"

definition sweeperOf :: "settings \<Rightarrow> Sweeper" where
  "sweeperOf st = \<lparr>sw_namespace = fl_deviceNamespace st, sw_cidrs = sweepCIDRs st, sw_extraHosts = [],
     sw_interval = fl_discoveryInterval st, sw_probeTimeout = 0, sw_concurrency = 0, sw_offlineAfter = 0,
     sw_targets = []\<rparr>"

section \<open>Starting up\<close>

datatype startup =
    LoadConfig
  | NewManager managerOptions
  | RegisterCollector DeviceCollector
  | SetupDevices controllerSetup reconciler
  | SetupFeed controllerSetup feedReconciler
  | AddDashboard Server string
  | CheckCIDRs "string list"
  | AddSweeper Sweeper
  | AddHealthz
  | AddReadyz
  | StartManager

definition startupSteps :: "settings \<Rightarrow> startup list" where
  "startupSteps st =
     [LoadConfig, NewManager (managerOptionsOf st),
      RegisterCollector (NewDeviceCollector (fl_deviceNamespace st) (fl_registryName st)),
      SetupDevices deviceSetup (reconcilerOf st)] @
     (if fl_exporterConfigMap st \<noteq> [] then [SetupFeed feedSetup (feedOf st)] else []) @
     (if fl_dashboardAddr st \<noteq> [] then [AddDashboard (serverOf st) (fl_dashboardAddr st)] else []) @
     (if fl_discoveryCIDRs st \<noteq> [] then [CheckCIDRs (sweepCIDRs st), AddSweeper (sweeperOf st)] else []) @
     [AddHealthz, AddReadyz, StartManager]"

datatype exitStatus = Exited int | Panicked

text \<open>
  The manager answers each call with an error or none. Checking the networks is the operator's
  own code; a refused collector is a panic (\<open>MustRegister\<close>), every other failure \<open>os.Exit(1)\<close>.
\<close>

definition answer :: "(startup \<Rightarrow> 'e \<Rightarrow> go_error option \<times> 'e) \<Rightarrow> (string \<Rightarrow> bool) \<Rightarrow> startup \<Rightarrow> 'e
    \<Rightarrow> go_error option \<times> 'e" where
  "answer mgr isPrefix6 s e =
     (case s of
        CheckCIDRs cidrs \<Rightarrow>
          (case ExpandCIDRs isPrefix6 cidrs of Inl err \<Rightarrow> (Some err, e) | Inr hosts \<Rightarrow> (None, e))
      | _ \<Rightarrow> mgr s e)"

definition failed :: "startup \<Rightarrow> exitStatus" where
  "failed s = (case s of RegisterCollector _ \<Rightarrow> Panicked | _ \<Rightarrow> Exited 1)"

fun runSteps :: "(startup \<Rightarrow> 'e \<Rightarrow> go_error option \<times> 'e) \<Rightarrow> (string \<Rightarrow> bool) \<Rightarrow> startup list \<Rightarrow> 'e
    \<Rightarrow> exitStatus \<times> startup list \<times> 'e" where
  "runSteps mgr isPrefix6 [] e = (Exited 0, [], e)"
| "runSteps mgr isPrefix6 (s # ss) e =
     (case answer mgr isPrefix6 s e of
        (Some err, e) \<Rightarrow> (failed s, [s], e)
      | (None, e) \<Rightarrow> (case runSteps mgr isPrefix6 ss e of (out, made, e) \<Rightarrow> (out, s # made, e)))"

definition refused :: "settings \<Rightarrow> bool" where
  "refused st \<longleftrightarrow> fl_exporterConfigMap st \<noteq> [] \<and> fl_exporterDeviceUpdateInterval st < seconds 1"

definition main :: "(startup \<Rightarrow> 'e \<Rightarrow> go_error option \<times> 'e) \<Rightarrow> (string \<Rightarrow> bool) \<Rightarrow> flaglib \<Rightarrow> string list \<Rightarrow> 'e
    \<Rightarrow> exitStatus \<times> startup list \<times> 'e" where
  "main mgr isPrefix6 F args e =
     (case parseArgs F args flagDefaults of
        Inl ErrHelp \<Rightarrow> (Exited 0, [], e)
      | Inl BadFlag \<Rightarrow> (Exited 2, [], e)
      | Inr st \<Rightarrow> if refused st then (Exited 1, [], e) else runSteps mgr isPrefix6 (startupSteps st) e)"

section \<open>What reaches the manager\<close>

lemma answer_check: "fst (answer mgr p6 (CheckCIDRs cidrs) e) = None \<longleftrightarrow> (\<exists>hosts. ExpandCIDRs p6 cidrs = Inr hosts)"
  by (auto simp: answer_def split: sum.splits)

lemma runSteps_reaches:
  assumes "runSteps mgr p6 (xs @ [StartManager]) e = (out, made, e')" "StartManager \<notin> set xs" "StartManager \<in> set made"
  shows "made = xs @ [StartManager] \<and>
    (\<forall>cidrs. CheckCIDRs cidrs \<in> set xs \<longrightarrow> (\<exists>hosts. ExpandCIDRs p6 cidrs = Inr hosts))"
  using assms
proof (induction xs arbitrary: e made)
  case Nil
  then show ?case by (auto split: prod.splits option.splits)
next
  case (Cons s ss)
  obtain r e1 where a: "answer mgr p6 s e = (r, e1)" by force
  show ?case
  proof (cases r)
    case None
    obtain out2 made2 e2 where t: "runSteps mgr p6 (ss @ [StartManager]) e1 = (out2, made2, e2)" by (metis prod_cases3)
    with None a Cons.prems have d: "made = s # made2" "out2 = out" "e2 = e'" "StartManager \<in> set made2" by auto
    then have "made2 = ss @ [StartManager] \<and>
        (\<forall>cidrs. CheckCIDRs cidrs \<in> set ss \<longrightarrow> (\<exists>hosts. ExpandCIDRs p6 cidrs = Inr hosts))"
      using Cons.IH [of e1 made2] t Cons.prems by auto
    moreover have "\<exists>hosts. ExpandCIDRs p6 cidrs = Inr hosts" if "s = CheckCIDRs cidrs" for cidrs
      using answer_check [of mgr p6 cidrs e] a None that by simp
    ultimately show ?thesis using d by auto
  next
    case (Some err)
    then show ?thesis using a Cons.prems by auto
  qed
qed

lemma runSteps_all:
  assumes "\<And>s e. fst (mgr s e) = None"
    and "\<And>cidrs. CheckCIDRs cidrs \<in> set ss \<Longrightarrow> \<exists>hosts. ExpandCIDRs p6 cidrs = Inr hosts"
  shows "\<exists>e'. runSteps mgr p6 ss e = (Exited 0, ss, e')"
  using assms(2)
proof (induction ss arbitrary: e)
  case (Cons s ss)
  have "fst (answer mgr p6 s e) = None"
    using Cons.prems assms(1) answer_check [of mgr p6 _ e] by (cases s) (auto simp: answer_def)
  then obtain e1 where "answer mgr p6 s e = (None, e1)" by (metis prod.collapse)
  then show ?case using Cons.IH [of e1] Cons.prems by fastforce
qed simp

definition preparation :: "settings \<Rightarrow> startup list" where
  "preparation st = butlast (startupSteps st)"

lemma startupSteps_split: "startupSteps st = preparation st @ [StartManager]" "StartManager \<notin> set (preparation st)"
  by (simp_all add: preparation_def startupSteps_def butlast_append)

lemma wholeSeconds_bounds: "d div 10 ^ 9 \<le> wholeSeconds d" "wholeSeconds d \<le> d div 10 ^ 9 + 1"
  by (simp_all add: wholeSeconds_def Let_def)

lemma wholeSeconds_pos: "seconds 1 \<le> d \<Longrightarrow> 1 \<le> wholeSeconds d"
  using wholeSeconds_bounds(1) [of d] zdiv_mono1 [of "10 ^ 9" d "10 ^ 9"] by simp

lemma ExpandCIDRs_bound: "ExpandCIDRs p6 cidrs = Inr hosts \<Longrightarrow> length hosts \<le> maxSweepHosts"
  unfolding ExpandCIDRs_def using expandCIDRLoop_exact [of "[]"] by auto

lemma sweeperOf_init:
  assumes "ExpandCIDRs p6 (sweepCIDRs st) = Inr hosts"
  shows "\<exists>s. sweeperInit p6 (sweeperOf st) = Inr s \<and> sw_targets s = hosts \<and> length hosts \<le> maxSweepHosts \<and>
    0 < sw_interval s \<and> seconds 1 \<le> sw_offlineAfter s"
  using assms ExpandCIDRs_bound [OF assms]
  by (simp add: sweeperInit_def sweeperOf_def Let_def)

text \<open>
  C27: The process starts its manager only with sound settings and a complete set of parts. When
  the manager is started, the command line was accepted and every part it asks for has been
  registered before, in order; an exporter feed asks for a poll interval of at least one second;
  the sweeper's networks expand, to at most 4096 hosts, so that its own start cannot fail; HTTP/2
  is off unless asked for, and metrics served securely are behind authentication. Conversely, when
  the manager accepts every call, accepted settings with sound networks start every part.
\<close>

theorem main_checked:
  assumes "main mgr p6 F args e = (out, made, e')"
  shows "(StartManager \<in> set made \<longrightarrow>
      (\<exists>st. parseArgs F args flagDefaults = Inr st \<and> made = startupSteps st \<and>
        (\<forall>c R. SetupFeed c R \<in> set made \<longrightarrow> 1 \<le> op_deviceUpdateInterval (fr_options R)) \<and>
        (\<forall>s. AddSweeper s \<in> set made \<longrightarrow> (\<exists>s'. sweeperInit p6 s = Inr s' \<and> length (sw_targets s') \<le> 4096)) \<and>
        (\<forall>opts. NewManager opts \<in> set made \<longrightarrow>
          so_http11Only (mo_metrics opts) = (\<not> fl_enableHTTP2 st) \<and> so_http11Only (mo_webhook opts) = (\<not> fl_enableHTTP2 st) \<and>
          so_authenticated (mo_metrics opts) = so_secure (mo_metrics opts)))) \<and>
    (\<forall>st. (\<forall>s e. fst (mgr s e) = None) \<and> parseArgs F args flagDefaults = Inr st \<and> \<not> refused st \<and>
        (fl_discoveryCIDRs st \<noteq> [] \<longrightarrow> (\<exists>hosts. ExpandCIDRs p6 (sweepCIDRs st) = Inr hosts)) \<longrightarrow>
      out = Exited 0 \<and> made = startupSteps st)"
proof (intro conjI impI allI)
  assume start: "StartManager \<in> set made"
  then obtain st where st: "parseArgs F args flagDefaults = Inr st" "\<not> refused st"
      "runSteps mgr p6 (startupSteps st) e = (out, made, e')"
    using assms by (auto simp: main_def split: sum.splits flagError.splits if_splits)
  from runSteps_reaches [OF st(3) [unfolded startupSteps_split(1)] startupSteps_split(2) start]
  have d: "made = startupSteps st" and c: "\<And>cidrs. CheckCIDRs cidrs \<in> set (preparation st) \<Longrightarrow> \<exists>hosts. ExpandCIDRs p6 cidrs = Inr hosts"
    by (simp_all add: startupSteps_split(1))
  have feed: "1 \<le> op_deviceUpdateInterval (fr_options R)" if "SetupFeed c R \<in> set made" for c R
    using that st(2) wholeSeconds_pos [of "fl_exporterDeviceUpdateInterval st"]
    by (auto simp: d startupSteps_def feedOf_def refused_def split: if_splits)
  have sweep: "\<exists>s'. sweeperInit p6 s = Inr s' \<and> length (sw_targets s') \<le> 4096" if "AddSweeper s \<in> set made" for s
  proof -
    have s: "s = sweeperOf st" "CheckCIDRs (sweepCIDRs st) \<in> set (preparation st)"
      using that by (auto simp: d preparation_def startupSteps_def butlast_append split: if_splits)
    then show ?thesis using c [OF s(2)] sweeperOf_init [of p6 st] by auto
  qed
  have "so_http11Only (mo_metrics opts) = (\<not> fl_enableHTTP2 st) \<and> so_http11Only (mo_webhook opts) = (\<not> fl_enableHTTP2 st) \<and>
      so_authenticated (mo_metrics opts) = so_secure (mo_metrics opts)" if "NewManager opts \<in> set made" for opts
    using that by (auto simp: d startupSteps_def managerOptionsOf_def metricsServing_def webhookServing_def Let_def split: if_splits)
  then show "\<exists>st. parseArgs F args flagDefaults = Inr st \<and> made = startupSteps st \<and>
        (\<forall>c R. SetupFeed c R \<in> set made \<longrightarrow> 1 \<le> op_deviceUpdateInterval (fr_options R)) \<and>
        (\<forall>s. AddSweeper s \<in> set made \<longrightarrow> (\<exists>s'. sweeperInit p6 s = Inr s' \<and> length (sw_targets s') \<le> 4096)) \<and>
        (\<forall>opts. NewManager opts \<in> set made \<longrightarrow>
          so_http11Only (mo_metrics opts) = (\<not> fl_enableHTTP2 st) \<and> so_http11Only (mo_webhook opts) = (\<not> fl_enableHTTP2 st) \<and>
          so_authenticated (mo_metrics opts) = so_secure (mo_metrics opts))"
    using st(1) d feed sweep by blast
next
  fix st
  assume a: "(\<forall>s e. fst (mgr s e) = None) \<and> parseArgs F args flagDefaults = Inr st \<and> \<not> refused st \<and>
        (fl_discoveryCIDRs st \<noteq> [] \<longrightarrow> (\<exists>hosts. ExpandCIDRs p6 (sweepCIDRs st) = Inr hosts))"
  have "\<exists>e'. runSteps mgr p6 (startupSteps st) e = (Exited 0, startupSteps st, e')"
    using a by (intro runSteps_all) (auto simp: startupSteps_def split: if_splits)
  then show "out = Exited 0" "made = startupSteps st" using a assms by (auto simp: main_def)
qed

definition exampleFlags :: flaglib where
  "exampleFlags = \<lparr>parseDuration = map_of [(''5m0s'', minutes 5), (''2m0s'', minutes 2), (''30s'', seconds 30)],
     foreignFlag = (\<lambda>n. None)\<rparr>"

definition obliging :: "startup \<Rightarrow> unit \<Rightarrow> go_error option \<times> unit" where
  "obliging s e = (None, e)"

theorem main_checked_witness:
  "\<exists>st ran. main obliging (\<lambda>_. False) exampleFlags [''--discovery-cidrs= 10.0.0.7/32 '', ''-exporter-configmap'', ''feed''] () =
      (Exited 0, ran, ()) \<and> ran = startupSteps st \<and> length ran = 11 \<and>
    (\<exists>s s'. AddSweeper s \<in> set ran \<and> sweeperInit (\<lambda>_. False) s = Inr s' \<and> sw_targets s' = [''10.0.0.7''])"
proof -
  let ?args = "[''--discovery-cidrs= 10.0.0.7/32 '', ''-exporter-configmap'', ''feed'']"
  let ?st = "flagDefaults\<lparr>fl_discoveryCIDRs := '' 10.0.0.7/32 '', fl_exporterConfigMap := ''feed''\<rparr>"
  have p: "parseArgs exampleFlags ?args flagDefaults = Inr ?st" by code_simp
  have c: "sweepCIDRs ?st = [''10.0.0.7/32'']" by code_simp
  have x: "ExpandCIDRs (\<lambda>_. False) [''10.0.0.7/32''] = Inr [''10.0.0.7'']" by code_simp
  obtain out ran e' where m: "main obliging (\<lambda>_. False) exampleFlags ?args () = (out, ran, e')" by (metis prod_cases3)
  have "\<not> refused ?st" by code_simp
  then have r: "out = Exited 0" "ran = startupSteps ?st"
    using main_checked [OF m] p c x by (auto simp: obliging_def)
  then have "length ran = 11" "AddSweeper (sweeperOf ?st) \<in> set ran"
    by (simp_all add: startupSteps_def flagDefaults_def)
  moreover have "\<exists>s'. sweeperInit (\<lambda>_. False) (sweeperOf ?st) = Inr s' \<and> sw_targets s' = [''10.0.0.7'']"
    using sweeperOf_init [of "\<lambda>_. False" ?st] c x by auto
  ultimately show ?thesis using m r by auto
qed

section \<open>Every setting has its flag\<close>

definition flagTexts :: "(time \<Rightarrow> string) \<Rightarrow> settings \<Rightarrow> (string \<times> string) list" where
  "flagTexts dur st =
     (let onoff = (\<lambda>b. if b then ''true'' else ''false'')
      in [(''metrics-bind-address'', fl_metricsAddr st), (''health-probe-bind-address'', fl_probeAddr st),
          (''leader-elect'', onoff (fl_enableLeaderElection st)), (''metrics-secure'', onoff (fl_secureMetrics st)),
          (''webhook-cert-path'', fl_webhookCertPath st), (''webhook-cert-name'', fl_webhookCertName st),
          (''webhook-cert-key'', fl_webhookCertKey st), (''metrics-cert-path'', fl_metricsCertPath st),
          (''metrics-cert-name'', fl_metricsCertName st), (''metrics-cert-key'', fl_metricsCertKey st),
          (''enable-http2'', onoff (fl_enableHTTP2 st)), (''discovery-cidrs'', fl_discoveryCIDRs st),
          (''device-namespace'', fl_deviceNamespace st), (''discovery-interval'', dur (fl_discoveryInterval st)),
          (''name-map'', fl_nameMapName st), (''registry-configmap'', fl_registryName st),
          (''reconcile-interval'', dur (fl_reconcileInterval st)),
          (''firmware-update-spacing'', dur (fl_firmwareUpdateSpacing st)),
          (''exporter-configmap'', fl_exporterConfigMap st),
          (''exporter-device-update-interval'', dur (fl_exporterDeviceUpdateInterval st)),
          (''dashboard-bind'', fl_dashboardAddr st)])"

definition durations :: "settings \<Rightarrow> time list" where
  "durations st = [fl_discoveryInterval st, fl_reconcileInterval st, fl_firmwareUpdateSpacing st,
     fl_exporterDeviceUpdateInterval st]"

definition flagArgs :: "(string \<times> string) list \<Rightarrow> string list" where
  "flagArgs nvs = map (\<lambda>(n, v). ''--'' @ n @ ''='' @ v) nvs"

definition plainFlag :: "string \<Rightarrow> bool" where
  "plainFlag n \<longleftrightarrow> n \<noteq> [] \<and> hd n \<noteq> CHR ''-'' \<and> list_all (\<lambda>c. c \<noteq> CHR ''='') n"

lemma cutFlag_text: "list_all (\<lambda>c. c \<noteq> CHR ''='') n \<Longrightarrow> cutFlag (n @ CHR ''='' # v) = (n, Some v)"
  by (simp add: cutFlag_def list_all_iff takeWhile_append2 Let_def)

lemma parseOne_text:
  assumes "plainFlag n" "n \<in> fst ` set flagTable"
  shows "parseOne F (''--'' @ n @ ''='' @ v) args st =
    (case setFlag F n v st of None \<Rightarrow> FlagFails BadFlag | Some st \<Rightarrow> FlagSets st 0)"
proof -
  obtain var where "map_of flagTable n = Some var" using assms(2) by (metis map_of_eq_None_iff option.exhaust)
  then obtain b where b: "isBoolFlag F n = Some b" by (cases var) (auto simp: isBoolFlag_def)
  have c: "cutFlag (n @ CHR ''='' # v) = (n, Some v)" using assms(1) by (intro cutFlag_text) (simp add: plainFlag_def)
  obtain x xs where n: "n = x # xs" "x \<noteq> CHR ''-''" "x \<noteq> CHR ''=''" using assms(1) by (cases n) (simp_all add: plainFlag_def)
  show ?thesis using b c n by (cases b) (simp_all add: parseOne_def)
qed

fun setFlags :: "flaglib \<Rightarrow> (string \<times> string) list \<Rightarrow> settings \<Rightarrow> settings option" where
  "setFlags F [] st = Some st"
| "setFlags F ((n, v) # nvs) st = (case setFlag F n v st of None \<Rightarrow> None | Some st \<Rightarrow> setFlags F nvs st)"

lemma parseArgs_texts:
  "list_all plainFlag (map fst nvs) \<Longrightarrow> fst ` set nvs \<subseteq> fst ` set flagTable \<Longrightarrow> setFlags F nvs st = Some st' \<Longrightarrow> parseArgs F (flagArgs nvs) st = Inr st'"
proof (induction F nvs st rule: setFlags.induct)
  case (2 F n v nvs st)
  then show ?case using parseOne_text [of n F v "flagArgs nvs" st] by (auto simp: flagArgs_def split: option.splits)
qed (simp add: flagArgs_def)

lemma flags_plain: "list_all plainFlag (map fst flagTable)" by code_simp

lemma flagTexts_names: "map fst (flagTexts dur st) = map fst flagTable"
  by (simp add: flagTexts_def flagTable_def Let_def)

fun setVars :: "flaglib \<Rightarrow> flagVar list \<Rightarrow> string list \<Rightarrow> settings \<Rightarrow> settings option" where
  "setVars F (var # vars) (v # vs) st = Option.bind (setVar F var v st) (setVars F vars vs)"
| "setVars F _ _ st = Some st"

lemma setFlags_vars:
  assumes "distinct (map fst flagTable)"
  shows "set tbl \<subseteq> set flagTable \<Longrightarrow> setFlags F (zip (map fst tbl) vs) st = setVars F (map snd tbl) vs st"
proof (induction tbl arbitrary: vs st)
  case (Cons x tbl)
  then have "map_of flagTable (fst x) = Some (snd x)" using assms by simp
  then show ?case using Cons by (cases vs) (auto simp: setFlag_def split: option.splits)
qed simp

lemma setVars_flagTexts:
  assumes "\<forall>d \<in> set (durations st). parseDuration F (dur d) = Some d"
  shows "setVars F (map snd flagTable) (map snd (flagTexts dur st)) st0 = Some st"
proof -
  have "parseBool ''true'' = Some True" "parseBool ''false'' = Some False" by (code_simp, code_simp)
  then have b: "parseBool (if b then ''true'' else ''false'') = Some b" for b by (cases b) simp_all
  have d: "parseDuration F (dur (fl_discoveryInterval st)) = Some (fl_discoveryInterval st)"
      "parseDuration F (dur (fl_reconcileInterval st)) = Some (fl_reconcileInterval st)"
      "parseDuration F (dur (fl_firmwareUpdateSpacing st)) = Some (fl_firmwareUpdateSpacing st)"
      "parseDuration F (dur (fl_exporterDeviceUpdateInterval st)) = Some (fl_exporterDeviceUpdateInterval st)"
    using assms by (simp_all add: durations_def)
  show ?thesis
    unfolding flagTable_def flagTexts_def Let_def list.map snd_conv
    by (simp only: setVars.simps setVar_def flagVar.case bind.simps option.map b d)
      (rule arg_cong [where f = Some], rule settings.equality, simp_all)
qed

lemma setFlag_each:
  assumes "\<forall>d \<in> set (durations st). parseDuration F (dur d) = Some d"
  shows "setFlags F (flagTexts dur st) st0 = Some st"
proof -
  have "distinct (map fst flagTable)" by (simp add: flagTable_def)
  from setFlags_vars [OF this subset_refl]
  have "setFlags F (zip (map fst flagTable) (map snd (flagTexts dur st))) st0 = Some st"
    by (simp only: setVars_flagTexts [OF assms])
  then show ?thesis by (simp only: flagTexts_names [of dur st, symmetric] zip_map_fst_snd)
qed

text \<open>
  C28: Every setting of the operator can be given on the command line, by one flag of its own: the
  arguments that name each flag with the value of a setting parse back to exactly these settings,
  from any settings they start with, provided its durations are printed so that they parse.
\<close>

theorem flags_roundtrip:
  assumes "\<forall>d \<in> set (durations st). parseDuration F (dur d) = Some d"
  shows "parseArgs F (flagArgs (flagTexts dur st)) st0 = Inr st"
  using parseArgs_texts [OF _ _ setFlag_each [OF assms]] flags_plain flagTexts_names [of dur st]
  by (metis list.set_map subset_refl)

theorem flags_roundtrip_witness:
  "\<exists>dur. parseArgs exampleFlags (flagArgs (flagTexts dur (flagDefaults\<lparr>fl_enableLeaderElection := True\<rparr>))) flagDefaults =
   Inr (flagDefaults\<lparr>fl_enableLeaderElection := True\<rparr>)"
proof -
  let ?dur = "\<lambda>d. if d = minutes 5 then ''5m0s'' else if d = minutes 2 then ''2m0s'' else ''30s''"
  have "\<forall>d \<in> set (durations (flagDefaults\<lparr>fl_enableLeaderElection := True\<rparr>)). parseDuration exampleFlags (?dur d) = Some d"
    by (simp add: durations_def flagDefaults_def exampleFlags_def)
  then show ?thesis by (intro exI) (rule flags_roundtrip)
qed

end
