(* ===== verification/Memory.thy ===== *)
theory Memory
  imports Prelude
begin

text \<open>
  Go values in memory, for the one part of the program whose subject is sharing: the deep copies.
  Elsewhere values are immutable and a pointer is an option. A value is a scalar, a struct, or a
  reference into the heap; a type says how to read it. Copying functions that keep the contents
  and share nothing form a locale, which pointers, slices and structs preserve.
\<close>

section \<open>Values, types and heaps\<close>

text \<open>
  A heap is the list of the cells allocated so far, an address a position in it. A slice is a
  window (array, offset, length); the cell of an array is \<open>GArray\<close>. \<open>GOpaque\<close> stands for a scalar
  of another package.
\<close>

datatype gval =
    GBool bool
  | GInt int
  | GStr string
  | GOpaque nat
  | GStruct "(string \<times> gval) list"
  | GPtr "nat option"
  | GSlice "(nat \<times> nat \<times> nat) option"
  | GArray "gval list"

datatype gtype =
    TBool
  | TInt
  | TStr
  | TOpaque
  | TStruct "(string \<times> gtype) list"
  | TPtr gtype
  | TSlice gtype

type_synonym heap = "gval list"

text \<open>What a value of a type is, all references followed, with the address of each cell.\<close>

datatype tree = Leaf gval | NilRef | At nat tree | Arr nat "tree list" | Fields "tree list"

function (sequential) view :: "gtype \<Rightarrow> heap \<Rightarrow> gval \<Rightarrow> tree option"
  and viewFields :: "(string \<times> gtype) list \<Rightarrow> heap \<Rightarrow> (string \<times> gval) list \<Rightarrow> tree list option" where
  "view TBool h (GBool b) = Some (Leaf (GBool b))"
| "view TInt h (GInt n) = Some (Leaf (GInt n))"
| "view TStr h (GStr s) = Some (Leaf (GStr s))"
| "view TOpaque h (GOpaque n) = Some (Leaf (GOpaque n))"
| "view (TStruct fs) h (GStruct vs) = map_option Fields (viewFields fs h vs)"
| "view (TPtr t) h (GPtr None) = Some NilRef"
| "view (TPtr t) h (GPtr (Some a)) = (if a < length h then map_option (At a) (view t h (h ! a)) else None)"
| "view (TSlice t) h (GSlice None) = Some NilRef"
| "view (TSlice t) h (GSlice (Some (a, off, n))) =
     (if a < length h then
        (case h ! a of
           GArray xs \<Rightarrow>
             if off + n \<le> length xs then map_option (Arr a) (those (map (view t h) (take n (drop off xs)))) else None
         | _ \<Rightarrow> None)
      else None)"
| "view _ h _ = None"
| "viewFields [] h [] = Some []"
| "viewFields ((n, t) # fs) h ((m, v) # vs) =
     (if n = m then
        (case view t h v of
           None \<Rightarrow> None
         | Some x \<Rightarrow> map_option (Cons x) (viewFields fs h vs))
      else None)"
| "viewFields _ h _ = None"
  by pat_completeness auto
termination
  by (relation "measure (\<lambda>s. case s of Inl (t, h, v) \<Rightarrow> size t | Inr (fs, h, vs) \<Rightarrow> size_list (size_prod (\<lambda>_. 0) size) fs)") auto

fun addrs :: "tree \<Rightarrow> nat set" where
  "addrs (Leaf v) = {}"
| "addrs NilRef = {}"
| "addrs (At a x) = insert a (addrs x)"
| "addrs (Arr a xs) = insert a (\<Union> (addrs ` set xs))"
| "addrs (Fields xs) = \<Union> (addrs ` set xs)"

text \<open>The same without addresses: all that a program can see by reading.\<close>

fun plain :: "tree \<Rightarrow> tree" where
  "plain (At a x) = At 0 (plain x)"
| "plain (Arr a xs) = Arr 0 (map plain xs)"
| "plain (Fields xs) = Fields (map plain xs)"
| "plain x = x"

definition contents :: "gtype \<Rightarrow> heap \<Rightarrow> gval \<Rightarrow> tree option" where
  "contents t h v = map_option plain (view t h v)"

fun flat :: "gtype \<Rightarrow> bool" where
  "flat (TStruct fs) = list_all (\<lambda>(n, t). flat t) fs"
| "flat (TPtr t) = False"
| "flat (TSlice t) = False"
| "flat _ = True"

section \<open>Reading\<close>

text \<open>What a value is depends on the cells it reaches and on no other.\<close>

lemma those_all2: "those (map f xs) = Some ys \<longleftrightarrow> list_all2 (\<lambda>x y. f x = Some y) xs ys"
  by (induction xs arbitrary: ys) (auto simp: list_all2_Cons1 split: option.splits)

lemma all2_step:
  assumes "list_all2 P xs ys" "\<And>x y. x \<in> set xs \<Longrightarrow> y \<in> set ys \<Longrightarrow> P x y \<Longrightarrow> Q x y"
  shows "list_all2 Q xs ys"
  using assms by (rule list.rel_mono_strong)

lemma slice_view:
  "view (TSlice t) h (GSlice (Some (a, off, n))) = Some x \<longleftrightarrow>
     (\<exists>xs ys. a < length h \<and> h ! a = GArray xs \<and> off + n \<le> length xs \<and> x = Arr a ys \<and>
        list_all2 (\<lambda>v y. view t h v = Some y) (take n (drop off xs)) ys)"
  by (auto simp: those_all2 split: if_splits gval.splits)

lemma view_frame:
  "view t h v = Some x \<Longrightarrow> (\<forall>a \<in> addrs x. a < length h' \<and> h' ! a = h ! a) \<Longrightarrow> view t h' v = Some x"
  "viewFields fs h vs = Some xs \<Longrightarrow> (\<forall>x \<in> set xs. \<forall>a \<in> addrs x. a < length h' \<and> h' ! a = h ! a) \<Longrightarrow>
    viewFields fs h' vs = Some xs"
proof (induction t h v and fs h vs arbitrary: x and xs rule: view_viewFields.induct)
  case (9 t h a off n)
  then obtain xs ys where s: "a < length h" "h ! a = GArray xs" "off + n \<le> length xs" "x = Arr a ys"
      "list_all2 (\<lambda>v y. view t h v = Some y) (take n (drop off xs)) ys"
    unfolding slice_view by blast
  have "list_all2 (\<lambda>v y. view t h' v = Some y) (take n (drop off xs)) ys"
    using s(5) by (rule all2_step) (use 9 s in auto)
  then show ?case unfolding slice_view using s 9(3) by auto
qed (auto split: if_splits option.splits)

lemma view_bounded:
  "view t h v = Some x \<Longrightarrow> \<forall>a \<in> addrs x. a < length h"
  "viewFields fs h vs = Some xs \<Longrightarrow> \<forall>x \<in> set xs. \<forall>a \<in> addrs x. a < length h"
proof (induction t h v and fs h vs arbitrary: x and xs rule: view_viewFields.induct)
  case (9 t h a off n)
  then obtain xs ys where s: "a < length h" "h ! a = GArray xs" "off + n \<le> length xs" "x = Arr a ys"
      "list_all2 (\<lambda>v y. view t h v = Some y) (take n (drop off xs)) ys"
    unfolding slice_view by blast
  have "list_all2 (\<lambda>v y. \<forall>a \<in> addrs y. a < length h) (take n (drop off xs)) ys"
    using s(5) by (rule all2_step) (use 9 s in auto)
  then show ?case using s by (auto simp: list_all2_conv_all_nth in_set_conv_nth)
qed (auto split: if_splits option.splits)

lemma view_grows:
  assumes a: "view t h v = Some x"
  shows "view t (h @ ks) v = Some x"
  using view_bounded(1) [OF a] by (intro view_frame(1) [OF a]) (auto simp: nth_append)

lemma flat_addrs:
  "view t h v = Some x \<Longrightarrow> flat t \<Longrightarrow> addrs x = {}"
  "viewFields fs h vs = Some xs \<Longrightarrow> list_all (\<lambda>(n, t). flat t) fs \<Longrightarrow> \<Union> (addrs ` set xs) = {}"
  by (induction t h v and fs h vs arbitrary: x and xs rule: view_viewFields.induct) (auto split: if_splits option.splits)

section \<open>Copying\<close>

text \<open>
  A copying function takes the value that is read and gives the value that is written, with the
  heap in which everything it allocates has been added. The statements of generated copy code:
  \<open>assign\<close> is \<open>*out = *in\<close>; \<open>newPtr\<close> is \<open>if in != nil\<close> with \<open>new\<close> and a copy of what it points to; \<open>newSlice\<close>
  is \<open>if in != nil\<close> with \<open>make\<close> and a copy of every element; \<open>copyStruct\<close> assigns the struct and then
  replaces the fields named, in the order of the fields.
\<close>

type_synonym copier = "gval \<Rightarrow> heap \<Rightarrow> gval \<times> heap"

definition assign :: copier where
  "assign v h = (v, h)"

definition newPtr :: "copier \<Rightarrow> copier" where
  "newPtr c v h =
     (case v of
        GPtr (Some a) \<Rightarrow> (let (x, h) = c (h ! a) h in (GPtr (Some (length h)), h @ [x]))
      | _ \<Rightarrow> (v, h))"

fun copyElems :: "copier \<Rightarrow> gval list \<Rightarrow> heap \<Rightarrow> gval list \<times> heap" where
  "copyElems c [] h = ([], h)"
| "copyElems c (v # vs) h = (let (v, h) = c v h; (vs, h) = copyElems c vs h in (v # vs, h))"

definition newSlice :: "copier \<Rightarrow> copier" where
  "newSlice c v h =
     (case v of
        GSlice (Some (a, off, n)) \<Rightarrow>
          (case h ! a of
             GArray xs \<Rightarrow>
               (let (ys, h) = copyElems c (take n (drop off xs)) h in (GSlice (Some (length h, 0, n)), h @ [GArray ys]))
           | _ \<Rightarrow> (v, h))
      | _ \<Rightarrow> (v, h))"

fun copyFields :: "(string \<times> copier) list \<Rightarrow> (string \<times> gval) list \<Rightarrow> heap \<Rightarrow> (string \<times> gval) list \<times> heap" where
  "copyFields cs [] h = ([], h)"
| "copyFields cs ((n, v) # vs) h =
     (let (v, h) = (case map_of cs n of None \<Rightarrow> (v, h) | Some c \<Rightarrow> c v h);
          (vs, h) = copyFields cs vs h
      in ((n, v) # vs, h))"

definition copyStruct :: "(string \<times> copier) list \<Rightarrow> copier" where
  "copyStruct cs v h =
     (case v of
        GStruct vs \<Rightarrow> (let (vs, h) = copyFields cs vs h in (GStruct vs, h))
      | _ \<Rightarrow> (v, h))"

section \<open>Deep copies\<close>

named_theorems copy_laws "how copying functions are built from copying functions"

definition fresh :: "heap \<Rightarrow> tree \<Rightarrow> bool" where
  "fresh h x \<longleftrightarrow> (\<forall>a \<in> addrs x. length h \<le> a)"

text \<open>The contract of a deep copy: the heap only grows, the contents are the same, and no cell is shared.\<close>

locale deep_copier =
  fixes t :: gtype and copy :: copier
  assumes copies: "view t h v = Some x \<Longrightarrow>
    \<exists>v' ks x'. copy v h = (v', h @ ks) \<and> view t (h @ ks) v' = Some x' \<and> plain x' = plain x \<and> fresh h x'"
begin

text \<open>In a heap that has grown since the value was read.\<close>

lemma copies_later:
  assumes "view t h v = Some x"
  shows "\<exists>v' ks' x'. copy v (h @ ks) = (v', h @ ks @ ks') \<and> view t (h @ ks @ ks') v' = Some x' \<and> plain x' = plain x \<and>
    fresh (h @ ks) x'"
proof -
  have "view t (h @ ks) v = Some x" by (rule view_grows) (rule assms)
  from copies [OF this] show ?thesis by simp
qed

text \<open>Neither the original nor the copy notices what is written to the other.\<close>

lemma isolated:
  assumes "contents t h v = Some c" "copy v h = (v', h')"
  shows "contents t h' v' = Some c"
    "a < length h \<Longrightarrow> contents t (h'[a := u]) v' = Some c"
    "length h \<le> a \<Longrightarrow> contents t (h'[a := u]) v = Some c"
proof -
  obtain x where x: "view t h v = Some x" "plain x = c" using assms(1) by (auto simp: contents_def)
  obtain ks x' where c: "h' = h @ ks" "view t h' v' = Some x'" "plain x' = c" "fresh h x'"
    using copies [OF x(1)] assms(2) x(2) by auto
  show "contents t h' v' = Some c" using c by (simp add: contents_def)
  show "contents t (h'[a := u]) v' = Some c" if "a < length h"
  proof -
    have "view t (h'[a := u]) v' = Some x'"
      using that c(4) view_bounded(1) [OF c(2)] by (intro view_frame(1) [OF c(2)]) (auto simp: fresh_def nth_list_update)
    then show ?thesis using c(3) by (simp add: contents_def)
  qed
  show "contents t (h'[a := u]) v = Some c" if "length h \<le> a"
  proof -
    have "view t (h'[a := u]) v = Some x"
      using that view_bounded(1) [OF x(1)]
      by (intro view_frame(1) [OF x(1)]) (auto simp: c(1) nth_append list_update_append nth_list_update)
    then show ?thesis using x(2) by (simp add: contents_def)
  qed
qed

end

lemma assign_deep [copy_laws]: "flat t \<Longrightarrow> deep_copier t assign"
  by unfold_locales (auto simp: assign_def fresh_def dest: flat_addrs(1))

lemma newPtr_deep [copy_laws]:
  assumes "deep_copier t c"
  shows "deep_copier (TPtr t) (newPtr c)"
proof
  fix h v x
  assume v: "view (TPtr t) h v = Some x"
  show "\<exists>v' ks x'. newPtr c v h = (v', h @ ks) \<and> view (TPtr t) (h @ ks) v' = Some x' \<and> plain x' = plain x \<and> fresh h x'"
  proof (cases "\<exists>a. v = GPtr (Some a)")
    case False
    then have "v = GPtr None" "x = NilRef" using v by (cases v; auto split: option.splits)+
    then show ?thesis by (auto simp: newPtr_def fresh_def)
  next
    case True
    then obtain a y where a: "v = GPtr (Some a)" "view t h (h ! a) = Some y" "x = At a y"
      using v by (auto split: if_splits)
    obtain u ks y' where u: "c (h ! a) h = (u, h @ ks)" "view t (h @ ks) u = Some y'" "plain y' = plain y" "fresh h y'"
      using deep_copier.copies [OF assms a(2)] by blast
    have "view t ((h @ ks) @ [u]) u = Some y'" by (rule view_grows) (rule u(2))
    then show ?thesis
      using u a by (intro exI [of _ "GPtr (Some (length (h @ ks)))"] exI [of _ "ks @ [u]"] exI [of _ "At (length (h @ ks)) y'"])
        (auto simp: newPtr_def fresh_def nth_append)
  qed
qed

lemma copyElems_deep:
  assumes "deep_copier t c"
  shows "list_all2 (\<lambda>v x. view t h v = Some x) vs xs \<Longrightarrow>
    \<exists>vs' ks' xs'. copyElems c vs (h @ ks) = (vs', h @ ks @ ks') \<and>
      list_all2 (\<lambda>v x. view t (h @ ks @ ks') v = Some x) vs' xs' \<and> map plain xs' = map plain xs \<and> list_all (fresh h) xs'"
proof (induction vs arbitrary: xs ks)
  case Nil
  then show ?case by auto
next
  case (Cons v vs)
  then obtain x zs where xs: "xs = x # zs" "view t h v = Some x" "list_all2 (\<lambda>v x. view t h v = Some x) vs zs"
    by (auto simp: list_all2_Cons1)
  obtain v' k1 x' where c1: "c v (h @ ks) = (v', h @ ks @ k1)" "view t (h @ ks @ k1) v' = Some x'" "plain x' = plain x"
      "fresh (h @ ks) x'"
    using deep_copier.copies_later [OF assms xs(2)] by blast
  obtain vs' k2 xs' where c2: "copyElems c vs (h @ ks @ k1) = (vs', h @ (ks @ k1) @ k2)"
      "list_all2 (\<lambda>v x. view t (h @ (ks @ k1) @ k2) v = Some x) vs' xs'" "map plain xs' = map plain zs" "list_all (fresh h) xs'"
    using Cons.IH [OF xs(3), of "ks @ k1"] by auto
  have "view t ((h @ ks @ k1) @ k2) v' = Some x'" by (rule view_grows) (rule c1(2))
  moreover have "fresh h x'" using c1(4) by (auto simp: fresh_def)
  ultimately show ?case
    using c1 c2 xs(1) by (intro exI [of _ "v' # vs'"] exI [of _ "k1 @ k2"] exI [of _ "x' # xs'"]) simp
qed

lemma slice_shape:
  assumes "view (TSlice t) h v = Some x"
  obtains "v = GSlice None" "x = NilRef" | a off n where "v = GSlice (Some (a, off, n))"
  using assms by (cases "(TSlice t, h, v)" rule: view.cases) simp_all

lemma newSlice_deep [copy_laws]:
  assumes "deep_copier t c"
  shows "deep_copier (TSlice t) (newSlice c)"
proof
  fix h v x
  assume v: "view (TSlice t) h v = Some x"
  show "\<exists>v' ks x'. newSlice c v h = (v', h @ ks) \<and> view (TSlice t) (h @ ks) v' = Some x' \<and> plain x' = plain x \<and> fresh h x'"
    using v
  proof (cases rule: slice_shape)
    case 1
    then show ?thesis by (auto simp: newSlice_def fresh_def)
  next
    case w: (2 a off n)
    from v obtain xs ys where s: "a < length h" "h ! a = GArray xs" "off + n \<le> length xs" "x = Arr a ys"
        "list_all2 (\<lambda>v y. view t h v = Some y) (take n (drop off xs)) ys"
      unfolding w slice_view by blast
    obtain vs ks zs where c: "copyElems c (take n (drop off xs)) h = (vs, h @ ks)"
        "list_all2 (\<lambda>v y. view t (h @ ks) v = Some y) vs zs" "map plain zs = map plain ys" "list_all (fresh h) zs"
      using copyElems_deep [OF assms s(5), of "[]"] by auto
    have "list_all2 (\<lambda>v y. view t ((h @ ks) @ [GArray vs]) v = Some y) vs zs"
      using c(2) by (rule all2_step) (rule view_grows)
    moreover have "length vs = n"
      using list_all2_lengthD [OF c(2)] list_all2_lengthD [OF s(5)] arg_cong [OF c(3), of length] s(3) by simp
    ultimately have "view (TSlice t) (h @ ks @ [GArray vs]) (GSlice (Some (length (h @ ks), 0, n))) = Some (Arr (length (h @ ks)) zs)"
      unfolding slice_view by (simp add: nth_append)
    moreover have "newSlice c v h = (GSlice (Some (length (h @ ks), 0, n)), h @ ks @ [GArray vs])"
      using w s(2) c(1) by (simp add: newSlice_def)
    ultimately show ?thesis
      using c(3,4) s(4) by (intro exI conjI) (assumption | simp add: fresh_def list_all_iff)+
  qed
qed

text \<open>A struct is copied deeply when every field is, the fields that are only assigned being flat.\<close>

definition fieldCopied :: "(string \<times> copier) list \<Rightarrow> string \<times> gtype \<Rightarrow> bool" where
  "fieldCopied cs f \<longleftrightarrow> (case map_of cs (fst f) of None \<Rightarrow> flat (snd f) | Some c \<Rightarrow> deep_copier (snd f) c)"

lemma copyFields_deep:
  "viewFields fs h vs = Some xs \<Longrightarrow> list_all (fieldCopied cs) fs \<Longrightarrow>
    \<exists>vs' ks' xs'. copyFields cs vs (h @ ks) = (vs', h @ ks @ ks') \<and>
      viewFields fs (h @ ks @ ks') vs' = Some xs' \<and> map plain xs' = map plain xs \<and> list_all (fresh h) xs'"
proof (induction fs arbitrary: vs xs ks)
  case Nil
  then show ?case by (cases vs) auto
next
  case (Cons f fs)
  obtain n t where f: "f = (n, t)" by force
  obtain v ws x zs where v: "vs = (n, v) # ws" "view t h v = Some x" "viewFields fs h ws = Some zs" "xs = x # zs"
    using Cons.prems(1) f by (cases vs) (auto split: if_splits option.splits)
  let ?c = "case map_of cs n of None \<Rightarrow> assign | Some c \<Rightarrow> c"
  have "deep_copier t ?c" using Cons.prems(2) f by (auto simp: fieldCopied_def assign_deep split: option.splits)
  from deep_copier.copies_later [OF this v(2)]
  obtain v' k1 x' where c1: "?c v (h @ ks) = (v', h @ ks @ k1)" "view t (h @ ks @ k1) v' = Some x'" "plain x' = plain x"
      "fresh (h @ ks) x'"
    by blast
  obtain ws' k2 zs' where c2: "copyFields cs ws (h @ ks @ k1) = (ws', h @ (ks @ k1) @ k2)"
      "viewFields fs (h @ (ks @ k1) @ k2) ws' = Some zs'" "map plain zs' = map plain zs" "list_all (fresh h) zs'"
    using Cons.IH [OF v(3), of "ks @ k1"] Cons.prems(2) by auto
  have "view t ((h @ ks @ k1) @ k2) v' = Some x'" by (rule view_grows) (rule c1(2))
  moreover have "fresh h x'" using c1(4) by (auto simp: fresh_def)
  moreover have "copyFields cs vs (h @ ks) = ((n, v') # ws', h @ ks @ k1 @ k2)"
    using c1(1) c2(1) v(1) by (simp add: assign_def split: option.splits)
  ultimately show ?case
    using c1(3) c2(2-4) v(4) f by (intro exI [of _ "(n, v') # ws'"] exI [of _ "k1 @ k2"] exI [of _ "x' # zs'"]) simp
qed

lemma copyStruct_deep:
  assumes "list_all (fieldCopied cs) fs"
  shows "deep_copier (TStruct fs) (copyStruct cs)"
proof
  fix h v x
  assume "view (TStruct fs) h v = Some x"
  then obtain vs xs where v: "v = GStruct vs" "viewFields fs h vs = Some xs" "x = Fields xs"
    by (cases v) auto
  show "\<exists>v' ks x'. copyStruct cs v h = (v', h @ ks) \<and> view (TStruct fs) (h @ ks) v' = Some x' \<and> plain x' = plain x \<and> fresh h x'"
    using copyFields_deep [OF v(2) assms, of "[]"] v by (fastforce simp: copyStruct_def fresh_def list_all_iff)
qed

end
