(* ===== verification/Deep_Copy.thy ===== *)
theory Deep_Copy
  imports Memory
begin

text \<open>
  \<open>api/v1alpha1/zz_generated.deepcopy.go\<close>: the generated deep copies of the API types, in memory. Each
  struct type of \<open>shellyprofile_types.go\<close> and \<open>shellydevice_types.go\<close> is a \<open>gtype\<close> with its fields in
  order; \<open>DeepCopyInto\<close> is the copying of its fields, \<open>DeepCopy\<close> the new pointer to a copy. The types of
  apimachinery that the structs contain, and how these copy themselves, are parameters.
\<close>

section \<open>Types of other packages\<close>

record extlib =
  xt_TypeMeta :: gtype
  xt_ObjectMeta :: gtype
  xc_ObjectMeta :: copier
  xt_ListMeta :: gtype
  xc_ListMeta :: copier
  xt_Time :: gtype
  xc_Time :: copier
  xc_TimeDeepCopy :: copier
  xt_Condition :: gtype
  xc_Condition :: copier
  xt_LabelSelector :: gtype
  xc_LabelSelector :: copier
  xt_JSON :: gtype
  xc_JSON :: copier

text \<open>What the generated code relies on: \<open>TypeMeta\<close> is strings only, the others copy themselves deeply.\<close>

definition extCopiers :: "extlib \<Rightarrow> bool" where
  "extCopiers X \<longleftrightarrow>
     flat (xt_TypeMeta X) \<and> deep_copier (xt_ObjectMeta X) (xc_ObjectMeta X) \<and>
     deep_copier (xt_ListMeta X) (xc_ListMeta X) \<and> deep_copier (xt_Time X) (xc_Time X) \<and>
     deep_copier (TPtr (xt_Time X)) (xc_TimeDeepCopy X) \<and> deep_copier (xt_Condition X) (xc_Condition X) \<and>
     deep_copier (xt_LabelSelector X) (xc_LabelSelector X) \<and> deep_copier (xt_JSON X) (xc_JSON X)"

section \<open>The types and their copies\<close>

definition type_SystemSection :: gtype where
  "type_SystemSection = TStruct [
     (''EcoMode'', TPtr TBool), (''Discoverable'', TPtr TBool), (''Timezone'', TPtr TStr),
     (''Latitude'', TPtr TStr), (''Longitude'', TPtr TStr), (''SNTPServer'', TPtr TStr),
     (''DebugLevel'', TPtr TInt)]"

definition DeepCopyInto_SystemSection :: copier where
  "DeepCopyInto_SystemSection = copyStruct [
     (''EcoMode'', newPtr assign), (''Discoverable'', newPtr assign), (''Timezone'', newPtr assign),
     (''Latitude'', newPtr assign), (''Longitude'', newPtr assign), (''SNTPServer'', newPtr assign),
     (''DebugLevel'', newPtr assign)]"

definition DeepCopy_SystemSection :: copier where
  "DeepCopy_SystemSection = newPtr DeepCopyInto_SystemSection"

definition type_NameSection :: gtype where
  "type_NameSection = TStruct [
     (''Managed'', TBool)]"

definition DeepCopyInto_NameSection :: copier where
  "DeepCopyInto_NameSection = copyStruct []"

definition DeepCopy_NameSection :: copier where
  "DeepCopy_NameSection = newPtr DeepCopyInto_NameSection"

definition type_MQTTSection :: gtype where
  "type_MQTTSection = TStruct [
     (''Enable'', TPtr TBool), (''Server'', TStr)]"

definition DeepCopyInto_MQTTSection :: copier where
  "DeepCopyInto_MQTTSection = copyStruct [
     (''Enable'', newPtr assign)]"

definition DeepCopy_MQTTSection :: copier where
  "DeepCopy_MQTTSection = newPtr DeepCopyInto_MQTTSection"

definition type_CloudSection :: gtype where
  "type_CloudSection = TStruct [
     (''Enable'', TPtr TBool)]"

definition DeepCopyInto_CloudSection :: copier where
  "DeepCopyInto_CloudSection = copyStruct [
     (''Enable'', newPtr assign)]"

definition DeepCopy_CloudSection :: copier where
  "DeepCopy_CloudSection = newPtr DeepCopyInto_CloudSection"

definition type_BLESection :: gtype where
  "type_BLESection = TStruct [
     (''Enable'', TPtr TBool)]"

definition DeepCopyInto_BLESection :: copier where
  "DeepCopyInto_BLESection = copyStruct [
     (''Enable'', newPtr assign)]"

definition DeepCopy_BLESection :: copier where
  "DeepCopy_BLESection = newPtr DeepCopyInto_BLESection"

definition type_WSSection :: gtype where
  "type_WSSection = TStruct [
     (''Enable'', TPtr TBool)]"

definition DeepCopyInto_WSSection :: copier where
  "DeepCopyInto_WSSection = copyStruct [
     (''Enable'', newPtr assign)]"

definition DeepCopy_WSSection :: copier where
  "DeepCopy_WSSection = newPtr DeepCopyInto_WSSection"

definition type_SecretKeyRef :: gtype where
  "type_SecretKeyRef = TStruct [
     (''Name'', TStr), (''Key'', TStr)]"

definition DeepCopyInto_SecretKeyRef :: copier where
  "DeepCopyInto_SecretKeyRef = copyStruct []"

definition DeepCopy_SecretKeyRef :: copier where
  "DeepCopy_SecretKeyRef = newPtr DeepCopyInto_SecretKeyRef"

definition type_AuthSection :: gtype where
  "type_AuthSection = TStruct [
     (''Enable'', TPtr TBool), (''PasswordSecretRef'', TPtr type_SecretKeyRef)]"

definition DeepCopyInto_AuthSection :: copier where
  "DeepCopyInto_AuthSection = copyStruct [
     (''Enable'', newPtr assign), (''PasswordSecretRef'', newPtr assign)]"

definition DeepCopy_AuthSection :: copier where
  "DeepCopy_AuthSection = newPtr DeepCopyInto_AuthSection"

definition type_SwitchSection :: gtype where
  "type_SwitchSection = TStruct [
     (''InitialState'', TPtr TStr), (''AutoOn'', TPtr TBool), (''AutoOnDelay'', TPtr TInt),
     (''AutoOff'', TPtr TBool), (''AutoOffDelay'', TPtr TInt), (''PowerLimit'', TPtr TInt),
     (''VoltageLimit'', TPtr TInt), (''CurrentLimit'', TPtr TInt), (''AutorecoverVoltageErrors'', TPtr TBool)]"

definition DeepCopyInto_SwitchSection :: copier where
  "DeepCopyInto_SwitchSection = copyStruct [
     (''InitialState'', newPtr assign), (''AutoOn'', newPtr assign), (''AutoOnDelay'', newPtr assign),
     (''AutoOff'', newPtr assign), (''AutoOffDelay'', newPtr assign), (''PowerLimit'', newPtr assign),
     (''VoltageLimit'', newPtr assign), (''CurrentLimit'', newPtr assign),
     (''AutorecoverVoltageErrors'', newPtr assign)]"

definition DeepCopy_SwitchSection :: copier where
  "DeepCopy_SwitchSection = newPtr DeepCopyInto_SwitchSection"

definition type_WifiNetwork :: gtype where
  "type_WifiNetwork = TStruct [
     (''Enable'', TPtr TBool), (''SSID'', TStr), (''PassSecretRef'', TPtr type_SecretKeyRef)]"

definition DeepCopyInto_WifiNetwork :: copier where
  "DeepCopyInto_WifiNetwork = copyStruct [
     (''Enable'', newPtr assign), (''PassSecretRef'', newPtr assign)]"

definition DeepCopy_WifiNetwork :: copier where
  "DeepCopy_WifiNetwork = newPtr DeepCopyInto_WifiNetwork"

definition type_WifiAP :: gtype where
  "type_WifiAP = TStruct [
     (''Enable'', TPtr TBool), (''RangeExtender'', TPtr TBool)]"

definition DeepCopyInto_WifiAP :: copier where
  "DeepCopyInto_WifiAP = copyStruct [
     (''Enable'', newPtr assign), (''RangeExtender'', newPtr assign)]"

definition DeepCopy_WifiAP :: copier where
  "DeepCopy_WifiAP = newPtr DeepCopyInto_WifiAP"

definition type_WifiRoam :: gtype where
  "type_WifiRoam = TStruct [
     (''RSSIThreshold'', TPtr TInt), (''Interval'', TPtr TInt)]"

definition DeepCopyInto_WifiRoam :: copier where
  "DeepCopyInto_WifiRoam = copyStruct [
     (''RSSIThreshold'', newPtr assign), (''Interval'', newPtr assign)]"

definition DeepCopy_WifiRoam :: copier where
  "DeepCopy_WifiRoam = newPtr DeepCopyInto_WifiRoam"

definition type_WifiSection :: gtype where
  "type_WifiSection = TStruct [
     (''Sta'', TPtr type_WifiNetwork), (''Sta1'', TPtr type_WifiNetwork), (''AP'', TPtr type_WifiAP),
     (''Roam'', TPtr type_WifiRoam)]"

definition DeepCopyInto_WifiSection :: copier where
  "DeepCopyInto_WifiSection = copyStruct [
     (''Sta'', newPtr DeepCopyInto_WifiNetwork), (''Sta1'', newPtr DeepCopyInto_WifiNetwork),
     (''AP'', newPtr DeepCopyInto_WifiAP), (''Roam'', newPtr DeepCopyInto_WifiRoam)]"

definition DeepCopy_WifiSection :: copier where
  "DeepCopy_WifiSection = newPtr DeepCopyInto_WifiSection"

definition type_FirmwareSection :: gtype where
  "type_FirmwareSection = TStruct [
     (''AutoUpdate'', TPtr TBool)]"

definition DeepCopyInto_FirmwareSection :: copier where
  "DeepCopyInto_FirmwareSection = copyStruct [
     (''AutoUpdate'', newPtr assign)]"

definition DeepCopy_FirmwareSection :: copier where
  "DeepCopy_FirmwareSection = newPtr DeepCopyInto_FirmwareSection"

definition type_ScheduleCallSpec :: "extlib \<Rightarrow> gtype" where
  "type_ScheduleCallSpec X = TStruct [
     (''Method'', TStr), (''Params'', TPtr (xt_JSON X))]"

definition DeepCopyInto_ScheduleCallSpec :: "extlib \<Rightarrow> copier" where
  "DeepCopyInto_ScheduleCallSpec X = copyStruct [
     (''Params'', newPtr (xc_JSON X))]"

definition DeepCopy_ScheduleCallSpec :: "extlib \<Rightarrow> copier" where
  "DeepCopy_ScheduleCallSpec X = newPtr (DeepCopyInto_ScheduleCallSpec X)"

definition type_ScheduleJobSpec :: "extlib \<Rightarrow> gtype" where
  "type_ScheduleJobSpec X = TStruct [
     (''Enable'', TPtr TBool), (''Timespec'', TStr), (''Calls'', TSlice (type_ScheduleCallSpec X))]"

definition DeepCopyInto_ScheduleJobSpec :: "extlib \<Rightarrow> copier" where
  "DeepCopyInto_ScheduleJobSpec X = copyStruct [
     (''Enable'', newPtr assign), (''Calls'', newSlice (DeepCopyInto_ScheduleCallSpec X))]"

definition DeepCopy_ScheduleJobSpec :: "extlib \<Rightarrow> copier" where
  "DeepCopy_ScheduleJobSpec X = newPtr (DeepCopyInto_ScheduleJobSpec X)"

definition type_ScheduleSection :: "extlib \<Rightarrow> gtype" where
  "type_ScheduleSection X = TStruct [
     (''Jobs'', TSlice (type_ScheduleJobSpec X))]"

definition DeepCopyInto_ScheduleSection :: "extlib \<Rightarrow> copier" where
  "DeepCopyInto_ScheduleSection X = copyStruct [
     (''Jobs'', newSlice (DeepCopyInto_ScheduleJobSpec X))]"

definition DeepCopy_ScheduleSection :: "extlib \<Rightarrow> copier" where
  "DeepCopy_ScheduleSection X = newPtr (DeepCopyInto_ScheduleSection X)"

definition type_NightMode :: gtype where
  "type_NightMode = TStruct [
     (''Enable'', TPtr TBool), (''Brightness'', TPtr TInt), (''ActiveBetween'', TSlice TStr)]"

definition DeepCopyInto_NightMode :: copier where
  "DeepCopyInto_NightMode = copyStruct [
     (''Enable'', newPtr assign), (''Brightness'', newPtr assign), (''ActiveBetween'', newSlice assign)]"

definition DeepCopy_NightMode :: copier where
  "DeepCopy_NightMode = newPtr DeepCopyInto_NightMode"

definition type_UISection :: gtype where
  "type_UISection = TStruct [
     (''LEDMode'', TPtr TStr), (''NightMode'', TPtr type_NightMode), (''ButtonInMode'', TPtr TStr)]"

definition DeepCopyInto_UISection :: copier where
  "DeepCopyInto_UISection = copyStruct [
     (''LEDMode'', newPtr assign), (''NightMode'', newPtr DeepCopyInto_NightMode),
     (''ButtonInMode'', newPtr assign)]"

definition DeepCopy_UISection :: copier where
  "DeepCopy_UISection = newPtr DeepCopyInto_UISection"

definition type_ProfileConfig :: "extlib \<Rightarrow> gtype" where
  "type_ProfileConfig X = TStruct [
     (''System'', TPtr type_SystemSection), (''Name'', TPtr type_NameSection),
     (''MQTT'', TPtr type_MQTTSection), (''Cloud'', TPtr type_CloudSection), (''BLE'', TPtr type_BLESection),
     (''WS'', TPtr type_WSSection), (''Auth'', TPtr type_AuthSection), (''Switch'', TPtr type_SwitchSection),
     (''Wifi'', TPtr type_WifiSection), (''Firmware'', TPtr type_FirmwareSection),
     (''Schedules'', TPtr (type_ScheduleSection X)), (''UI'', TPtr type_UISection)]"

definition DeepCopyInto_ProfileConfig :: "extlib \<Rightarrow> copier" where
  "DeepCopyInto_ProfileConfig X = copyStruct [
     (''System'', newPtr DeepCopyInto_SystemSection), (''Name'', newPtr assign),
     (''MQTT'', newPtr DeepCopyInto_MQTTSection), (''Cloud'', newPtr DeepCopyInto_CloudSection),
     (''BLE'', newPtr DeepCopyInto_BLESection), (''WS'', newPtr DeepCopyInto_WSSection),
     (''Auth'', newPtr DeepCopyInto_AuthSection), (''Switch'', newPtr DeepCopyInto_SwitchSection),
     (''Wifi'', newPtr DeepCopyInto_WifiSection), (''Firmware'', newPtr DeepCopyInto_FirmwareSection),
     (''Schedules'', newPtr (DeepCopyInto_ScheduleSection X)), (''UI'', newPtr DeepCopyInto_UISection)]"

definition DeepCopy_ProfileConfig :: "extlib \<Rightarrow> copier" where
  "DeepCopy_ProfileConfig X = newPtr (DeepCopyInto_ProfileConfig X)"

definition type_RebootWindow :: gtype where
  "type_RebootWindow = TStruct [
     (''Start'', TStr), (''End'', TStr), (''TimeZone'', TStr)]"

definition DeepCopyInto_RebootWindow :: copier where
  "DeepCopyInto_RebootWindow = copyStruct []"

definition DeepCopy_RebootWindow :: copier where
  "DeepCopy_RebootWindow = newPtr DeepCopyInto_RebootWindow"

definition type_ShellyProfileSpec :: "extlib \<Rightarrow> gtype" where
  "type_ShellyProfileSpec X = TStruct [
     (''Selector'', TPtr (xt_LabelSelector X)), (''Priority'', TInt), (''Mode'', TStr),
     (''Config'', type_ProfileConfig X), (''RebootWhenRequired'', TBool),
     (''RebootWindow'', TPtr type_RebootWindow), (''UpdateWhenAvailable'', TBool),
     (''UpdateWindow'', TPtr type_RebootWindow)]"

definition DeepCopyInto_ShellyProfileSpec :: "extlib \<Rightarrow> copier" where
  "DeepCopyInto_ShellyProfileSpec X = copyStruct [
     (''Selector'', newPtr (xc_LabelSelector X)), (''Config'', DeepCopyInto_ProfileConfig X),
     (''RebootWindow'', newPtr assign), (''UpdateWindow'', newPtr assign)]"

definition DeepCopy_ShellyProfileSpec :: "extlib \<Rightarrow> copier" where
  "DeepCopy_ShellyProfileSpec X = newPtr (DeepCopyInto_ShellyProfileSpec X)"

definition type_ShellyProfile :: "extlib \<Rightarrow> gtype" where
  "type_ShellyProfile X = TStruct [
     (''TypeMeta'', xt_TypeMeta X), (''ObjectMeta'', xt_ObjectMeta X), (''Spec'', type_ShellyProfileSpec X)]"

definition DeepCopyInto_ShellyProfile :: "extlib \<Rightarrow> copier" where
  "DeepCopyInto_ShellyProfile X = copyStruct [
     (''TypeMeta'', assign), (''ObjectMeta'', xc_ObjectMeta X), (''Spec'', DeepCopyInto_ShellyProfileSpec X)]"

definition DeepCopy_ShellyProfile :: "extlib \<Rightarrow> copier" where
  "DeepCopy_ShellyProfile X = newPtr (DeepCopyInto_ShellyProfile X)"

definition type_ShellyProfileList :: "extlib \<Rightarrow> gtype" where
  "type_ShellyProfileList X = TStruct [
     (''TypeMeta'', xt_TypeMeta X), (''ListMeta'', xt_ListMeta X), (''Items'', TSlice (type_ShellyProfile X))]"

definition DeepCopyInto_ShellyProfileList :: "extlib \<Rightarrow> copier" where
  "DeepCopyInto_ShellyProfileList X = copyStruct [
     (''TypeMeta'', assign), (''ListMeta'', xc_ListMeta X),
     (''Items'', newSlice (DeepCopyInto_ShellyProfile X))]"

definition DeepCopy_ShellyProfileList :: "extlib \<Rightarrow> copier" where
  "DeepCopy_ShellyProfileList X = newPtr (DeepCopyInto_ShellyProfileList X)"

definition type_ShellyDeviceSpec :: gtype where
  "type_ShellyDeviceSpec = TStruct [
     (''Paused'', TBool), (''DisplayName'', TStr), (''ProfileRef'', TStr)]"

definition DeepCopyInto_ShellyDeviceSpec :: copier where
  "DeepCopyInto_ShellyDeviceSpec = copyStruct []"

definition DeepCopy_ShellyDeviceSpec :: copier where
  "DeepCopy_ShellyDeviceSpec = newPtr DeepCopyInto_ShellyDeviceSpec"

definition type_FirmwareUpdateAttempt :: "extlib \<Rightarrow> gtype" where
  "type_FirmwareUpdateAttempt X = TStruct [
     (''Time'', xt_Time X), (''From'', TStr), (''Target'', TStr), (''Error'', TStr), (''Refused'', TBool)]"

definition DeepCopyInto_FirmwareUpdateAttempt :: "extlib \<Rightarrow> copier" where
  "DeepCopyInto_FirmwareUpdateAttempt X = copyStruct [
     (''Time'', xc_Time X)]"

definition DeepCopy_FirmwareUpdateAttempt :: "extlib \<Rightarrow> copier" where
  "DeepCopy_FirmwareUpdateAttempt X = newPtr (DeepCopyInto_FirmwareUpdateAttempt X)"

definition type_ShellyDeviceStatus :: "extlib \<Rightarrow> gtype" where
  "type_ShellyDeviceStatus X = TStruct [
     (''Address'', TStr), (''MAC'', TStr), (''Model'', TStr), (''App'', TStr), (''Gen'', TInt),
     (''Firmware'', TStr), (''AvailableFirmware'', TStr), (''AuthEnabled'', TBool),
     (''RestartRequired'', TBool), (''LastFirmwareUpdate'', TPtr (type_FirmwareUpdateAttempt X)),
     (''DeviceName'', TStr), (''Online'', TBool), (''LastSeen'', TPtr (xt_Time X)), (''MatchedProfile'', TStr),
     (''DriftedSections'', TSlice TStr), (''Conditions'', TSlice (xt_Condition X))]"

definition DeepCopyInto_ShellyDeviceStatus :: "extlib \<Rightarrow> copier" where
  "DeepCopyInto_ShellyDeviceStatus X = copyStruct [
     (''LastFirmwareUpdate'', newPtr (DeepCopyInto_FirmwareUpdateAttempt X)),
     (''LastSeen'', xc_TimeDeepCopy X), (''DriftedSections'', newSlice assign),
     (''Conditions'', newSlice (xc_Condition X))]"

definition DeepCopy_ShellyDeviceStatus :: "extlib \<Rightarrow> copier" where
  "DeepCopy_ShellyDeviceStatus X = newPtr (DeepCopyInto_ShellyDeviceStatus X)"

definition type_ShellyDevice :: "extlib \<Rightarrow> gtype" where
  "type_ShellyDevice X = TStruct [
     (''TypeMeta'', xt_TypeMeta X), (''ObjectMeta'', xt_ObjectMeta X), (''Spec'', type_ShellyDeviceSpec),
     (''Status'', type_ShellyDeviceStatus X)]"

definition DeepCopyInto_ShellyDevice :: "extlib \<Rightarrow> copier" where
  "DeepCopyInto_ShellyDevice X = copyStruct [
     (''TypeMeta'', assign), (''ObjectMeta'', xc_ObjectMeta X), (''Spec'', assign),
     (''Status'', DeepCopyInto_ShellyDeviceStatus X)]"

definition DeepCopy_ShellyDevice :: "extlib \<Rightarrow> copier" where
  "DeepCopy_ShellyDevice X = newPtr (DeepCopyInto_ShellyDevice X)"

definition type_ShellyDeviceList :: "extlib \<Rightarrow> gtype" where
  "type_ShellyDeviceList X = TStruct [
     (''TypeMeta'', xt_TypeMeta X), (''ListMeta'', xt_ListMeta X), (''Items'', TSlice (type_ShellyDevice X))]"

definition DeepCopyInto_ShellyDeviceList :: "extlib \<Rightarrow> copier" where
  "DeepCopyInto_ShellyDeviceList X = copyStruct [
     (''TypeMeta'', assign), (''ListMeta'', xc_ListMeta X),
     (''Items'', newSlice (DeepCopyInto_ShellyDevice X))]"

definition DeepCopy_ShellyDeviceList :: "extlib \<Rightarrow> copier" where
  "DeepCopy_ShellyDeviceList X = newPtr (DeepCopyInto_ShellyDeviceList X)"

text \<open>\<open>DeepCopyObject\<close>: the copy as a \<open>runtime.Object\<close>, no object for a nil pointer.\<close>

definition asObject :: "gval \<times> heap \<Rightarrow> gval option \<times> heap" where
  "asObject r = (case r of (GPtr None, h) \<Rightarrow> (None, h) | (c, h) \<Rightarrow> (Some c, h))"

definition DeepCopyObject_ShellyProfile :: "extlib \<Rightarrow> gval \<Rightarrow> heap \<Rightarrow> gval option \<times> heap" where
  "DeepCopyObject_ShellyProfile X p h = asObject (DeepCopy_ShellyProfile X p h)"

definition DeepCopyObject_ShellyProfileList :: "extlib \<Rightarrow> gval \<Rightarrow> heap \<Rightarrow> gval option \<times> heap" where
  "DeepCopyObject_ShellyProfileList X p h = asObject (DeepCopy_ShellyProfileList X p h)"

definition DeepCopyObject_ShellyDevice :: "extlib \<Rightarrow> gval \<Rightarrow> heap \<Rightarrow> gval option \<times> heap" where
  "DeepCopyObject_ShellyDevice X p h = asObject (DeepCopy_ShellyDevice X p h)"

definition DeepCopyObject_ShellyDeviceList :: "extlib \<Rightarrow> gval \<Rightarrow> heap \<Rightarrow> gval option \<times> heap" where
  "DeepCopyObject_ShellyDeviceList X p h = asObject (DeepCopy_ShellyDeviceList X p h)"

section \<open>Every copy is deep\<close>

lemma flat_structs [simp]:
  "flat type_SecretKeyRef" "flat type_NameSection" "flat type_RebootWindow" "flat type_ShellyDeviceSpec"
  by (simp_all add: type_SecretKeyRef_def type_NameSection_def type_RebootWindow_def type_ShellyDeviceSpec_def)

lemma ext_laws [copy_laws]:
  assumes "extCopiers X"
  shows "flat (xt_TypeMeta X)" "deep_copier (xt_ObjectMeta X) (xc_ObjectMeta X)"
    "deep_copier (xt_ListMeta X) (xc_ListMeta X)" "deep_copier (xt_Time X) (xc_Time X)"
    "deep_copier (TPtr (xt_Time X)) (xc_TimeDeepCopy X)" "deep_copier (xt_Condition X) (xc_Condition X)"
    "deep_copier (xt_LabelSelector X) (xc_LabelSelector X)" "deep_copier (xt_JSON X) (xc_JSON X)"
  using assms by (simp_all add: extCopiers_def)

interpretation systemSection: deep_copier type_SystemSection DeepCopyInto_SystemSection
  unfolding type_SystemSection_def DeepCopyInto_SystemSection_def
  by (intro copyStruct_deep) (simp add: fieldCopied_def copy_laws)

lemmas SystemSection_deep [copy_laws] = systemSection.deep_copier_axioms

interpretation nameSection: deep_copier type_NameSection DeepCopyInto_NameSection
  unfolding type_NameSection_def DeepCopyInto_NameSection_def
  by (intro copyStruct_deep) (simp add: fieldCopied_def copy_laws)

lemmas NameSection_deep [copy_laws] = nameSection.deep_copier_axioms

interpretation mQTTSection: deep_copier type_MQTTSection DeepCopyInto_MQTTSection
  unfolding type_MQTTSection_def DeepCopyInto_MQTTSection_def
  by (intro copyStruct_deep) (simp add: fieldCopied_def copy_laws)

lemmas MQTTSection_deep [copy_laws] = mQTTSection.deep_copier_axioms

interpretation cloudSection: deep_copier type_CloudSection DeepCopyInto_CloudSection
  unfolding type_CloudSection_def DeepCopyInto_CloudSection_def
  by (intro copyStruct_deep) (simp add: fieldCopied_def copy_laws)

lemmas CloudSection_deep [copy_laws] = cloudSection.deep_copier_axioms

interpretation bLESection: deep_copier type_BLESection DeepCopyInto_BLESection
  unfolding type_BLESection_def DeepCopyInto_BLESection_def
  by (intro copyStruct_deep) (simp add: fieldCopied_def copy_laws)

lemmas BLESection_deep [copy_laws] = bLESection.deep_copier_axioms

interpretation wSSection: deep_copier type_WSSection DeepCopyInto_WSSection
  unfolding type_WSSection_def DeepCopyInto_WSSection_def
  by (intro copyStruct_deep) (simp add: fieldCopied_def copy_laws)

lemmas WSSection_deep [copy_laws] = wSSection.deep_copier_axioms

interpretation secretKeyRef: deep_copier type_SecretKeyRef DeepCopyInto_SecretKeyRef
  unfolding type_SecretKeyRef_def DeepCopyInto_SecretKeyRef_def
  by (intro copyStruct_deep) (simp add: fieldCopied_def copy_laws)

lemmas SecretKeyRef_deep [copy_laws] = secretKeyRef.deep_copier_axioms

interpretation authSection: deep_copier type_AuthSection DeepCopyInto_AuthSection
  unfolding type_AuthSection_def DeepCopyInto_AuthSection_def
  by (intro copyStruct_deep) (simp add: fieldCopied_def copy_laws)

lemmas AuthSection_deep [copy_laws] = authSection.deep_copier_axioms

interpretation switchSection: deep_copier type_SwitchSection DeepCopyInto_SwitchSection
  unfolding type_SwitchSection_def DeepCopyInto_SwitchSection_def
  by (intro copyStruct_deep) (simp add: fieldCopied_def copy_laws)

lemmas SwitchSection_deep [copy_laws] = switchSection.deep_copier_axioms

interpretation wifiNetwork: deep_copier type_WifiNetwork DeepCopyInto_WifiNetwork
  unfolding type_WifiNetwork_def DeepCopyInto_WifiNetwork_def
  by (intro copyStruct_deep) (simp add: fieldCopied_def copy_laws)

lemmas WifiNetwork_deep [copy_laws] = wifiNetwork.deep_copier_axioms

interpretation wifiAP: deep_copier type_WifiAP DeepCopyInto_WifiAP
  unfolding type_WifiAP_def DeepCopyInto_WifiAP_def
  by (intro copyStruct_deep) (simp add: fieldCopied_def copy_laws)

lemmas WifiAP_deep [copy_laws] = wifiAP.deep_copier_axioms

interpretation wifiRoam: deep_copier type_WifiRoam DeepCopyInto_WifiRoam
  unfolding type_WifiRoam_def DeepCopyInto_WifiRoam_def
  by (intro copyStruct_deep) (simp add: fieldCopied_def copy_laws)

lemmas WifiRoam_deep [copy_laws] = wifiRoam.deep_copier_axioms

interpretation wifiSection: deep_copier type_WifiSection DeepCopyInto_WifiSection
  unfolding type_WifiSection_def DeepCopyInto_WifiSection_def
  by (intro copyStruct_deep) (simp add: fieldCopied_def copy_laws)

lemmas WifiSection_deep [copy_laws] = wifiSection.deep_copier_axioms

interpretation firmwareSection: deep_copier type_FirmwareSection DeepCopyInto_FirmwareSection
  unfolding type_FirmwareSection_def DeepCopyInto_FirmwareSection_def
  by (intro copyStruct_deep) (simp add: fieldCopied_def copy_laws)

lemmas FirmwareSection_deep [copy_laws] = firmwareSection.deep_copier_axioms

lemma ScheduleCallSpec_deep [copy_laws]:
  assumes "extCopiers X"
  shows "deep_copier (type_ScheduleCallSpec X) (DeepCopyInto_ScheduleCallSpec X)"
  unfolding type_ScheduleCallSpec_def DeepCopyInto_ScheduleCallSpec_def
  using assms by (intro copyStruct_deep) (simp add: fieldCopied_def copy_laws)

lemma ScheduleJobSpec_deep [copy_laws]:
  assumes "extCopiers X"
  shows "deep_copier (type_ScheduleJobSpec X) (DeepCopyInto_ScheduleJobSpec X)"
  unfolding type_ScheduleJobSpec_def DeepCopyInto_ScheduleJobSpec_def
  using assms by (intro copyStruct_deep) (simp add: fieldCopied_def copy_laws)

lemma ScheduleSection_deep [copy_laws]:
  assumes "extCopiers X"
  shows "deep_copier (type_ScheduleSection X) (DeepCopyInto_ScheduleSection X)"
  unfolding type_ScheduleSection_def DeepCopyInto_ScheduleSection_def
  using assms by (intro copyStruct_deep) (simp add: fieldCopied_def copy_laws)

interpretation nightMode: deep_copier type_NightMode DeepCopyInto_NightMode
  unfolding type_NightMode_def DeepCopyInto_NightMode_def
  by (intro copyStruct_deep) (simp add: fieldCopied_def copy_laws)

lemmas NightMode_deep [copy_laws] = nightMode.deep_copier_axioms

interpretation uISection: deep_copier type_UISection DeepCopyInto_UISection
  unfolding type_UISection_def DeepCopyInto_UISection_def
  by (intro copyStruct_deep) (simp add: fieldCopied_def copy_laws)

lemmas UISection_deep [copy_laws] = uISection.deep_copier_axioms

lemma ProfileConfig_deep [copy_laws]:
  assumes "extCopiers X"
  shows "deep_copier (type_ProfileConfig X) (DeepCopyInto_ProfileConfig X)"
  unfolding type_ProfileConfig_def DeepCopyInto_ProfileConfig_def
  using assms by (intro copyStruct_deep) (simp add: fieldCopied_def copy_laws)

interpretation rebootWindow: deep_copier type_RebootWindow DeepCopyInto_RebootWindow
  unfolding type_RebootWindow_def DeepCopyInto_RebootWindow_def
  by (intro copyStruct_deep) (simp add: fieldCopied_def copy_laws)

lemmas RebootWindow_deep [copy_laws] = rebootWindow.deep_copier_axioms

lemma ShellyProfileSpec_deep [copy_laws]:
  assumes "extCopiers X"
  shows "deep_copier (type_ShellyProfileSpec X) (DeepCopyInto_ShellyProfileSpec X)"
  unfolding type_ShellyProfileSpec_def DeepCopyInto_ShellyProfileSpec_def
  using assms by (intro copyStruct_deep) (simp add: fieldCopied_def copy_laws)

lemma ShellyProfile_deep [copy_laws]:
  assumes "extCopiers X"
  shows "deep_copier (type_ShellyProfile X) (DeepCopyInto_ShellyProfile X)"
  unfolding type_ShellyProfile_def DeepCopyInto_ShellyProfile_def
  using assms by (intro copyStruct_deep) (simp add: fieldCopied_def copy_laws)

lemma ShellyProfileList_deep [copy_laws]:
  assumes "extCopiers X"
  shows "deep_copier (type_ShellyProfileList X) (DeepCopyInto_ShellyProfileList X)"
  unfolding type_ShellyProfileList_def DeepCopyInto_ShellyProfileList_def
  using assms by (intro copyStruct_deep) (simp add: fieldCopied_def copy_laws)

interpretation shellyDeviceSpec: deep_copier type_ShellyDeviceSpec DeepCopyInto_ShellyDeviceSpec
  unfolding type_ShellyDeviceSpec_def DeepCopyInto_ShellyDeviceSpec_def
  by (intro copyStruct_deep) (simp add: fieldCopied_def copy_laws)

lemmas ShellyDeviceSpec_deep [copy_laws] = shellyDeviceSpec.deep_copier_axioms

lemma FirmwareUpdateAttempt_deep [copy_laws]:
  assumes "extCopiers X"
  shows "deep_copier (type_FirmwareUpdateAttempt X) (DeepCopyInto_FirmwareUpdateAttempt X)"
  unfolding type_FirmwareUpdateAttempt_def DeepCopyInto_FirmwareUpdateAttempt_def
  using assms by (intro copyStruct_deep) (simp add: fieldCopied_def copy_laws)

lemma ShellyDeviceStatus_deep [copy_laws]:
  assumes "extCopiers X"
  shows "deep_copier (type_ShellyDeviceStatus X) (DeepCopyInto_ShellyDeviceStatus X)"
  unfolding type_ShellyDeviceStatus_def DeepCopyInto_ShellyDeviceStatus_def
  using assms by (intro copyStruct_deep) (simp add: fieldCopied_def copy_laws)

lemma ShellyDevice_deep [copy_laws]:
  assumes "extCopiers X"
  shows "deep_copier (type_ShellyDevice X) (DeepCopyInto_ShellyDevice X)"
  unfolding type_ShellyDevice_def DeepCopyInto_ShellyDevice_def
  using assms by (intro copyStruct_deep) (simp add: fieldCopied_def copy_laws)

lemma ShellyDeviceList_deep [copy_laws]:
  assumes "extCopiers X"
  shows "deep_copier (type_ShellyDeviceList X) (DeepCopyInto_ShellyDeviceList X)"
  unfolding type_ShellyDeviceList_def DeepCopyInto_ShellyDeviceList_def
  using assms by (intro copyStruct_deep) (simp add: fieldCopied_def copy_laws)

section \<open>Copies are separate from their originals\<close>

text \<open>
  Reading a pointer before and after: the copy has the contents of the original; whatever is
  written later to a cell that existed before, the copy keeps them; whatever is written to a cell
  of the copy, or allocated after it, the original keeps them.
\<close>

definition separates :: "gtype \<Rightarrow> copier \<Rightarrow> bool" where
  "separates t copy \<longleftrightarrow> (\<forall>h p c q h'. contents t h p = Some c \<longrightarrow> copy p h = (q, h') \<longrightarrow>
     contents t h' q = Some c \<and>
     (\<forall>a u. a < length h \<longrightarrow> contents t (h'[a := u]) q = Some c) \<and>
     (\<forall>a u. length h \<le> a \<longrightarrow> contents t (h'[a := u]) p = Some c))"

lemma separates_copy:
  "separates t copy \<Longrightarrow> contents t h p = Some c \<Longrightarrow> copy p h = (q, h') \<Longrightarrow> a < length h \<Longrightarrow>
    contents t (h'[a := u]) q = Some c"
  unfolding separates_def by blast

lemma deep_separates: "deep_copier t c \<Longrightarrow> separates t c"
  unfolding separates_def by (auto intro: deep_copier.isolated)

text \<open>
  C25: Deep copies share nothing. For every object the operator copies - devices, profiles and their
  lists - \<open>DeepCopy\<close> returns a pointer with exactly the contents of the original, nil for nil, and from
  then on neither sees what is written through the other, down to every pointer and slice of its
  sections, provided the types of apimachinery inside copy themselves so.
\<close>

theorem DeepCopy_separate:
  assumes "extCopiers X"
  shows "separates (TPtr (type_ShellyDevice X)) (DeepCopy_ShellyDevice X) \<and>
    separates (TPtr (type_ShellyProfile X)) (DeepCopy_ShellyProfile X) \<and>
    separates (TPtr (type_ShellyDeviceList X)) (DeepCopy_ShellyDeviceList X) \<and>
    separates (TPtr (type_ShellyProfileList X)) (DeepCopy_ShellyProfileList X)"
  unfolding DeepCopy_ShellyDevice_def DeepCopy_ShellyProfile_def DeepCopy_ShellyDeviceList_def DeepCopy_ShellyProfileList_def
  using assms by (auto intro!: deep_separates copy_laws)

text \<open>A device with a condition and a drifted section, under simple types of the other packages.\<close>

definition plainExt :: extlib where
  "plainExt = \<lparr>xt_TypeMeta = TStruct [(''Kind'', TStr), (''APIVersion'', TStr)],
     xt_ObjectMeta = TStruct [(''Name'', TStr), (''Finalizers'', TSlice TStr)],
     xc_ObjectMeta = copyStruct [(''Finalizers'', newSlice assign)],
     xt_ListMeta = TStruct [(''Continue'', TStr)], xc_ListMeta = assign,
     xt_Time = TOpaque, xc_Time = assign, xc_TimeDeepCopy = newPtr assign,
     xt_Condition = TStruct [(''Type'', TStr), (''Reason'', TStr)], xc_Condition = assign,
     xt_LabelSelector = TStruct [(''MatchExpressions'', TSlice TStr)],
     xc_LabelSelector = copyStruct [(''MatchExpressions'', newSlice assign)],
     xt_JSON = TStruct [(''Raw'', TSlice TInt)], xc_JSON = copyStruct [(''Raw'', newSlice assign)]\<rparr>"

lemma plainExt_copiers: "extCopiers plainExt"
  by (simp add: extCopiers_def plainExt_def copy_laws copyStruct_deep fieldCopied_def)

definition deviceHeap :: heap where
  "deviceHeap = [
     GStruct [
       (''TypeMeta'', GStruct [(''Kind'', GStr ''ShellyDevice''), (''APIVersion'', GStr ''v1alpha1'')]),
       (''ObjectMeta'', GStruct [(''Name'', GStr ''aabb''), (''Finalizers'', GSlice None)]),
       (''Spec'', GStruct [(''Paused'', GBool False), (''DisplayName'', GStr []), (''ProfileRef'', GStr [])]),
       (''Status'', GStruct [
          (''Address'', GStr ''10.0.0.7''), (''MAC'', GStr ''AABB''), (''Model'', GStr []), (''App'', GStr []),
          (''Gen'', GInt 2), (''Firmware'', GStr ''1.0''), (''AvailableFirmware'', GStr []), (''AuthEnabled'', GBool False),
          (''RestartRequired'', GBool False), (''LastFirmwareUpdate'', GPtr None), (''DeviceName'', GStr []),
          (''Online'', GBool True), (''LastSeen'', GPtr (Some 1)), (''MatchedProfile'', GStr ''plugs''),
          (''DriftedSections'', GSlice (Some (2, 0, 1))), (''Conditions'', GSlice (Some (3, 0, 1)))])],
     GOpaque 7,
     GArray [GStr ''cloud''],
     GArray [GStruct [(''Type'', GStr ''InSync''), (''Reason'', GStr ''Drifted'')]]]"

text \<open>
  The object is copied, then the original's list of drifted sections is overwritten: the copy still
  names the section.
\<close>

theorem DeepCopy_separate_witness:
  "\<exists>q h' c. DeepCopy_ShellyDevice plainExt (GPtr (Some 0)) deviceHeap = (q, h') \<and> q = GPtr (Some 7) \<and>
     contents (TPtr (type_ShellyDevice plainExt)) deviceHeap (GPtr (Some 0)) = Some c \<and>
     contents (TPtr (type_ShellyDevice plainExt)) (h'[2 := GArray [GStr ''mqtt'']]) q = Some c \<and>
     contents (TPtr (type_ShellyDevice plainExt)) (h'[2 := GArray [GStr ''mqtt'']]) (GPtr (Some 0)) \<noteq> Some c"
proof -
  let ?t = "TPtr (type_ShellyDevice plainExt)"
  obtain q h' where q: "DeepCopy_ShellyDevice plainExt (GPtr (Some 0)) deviceHeap = (q, h')" by force
  have "contents ?t deviceHeap (GPtr (Some 0)) \<noteq> None" by code_simp
  then obtain c where c: "contents ?t deviceHeap (GPtr (Some 0)) = Some c" by blast
  have "fst (DeepCopy_ShellyDevice plainExt (GPtr (Some 0)) deviceHeap) = GPtr (Some 7)" by code_simp
  then have "q = GPtr (Some 7)" by (simp add: q)
  moreover have "separates ?t (DeepCopy_ShellyDevice plainExt)" using DeepCopy_separate [OF plainExt_copiers] by blast
  from separates_copy [OF this c q, of 2] have "contents ?t (h'[2 := GArray [GStr ''mqtt'']]) q = Some c"
    by (simp add: deviceHeap_def)
  moreover have "contents ?t ((snd (DeepCopy_ShellyDevice plainExt (GPtr (Some 0)) deviceHeap))[2 := GArray [GStr ''mqtt'']]) (GPtr (Some 0)) \<noteq>
      contents ?t deviceHeap (GPtr (Some 0))" by code_simp
  ultimately show ?thesis using q c by auto
qed

end
