(* ===== verification/Test_Utils.thy ===== *)
theory Test_Utils
  imports Cidr
begin

text \<open>
  \<open>test/utils/utils.go\<close>: the helpers of the end-to-end tests, which run commands and edit files.
  The operating system is an environment of an arbitrary type \<open>'e\<close>, reached through a record of
  the calls the helpers make; the helpers thread it, so the order of their calls is explicit.
\<close>

section \<open>The process\<close>

text \<open>
  An \<open>exec.Cmd\<close>, with the name of the program as first argument. \<open>combinedOutput\<close> returns what
  the command printed also when it failed; \<open>getwd\<close> returns its string also with an error.
  \<open>ginkgo\<close> is \<open>fmt.Fprintf\<close> to the \<open>GinkgoWriter\<close>, whose result is dropped.
\<close>

record Cmd =
  cmd_args :: "string list"
  cmd_dir :: string
  cmd_env :: "string list"

record 'e procops =
  getwd :: "'e \<Rightarrow> (string \<times> go_error option) \<times> 'e"
  chdir :: "string \<Rightarrow> 'e \<Rightarrow> go_error option \<times> 'e"
  environ :: "'e \<Rightarrow> string list \<times> 'e"
  lookupEnv :: "string \<Rightarrow> 'e \<Rightarrow> string option \<times> 'e"
  combinedOutput :: "Cmd \<Rightarrow> 'e \<Rightarrow> (string \<times> go_error option) \<times> 'e"
  ginkgo :: "string \<Rightarrow> 'e \<Rightarrow> 'e"
  readFile :: "string \<Rightarrow> 'e \<Rightarrow> (go_error + string) \<times> 'e"
  writeFile :: "string \<Rightarrow> string \<Rightarrow> 'e \<Rightarrow> go_error option \<times> 'e"

definition Command :: "string \<Rightarrow> string list \<Rightarrow> Cmd" where
  "Command name args = \<lparr>cmd_args = name # args, cmd_dir = [], cmd_env = []\<rparr>"

abbreviation newline :: char where
  "newline \<equiv> CHR 0x0A"

abbreviation carriageReturn :: char where
  "carriageReturn \<equiv> CHR 0x0D"

section \<open>Searching strings\<close>

text \<open>\<open>strings.Index\<close>, \<open>None\<close> for \<open>-1\<close>; \<open>strings.Contains\<close>; \<open>strings.ReplaceAll\<close> of a non-empty string.\<close>

fun stringsIndex :: "string \<Rightarrow> string \<Rightarrow> nat option" where
  "stringsIndex [] t = (if t = [] then Some 0 else None)"
| "stringsIndex (c # s) t =
     (if hasPrefix (c # s) t then Some 0 else map_option Suc (stringsIndex s t))"

definition stringsContains :: "string \<Rightarrow> string \<Rightarrow> bool" where
  "stringsContains s t \<longleftrightarrow> stringsIndex s t \<noteq> None"

function replaceAll :: "string \<Rightarrow> string \<Rightarrow> string \<Rightarrow> string" where
  "replaceAll s old new =
     (if old = [] \<or> s = [] then s
      else if hasPrefix s old then new @ replaceAll (drop (length old) s) old new
      else hd s # replaceAll (tl s) old new)"
  by pat_completeness auto
termination by (relation "measure (\<lambda>(s, old, new). length s)") auto

declare replaceAll.simps [simp del]

section \<open>Running commands\<close>

definition GetProjectDir :: "'e procops \<Rightarrow> 'e \<Rightarrow> (string \<times> go_error option) \<times> 'e" where
  "GetProjectDir P e =
     (case getwd P e of
        ((wd, Some err), e) \<Rightarrow> ((wd, Some (ErrWrap ''failed to get current working directory: '' err)), e)
      | ((wd, None), e) \<Rightarrow> ((replaceAll wd ''/test/e2e'' [], None), e))"

definition warnError :: "'e procops \<Rightarrow> go_error \<Rightarrow> 'e \<Rightarrow> 'e" where
  "warnError P err e = ginkgo P (''warning: '' @ errText err @ [newline]) e"

definition Run :: "'e procops \<Rightarrow> Cmd \<Rightarrow> 'e \<Rightarrow> (string \<times> go_error option) \<times> 'e" where
  "Run P cmd e =
     (let ((dir, _), e) = GetProjectDir P e;
          cmd = cmd\<lparr>cmd_dir := dir\<rparr>;
          (cd, e) = chdir P (cmd_dir cmd) e;
          e = (case cd of None \<Rightarrow> e | Some err \<Rightarrow> ginkgo P (''chdir dir: '' @ quoted (errText err) @ [newline]) e);
          (env, e) = environ P e;
          cmd = cmd\<lparr>cmd_env := env @ [''GO111MODULE=on'']\<rparr>;
          command = joinStrings (cmd_args cmd) '' '';
          e = ginkgo P (''running: '' @ quoted command @ [newline]) e
      in case combinedOutput P cmd e of
           ((output, Some err), e) \<Rightarrow>
             ((output, Some (ErrWrap (quoted command @ '' failed with error '' @ quoted output @ '': '') err)), e)
         | ((output, None), e) \<Rightarrow> ((output, None), e))"

abbreviation certmanagerVersion :: string where "certmanagerVersion \<equiv> ''v1.20.2''"

definition certmanagerURL :: string where
  "certmanagerURL =
     ''https://github.com/cert-manager/cert-manager/releases/download/'' @ certmanagerVersion @ ''/cert-manager.yaml''"

text \<open>A command whose failure is only reported.\<close>

definition runWarning :: "'e procops \<Rightarrow> Cmd \<Rightarrow> 'e \<Rightarrow> 'e" where
  "runWarning P cmd e =
     (case Run P cmd e of
        ((_, Some err), e) \<Rightarrow> warnError P err e
      | ((_, None), e) \<Rightarrow> e)"

definition kubeSystemLeases :: "string list" where
  "kubeSystemLeases = [''cert-manager-cainjector-leader-election'', ''cert-manager-controller'']"

definition deleteLease :: "string \<Rightarrow> Cmd" where
  "deleteLease lease = Command ''kubectl'' [''delete'', ''lease'', lease,
     ''-n'', ''kube-system'', ''--ignore-not-found'', ''--force'', ''--grace-period=0'']"

definition UninstallCertManager :: "'e procops \<Rightarrow> 'e \<Rightarrow> 'e" where
  "UninstallCertManager P e =
     (let e = runWarning P (Command ''kubectl'' [''delete'', ''-f'', certmanagerURL]) e
      in foldl (\<lambda>e lease. runWarning P (deleteLease lease) e) e kubeSystemLeases)"

definition InstallCertManager :: "'e procops \<Rightarrow> 'e \<Rightarrow> go_error option \<times> 'e" where
  "InstallCertManager P e =
     (case Run P (Command ''kubectl'' [''apply'', ''-f'', certmanagerURL]) e of
        ((_, Some err), e) \<Rightarrow> (Some err, e)
      | ((_, None), e) \<Rightarrow>
          (case Run P (Command ''kubectl'' [''wait'', ''deployment.apps/cert-manager-webhook'',
                  ''--for'', ''condition=Available'', ''--namespace'', ''cert-manager'', ''--timeout'', ''5m'']) e of
             ((_, err), e) \<Rightarrow> (err, e)))"

definition GetNonEmptyLines :: "string \<Rightarrow> string list" where
  "GetNonEmptyLines output = filter (\<lambda>element. element \<noteq> []) (splitOn newline output)"

definition certManagerCRDs :: "string list" where
  "certManagerCRDs = [''certificates.cert-manager.io'', ''issuers.cert-manager.io'',
     ''clusterissuers.cert-manager.io'', ''certificaterequests.cert-manager.io'',
     ''orders.acme.cert-manager.io'', ''challenges.acme.cert-manager.io'']"

definition IsCertManagerCRDsInstalled :: "'e procops \<Rightarrow> 'e \<Rightarrow> bool \<times> 'e" where
  "IsCertManagerCRDsInstalled P e =
     (case Run P (Command ''kubectl'' [''get'', ''crds'']) e of
        ((_, Some _), e) \<Rightarrow> (False, e)
      | ((output, None), e) \<Rightarrow>
          (list_ex (\<lambda>crd. list_ex (\<lambda>line. stringsContains line crd) (GetNonEmptyLines output)) certManagerCRDs, e))"

definition LoadImageToKindClusterWithName :: "'e procops \<Rightarrow> string \<Rightarrow> 'e \<Rightarrow> go_error option \<times> 'e" where
  "LoadImageToKindClusterWithName P name e =
     (let (v, e) = lookupEnv P ''KIND_CLUSTER'' e;
          cluster = (case v of None \<Rightarrow> ''kind'' | Some v \<Rightarrow> v);
          kindOptions = [''load'', ''docker-image'', name, ''--name'', cluster];
          (v, e) = lookupEnv P ''KIND'' e;
          kindBinary = (case v of None \<Rightarrow> ''kind'' | Some v \<Rightarrow> v);
          ((_, err), e) = Run P (Command kindBinary kindOptions) e
      in (err, e))"

section \<open>Uncommenting\<close>

text \<open>
  \<open>bufio.Scanner\<close> with its default split function \<open>ScanLines\<close> over text that is already in
  memory: the lines without their terminators, a final carriage return dropped from each, no
  empty line after a final newline. A line that does not fit the buffer of \<open>MaxScanTokenSize\<close>
  bytes together with its newline ends the scan.
\<close>

abbreviation maxScanTokenSize :: nat where
  "maxScanTokenSize \<equiv> 65536"

definition dropCR :: "string \<Rightarrow> string" where
  "dropCR line = (if line \<noteq> [] \<and> last line = carriageReturn then butlast line else line)"

definition scanLines :: "string \<Rightarrow> string list" where
  "scanLines s =
     (let ls = splitOn newline s;
          ls = (if last ls = [] then butlast ls else ls)
      in map dropCR (takeWhile (\<lambda>line. length line < maxScanTokenSize) ls))"

text \<open>The loop of \<open>UncommentCode\<close>: every line without the prefix, a newline between two lines.\<close>

fun uncommentLines :: "string list \<Rightarrow> string \<Rightarrow> string" where
  "uncommentLines [] pre = []"
| "uncommentLines (line # ls) pre =
     trimPrefix line pre @ (if ls = [] then [] else [newline] @ uncommentLines ls pre)"

text \<open>
  A write to a \<open>bytes.Buffer\<close> always returns a nil error, so the branches that wrap one are
  not reachable.
\<close>

definition UncommentCode :: "'e procops \<Rightarrow> string \<Rightarrow> string \<Rightarrow> string \<Rightarrow> 'e \<Rightarrow> go_error option \<times> 'e" where
  "UncommentCode P filename target pre e =
     (case readFile P filename e of
        (Inl err, e) \<Rightarrow> (Some (ErrWrap (''failed to read file '' @ quoted filename @ '': '') err), e)
      | (Inr content, e) \<Rightarrow>
          (case stringsIndex content target of
             None \<Rightarrow> (Some (ErrText (''unable to find the code '' @ quoted target @ '' to be uncommented'')), e)
           | Some idx \<Rightarrow>
               (case scanLines target of
                  [] \<Rightarrow> (None, e)
                | line # ls \<Rightarrow>
                    (let out = take idx content @ uncommentLines (line # ls) pre
                           @ drop (idx + length target) content
                     in case writeFile P filename out e of
                          (Some err, e) \<Rightarrow>
                            (Some (ErrWrap (''failed to write file '' @ quoted filename @ '': '') err), e)
                        | (None, e) \<Rightarrow> (None, e)))))"

section \<open>Splitting and searching\<close>

lemma splitOn_not_Nil [simp]: "splitOn d s \<noteq> []"
  by (induction s) (auto split: list.splits)

lemma splitOn_cons: "c \<noteq> d \<Longrightarrow> splitOn d (c # s) = (c # hd (splitOn d s)) # tl (splitOn d s)"
  by (cases "splitOn d s") simp_all

lemma splitOn_line: "d \<notin> set l \<Longrightarrow> splitOn d l = [l]"
  by (induction l) auto

lemma splitOn_first: "d \<notin> set l \<Longrightarrow> splitOn d (l @ d # s) = l # splitOn d s"
  by (induction l) auto

lemma splitOn_join:
  "ls \<noteq> [] \<Longrightarrow> \<forall>l \<in> set ls. d \<notin> set l \<Longrightarrow> splitOn d (joinStrings ls [d]) = ls"
  by (induction ls "[d]" rule: joinStrings.induct) (simp_all add: splitOn_line splitOn_first)

lemma join_cons: "xs \<noteq> [] \<Longrightarrow> joinStrings (x # xs) sep = x @ sep @ joinStrings xs sep"
  by (cases xs) simp_all

lemma join_hd: "joinStrings ((c # x) # xs) sep = c # joinStrings (x # xs) sep"
  by (cases xs) simp_all

lemma join_splitOn: "joinStrings (splitOn d s) [d] = s"
  by (induction s) (auto simp: join_cons join_hd split: list.splits)

lemma splitOn_sublist: "l \<in> set (splitOn d s) \<Longrightarrow> sublist l s"
proof (induction s arbitrary: l)
  case (Cons c s)
  show ?case
  proof (cases "c = d")
    case True
    then show ?thesis using Cons by (auto intro: sublist_Cons_right [THEN iffD2])
  next
    case False
    obtain f fs where sp: "splitOn d s = f # fs" by (cases "splitOn d s") simp_all
    have "prefix f s" using join_splitOn [of d s] by (cases fs) (auto simp: sp prefix_def)
    then have "sublist (c # f) (c # s)" by (intro prefix_imp_sublist) simp
    moreover have "sublist l (c # s)" if "l \<in> set fs"
      using Cons.IH [of l] that by (simp add: sp sublist_Cons_right)
    ultimately show ?thesis using Cons.prems False by (auto simp: sp)
  qed
qed simp

text \<open>Text without the separator that occurs in a string occurs within one of its lines.\<close>

lemma prefix_first_line: "prefix t s \<Longrightarrow> d \<notin> set t \<Longrightarrow> prefix t (hd (splitOn d s))"
proof (induction s arbitrary: t)
  case (Cons c s)
  show ?case
  proof (cases t)
    case (Cons b t')
    then have "b = c" "c \<noteq> d" "prefix t' s" "d \<notin> set t'" using Cons.prems by auto
    then show ?thesis using Cons.IH [of t'] Cons by (simp add: splitOn_cons del: splitOn.simps)
  qed simp
qed simp

lemma sublist_line:
  assumes "sublist t s" "d \<notin> set t"
  shows "\<exists>l \<in> set (splitOn d s). sublist t l"
  using assms
proof (induction s)
  case (Cons c s)
  consider "prefix t (c # s)" | "sublist t s" using Cons.prems by (auto simp: sublist_Cons_right)
  then show ?case
  proof cases
    case 1
    then have "sublist t (hd (splitOn d (c # s)))"
      using prefix_first_line [OF _ Cons.prems(2)] by (blast intro: prefix_imp_sublist)
    then show ?thesis by (meson hd_in_set splitOn_not_Nil)
  next
    case 2
    then obtain l where l: "l \<in> set (splitOn d s)" "sublist t l" using Cons by blast
    then show ?thesis
      by (cases "splitOn d s"; cases "c = d") (auto simp: sublist_Cons_right)
  qed
qed simp

lemma stringsIndex_split: "stringsIndex s t = Some i \<Longrightarrow> s = take i s @ t @ drop (i + length t) s"
proof (induction s arbitrary: i)
  case (Cons c s)
  then show ?case
    by (auto simp: hasPrefix_prefix prefix_def split: if_splits)
qed (simp split: if_splits)

lemma stringsIndex_Nil [simp]: "stringsIndex s [] = Some 0"
  by (cases s) (simp_all add: hasPrefix_def)

lemma stringsIndex_least: "stringsIndex (a @ t @ b) t = Some i \<Longrightarrow> i \<le> length a"
proof (induction a arbitrary: i)
  case Nil
  then show ?case by (cases t) (simp_all add: hasPrefix_def)
qed (auto split: if_splits)

lemma stringsContains_sublist: "stringsContains s t \<longleftrightarrow> sublist t s"
  by (induction s) (auto simp: stringsContains_def hasPrefix_prefix sublist_Cons_right)

lemma stringsIndex_first:
  assumes "s = a @ t @ b" "\<And>a' b'. s = a' @ t @ b' \<Longrightarrow> length a \<le> length a'"
  shows "stringsIndex s t = Some (length a)"
proof -
  have "stringsIndex s t \<noteq> None"
    using assms(1) stringsContains_sublist [of s t] by (auto simp: stringsContains_def)
  then obtain i where i: "stringsIndex s t = Some i" by blast
  have "i \<le> length a" using stringsIndex_least i assms(1) by blast
  moreover have "length a \<le> length (take i s)" using assms(2) stringsIndex_split [OF i] by blast
  ultimately show ?thesis using i by simp
qed

lemma nonEmptyLines_contain:
  assumes "newline \<notin> set t" "t \<noteq> []"
  shows "list_ex (\<lambda>line. stringsContains line t) (GetNonEmptyLines s) \<longleftrightarrow> sublist t s"
proof
  assume "list_ex (\<lambda>line. stringsContains line t) (GetNonEmptyLines s)"
  then obtain l where "l \<in> set (splitOn newline s)" "sublist t l"
    by (auto simp: list_ex_iff GetNonEmptyLines_def stringsContains_sublist)
  then show "sublist t s" using splitOn_sublist sublist_order.order_trans by blast
next
  assume "sublist t s"
  then obtain l where "l \<in> set (splitOn newline s)" "sublist t l" using sublist_line assms(1) by blast
  then show "list_ex (\<lambda>line. stringsContains line t) (GetNonEmptyLines s)"
    using assms(2) by (auto simp: list_ex_iff GetNonEmptyLines_def stringsContains_sublist)
qed

text \<open>cert-manager counts as installed exactly when the listing succeeded and names one of its kinds.\<close>

lemma IsCertManagerCRDsInstalled_iff:
  assumes "Run P (Command ''kubectl'' [''get'', ''crds'']) e = ((output, err), e1)"
  shows "IsCertManagerCRDsInstalled P e = (err = None \<and> (\<exists>crd \<in> set certManagerCRDs. sublist crd output), e1)"
proof -
  have "list_all (\<lambda>crd. newline \<notin> set crd \<and> crd \<noteq> []) certManagerCRDs" by code_simp
  then have "list_ex (\<lambda>crd. list_ex (\<lambda>line. stringsContains line crd) (GetNonEmptyLines output)) certManagerCRDs
      \<longleftrightarrow> (\<exists>crd \<in> set certManagerCRDs. sublist crd output)"
    using nonEmptyLines_contain by (fastforce simp: list_all_iff list_ex_iff [of _ certManagerCRDs])
  then show ?thesis by (simp add: IsCertManagerCRDsInstalled_def assms split: option.splits)
qed

section \<open>Uncommenting is exact\<close>

lemma scanLines_join:
  assumes "ls \<noteq> []" "last ls \<noteq> []"
    and "\<forall>l \<in> set ls. newline \<notin> set l \<and> length l < maxScanTokenSize \<and> (l \<noteq> [] \<longrightarrow> last l \<noteq> carriageReturn)"
  shows "scanLines (joinStrings ls [newline]) = ls"
proof -
  have sp: "splitOn newline (joinStrings ls [newline]) = ls" using assms by (intro splitOn_join) auto
  have tw: "takeWhile (\<lambda>l. length l < maxScanTokenSize) ls = ls" using assms(3) by (simp add: takeWhile_eq_all_conv)
  have cr: "map dropCR ls = ls" using assms(3) by (intro map_idI) (auto simp: dropCR_def)
  show ?thesis using assms(2) by (simp add: scanLines_def sp tw cr)
qed

lemma uncommentLines_join: "uncommentLines ls pre = joinStrings (map (\<lambda>l. trimPrefix l pre) ls) [newline]"
  by (induction ls) (auto simp: join_cons)

text \<open>A final newline of the target is no line of its own: it is not written back.\<close>

lemma scanLines_final_newline: "scanLines (l @ [newline]) = scanLines l" if "newline \<notin> set l" "l \<noteq> []"
  using that by (simp add: scanLines_def Let_def splitOn_line splitOn_first)

text \<open>
  C39: uncommenting a target whose lines are proper lines (no terminator inside, shorter than the
  scanner's buffer, the last one not empty) writes back the file with exactly the first
  occurrence of the target changed: each of its lines loses the prefix if it has it, and every
  byte before and after is kept. Nothing else is written, and a target that does not occur is an
  error that writes nothing.
\<close>

theorem UncommentCode_exact:
  assumes "readFile P filename e = (Inr content, e1)"
    and "target = joinStrings ls [newline]" "ls \<noteq> []" "last ls \<noteq> []"
    and "\<forall>l \<in> set ls. newline \<notin> set l \<and> length l < maxScanTokenSize \<and> (l \<noteq> [] \<longrightarrow> last l \<noteq> carriageReturn)"
  shows "(\<not> sublist target content \<longrightarrow>
      UncommentCode P filename target pre e =
        (Some (ErrText (''unable to find the code '' @ quoted target @ '' to be uncommented'')), e1)) \<and>
    (\<forall>a b. content = a @ target @ b \<and> (\<forall>a' b'. content = a' @ target @ b' \<longrightarrow> length a \<le> length a') \<longrightarrow>
      UncommentCode P filename target pre e =
        apfst (map_option (ErrWrap (''failed to write file '' @ quoted filename @ '': '')))
          (writeFile P filename (a @ joinStrings (map (\<lambda>l. trimPrefix l pre) ls) [newline] @ b) e1))"
proof (intro conjI impI allI)
  assume "\<not> sublist target content"
  then have "stringsIndex content target = None"
    using stringsContains_sublist [of content target] by (simp add: stringsContains_def)
  then show "UncommentCode P filename target pre e =
      (Some (ErrText (''unable to find the code '' @ quoted target @ '' to be uncommented'')), e1)"
    by (simp add: UncommentCode_def assms(1))
next
  fix a b
  assume h: "content = a @ target @ b \<and> (\<forall>a' b'. content = a' @ target @ b' \<longrightarrow> length a \<le> length a')"
  then have i: "stringsIndex content target = Some (length a)" using stringsIndex_first by blast
  have "scanLines target = ls" using scanLines_join assms(2-5) by blast
  moreover obtain l ls' where "ls = l # ls'" using assms(3) by (cases ls) simp_all
  moreover obtain r e2 where
    "writeFile P filename (a @ joinStrings (map (\<lambda>l. trimPrefix l pre) ls) [newline] @ b) e1 = (r, e2)" by force
  ultimately show "UncommentCode P filename target pre e =
      apfst (map_option (ErrWrap (''failed to write file '' @ quoted filename @ '': '')))
        (writeFile P filename (a @ joinStrings (map (\<lambda>l. trimPrefix l pre) ls) [newline] @ b) e1)"
    using assms(1) i h
    by (cases r) (simp_all add: UncommentCode_def Let_def uncommentLines_join del: uncommentLines.simps)
qed

text \<open>A process whose files are an association list, in which every command succeeds. It models no code of the repository.\<close>

definition fileOps :: "string gomap procops" where
  "fileOps = \<lparr>getwd = (\<lambda>e. (([], None), e)), chdir = (\<lambda>d e. (None, e)), environ = (\<lambda>e. ([], e)),
     lookupEnv = (\<lambda>v e. (None, e)), combinedOutput = (\<lambda>c e. (([], None), e)), ginkgo = (\<lambda>t e. e),
     readFile = (\<lambda>f e. (case map_of e f of None \<Rightarrow> Inl (ErrText ''no such file'') | Some c \<Rightarrow> Inr c, e)),
     writeFile = (\<lambda>f c e. (None, AList.update f c e))\<rparr>"

theorem UncommentCode_exact_witness:
  "UncommentCode fileOps ''f'' (joinStrings [''#a'', ''b'', ''#c''] [newline]) ''#''
     [(''f'', ''x #'' @ joinStrings [''#a'', ''b'', ''#c''] [newline] @ ''#y'')]
   = (None, [(''f'', ''x #'' @ joinStrings [''a'', ''b'', ''c''] [newline] @ ''#y'')])"
proof -
  let ?ls = "[''#a'', ''b'', ''#c'']" and ?a = "''x #''"
  let ?t = "joinStrings ?ls [newline]"
  let ?e = "[(''f'', ?a @ ?t @ ''#y'')]"
  have r: "readFile fileOps ''f'' ?e = (Inr (?a @ ?t @ ''#y''), ?e)" by (simp add: fileOps_def)
  have n: "?ls \<noteq> []" and l: "last ?ls \<noteq> []" by simp_all
  have w: "\<forall>l \<in> set ?ls. newline \<notin> set l \<and> length l < maxScanTokenSize \<and> (l \<noteq> [] \<longrightarrow> last l \<noteq> carriageReturn)"
    by simp
  have "stringsIndex (?a @ ?t @ ''#y'') ?t = Some (length ?a)" by code_simp
  then have "\<forall>a' b'. ?a @ ?t @ ''#y'' = a' @ ?t @ b' \<longrightarrow> length ?a \<le> length a'"
    by (metis stringsIndex_least)
  then have "UncommentCode fileOps ''f'' ?t ''#'' ?e =
      apfst (map_option (ErrWrap (''failed to write file '' @ quoted ''f'' @ '': '')))
        (writeFile fileOps ''f'' (?a @ joinStrings (map (\<lambda>l. trimPrefix l ''#'') ?ls) [newline] @ ''#y'') ?e)"
    by (intro UncommentCode_exact [OF r refl n l w, THEN conjunct2, THEN spec, THEN spec, THEN mp] conjI refl)
  moreover have "map (\<lambda>l. trimPrefix l ''#'') ?ls = [''a'', ''b'', ''c'']" by code_simp
  ultimately show ?thesis by (simp add: fileOps_def)
qed

end
